(* ===== verification/Prelude.thy ===== *)
theory Prelude
  imports Main "HOL-Library.List_Lexorder" "HOL-Library.Char_ord"
begin

text \<open>
  Shared vocabulary of the development: the fragments of the Go standard library the
  program uses (package \<^verbatim>\<open>strings\<close>, \<^verbatim>\<open>strconv.Atoi\<close>, the anchored regular
  expressions of package \<^verbatim>\<open>regexp\<close>), the collections of facts the component theories
  extend, and the generic lemmas on lists of rows that the tables of the store rest on.

  A Go \<^verbatim>\<open>string\<close> is a sequence of bytes, which is what the type \<^typ>\<open>string\<close> (a list
  of 8-bit characters) holds.  A function that returns \<^verbatim>\<open>(T, error)\<close> returns a sum here:
  \<^term>\<open>Inl e\<close> for the error and \<^term>\<open>Inr x\<close> for the value.
\<close>

named_theorems inv_intros \<open>preservation of the well-formedness invariants\<close>
named_theorems inv_dests \<open>the same, for forward reasoning from an equation on the result\<close>
named_theorems frame_simps \<open>what an operation leaves unchanged\<close>
named_theorems row_simps \<open>lookup after an update of a table\<close>

section \<open>Characters and strings\<close>

definition is_lower :: "char \<Rightarrow> bool" where
  "is_lower c \<longleftrightarrow> CHR ''a'' \<le> c \<and> c \<le> CHR ''z''"

definition is_upper :: "char \<Rightarrow> bool" where
  "is_upper c \<longleftrightarrow> CHR ''A'' \<le> c \<and> c \<le> CHR ''Z''"

definition is_digit :: "char \<Rightarrow> bool" where
  "is_digit c \<longleftrightarrow> CHR ''0'' \<le> c \<and> c \<le> CHR ''9''"

text \<open>\<^verbatim>\<open>strings.HasPrefix\<close>, \<^verbatim>\<open>HasSuffix\<close>, \<^verbatim>\<open>TrimPrefix\<close> and \<^verbatim>\<open>Contains\<close>.\<close>

definition has_prefix :: "string \<Rightarrow> string \<Rightarrow> bool" where
  "has_prefix s p \<longleftrightarrow> take (length p) s = p"

definition has_suffix :: "string \<Rightarrow> string \<Rightarrow> bool" where
  "has_suffix s p \<longleftrightarrow> length p \<le> length s \<and> drop (length s - length p) s = p"

definition trim_prefix :: "string \<Rightarrow> string \<Rightarrow> string" where
  "trim_prefix s p = (if has_prefix s p then drop (length p) s else s)"

fun str_contains :: "string \<Rightarrow> string \<Rightarrow> bool" where
  "str_contains [] p \<longleftrightarrow> p = []"
| "str_contains (c # s) p \<longleftrightarrow> has_prefix (c # s) p \<or> str_contains s p"

lemma has_prefix_iff: "has_prefix s p \<longleftrightarrow> (\<exists>r. s = p @ r)"
  unfolding has_prefix_def by (metis append_eq_conv_conj append_take_drop_id)

lemma has_prefix_append [simp]: "has_prefix (p @ r) p"
  by (simp add: has_prefix_def)

lemma trim_prefix_append [simp]: "trim_prefix (p @ r) p = r"
  by (simp add: trim_prefix_def)

lemma has_suffix_iff: "has_suffix s p \<longleftrightarrow> (\<exists>r. s = r @ p)"
  unfolding has_suffix_def
  by (metis add_diff_cancel_right' append_eq_conv_conj append_take_drop_id le_add2 length_append)

lemma str_contains_iff: "str_contains s p \<longleftrightarrow> (\<exists>a b. s = a @ p @ b)"
proof (induction s)
  case Nil
  then show ?case by auto
next
  case (Cons c s)
  have "(\<exists>a b. c # s = a @ p @ b) \<longleftrightarrow> (\<exists>b. c # s = p @ b) \<or> (\<exists>a b. s = a @ p @ b)"
    by (metis Cons_eq_append_conv append_Cons append_Nil)
  with Cons.IH show ?case
    by (simp add: has_prefix_iff)
qed

text \<open>\<^verbatim>\<open>strings.Split(s, sep)\<close> for a one-byte separator, and \<^verbatim>\<open>strings.Join\<close>.\<close>

fun split_on :: "char \<Rightarrow> string \<Rightarrow> string list" where
  "split_on c [] = [[]]"
| "split_on c (x # xs) =
     (if x = c then [] # split_on c xs
      else (case split_on c xs of [] \<Rightarrow> [[x]] | w # ws \<Rightarrow> (x # w) # ws))"

fun join_with :: "string \<Rightarrow> string list \<Rightarrow> string" where
  "join_with sep [] = []"
| "join_with sep [x] = x"
| "join_with sep (x # y # ys) = x @ sep @ join_with sep (y # ys)"

lemma split_on_nonempty [simp]: "split_on c s \<noteq> []"
  by (induction s) (auto split: list.splits)

lemma join_split_on: "join_with [c] (split_on c s) = s"
proof (induction s)
  case Nil
  then show ?case by simp
next
  case (Cons x xs)
  obtain w ws where w: "split_on c xs = w # ws"
    by (meson neq_Nil_conv split_on_nonempty)
  with Cons.IH show ?case
    by (cases ws) auto
qed

lemma split_on_no_sep: "w \<in> set (split_on c s) \<Longrightarrow> c \<notin> set w"
proof (induction s arbitrary: w)
  case Nil
  then show ?case by simp
next
  case (Cons x xs)
  then show ?case
    by (auto split: list.splits if_splits)
qed

lemma split_on_single: "c \<notin> set s \<Longrightarrow> split_on c s = [s]"
  by (induction s) auto

lemma split_on_append: "c \<notin> set a \<Longrightarrow> split_on c (a @ c # s) = a # split_on c s"
  by (induction a) auto

lemma split_at_char: "c \<notin> set a \<Longrightarrow> c \<notin> set b \<Longrightarrow> a @ c # x = b @ c # y \<Longrightarrow> a = b \<and> x = y"
proof (induction a arbitrary: b)
  case Nil
  then show ?case by (cases b) auto
next
  case (Cons d a)
  then show ?case by (cases b) auto
qed

text \<open>\<^verbatim>\<open>strings.ToLower\<close> on ASCII bytes, as SQLite's \<^verbatim>\<open>LIKE\<close> folds case.\<close>

definition to_lower :: "char \<Rightarrow> char" where
  "to_lower c = (if is_upper c then char_of (of_char c + (32::nat)) else c)"

text \<open>\<^verbatim>\<open>encoding/hex\<close>: two lower-case digits for a byte.\<close>

definition hex_digit :: "nat \<Rightarrow> char" where
  "hex_digit n = char_of (if n < 10 then 48 + n else 87 + n)"

definition hex_encode :: "string \<Rightarrow> string" where
  "hex_encode s = concat (map (\<lambda>c. [hex_digit (of_char c div 16), hex_digit (of_char c mod 16)]) s)"

lemma hex_digit_inj: "m < 16 \<Longrightarrow> n < 16 \<Longrightarrow> hex_digit m = hex_digit n \<Longrightarrow> m = n"
proof -
  have "hex_digit k = (if k < 10 then char_of (48 + k) else char_of (87 + k))" for k by (simp add: hex_digit_def)
  moreover have "char_of a = char_of b \<Longrightarrow> a < 256 \<Longrightarrow> b < 256 \<Longrightarrow> a = b" for a b :: nat
    by (metis char_of_eq_iff mod_less of_char_of take_bit_nat_eq_self_iff of_char_mod_256)
  ultimately show "m < 16 \<Longrightarrow> n < 16 \<Longrightarrow> hex_digit m = hex_digit n \<Longrightarrow> m = n"
    by (auto split: if_splits)
qed

lemma hex_encode_inj: "hex_encode a = hex_encode b \<Longrightarrow> a = b"
proof (induction a arbitrary: b)
  case Nil
  then show ?case by (cases b) (auto simp: hex_encode_def)
next
  case (Cons c a)
  then obtain d b' where b: "b = d # b'" by (cases b) (auto simp: hex_encode_def)
  have l: "of_char c div 16 < (16::nat)" "of_char d div 16 < (16::nat)"
    using nat_of_char_less_256 by (simp_all add: less_mult_imp_div_less)
  from Cons.prems have "hex_digit (of_char c div 16) = hex_digit (of_char d div 16)"
    "hex_digit (of_char c mod 16) = hex_digit (of_char d mod 16)" "hex_encode a = hex_encode b'"
    by (simp_all add: b hex_encode_def)
  then have "of_char c div 16 = (of_char d div 16 :: nat)" "of_char c mod 16 = (of_char d mod 16 :: nat)" "a = b'"
    using l Cons.IH by (auto intro: hex_digit_inj)
  then have "(of_char c :: nat) = of_char d" by (metis div_mult_mod_eq)
  then show ?case using \<open>a = b'\<close> b by simp
qed

section \<open>Decimal numbers\<close>

definition digit_val :: "char \<Rightarrow> nat" where
  "digit_val c = of_char c - 48"

definition digits_val :: "string \<Rightarrow> nat" where
  "digits_val s = foldl (\<lambda>n c. 10 * n + digit_val c) 0 s"

text \<open>
  \<^verbatim>\<open>strconv.Atoi\<close> on a 64-bit machine returns a value and an error, and the callers here
  ignore the error in one place and test it in another.  On a syntax error the value is 0; on
  a range error it is the nearest 64-bit integer.  The flag is \<^term>\<open>True\<close> when the error
  is nil.
\<close>

definition max_int64 :: int where "max_int64 = 2 ^ 63 - 1"
definition min_int64 :: int where "min_int64 = - (2 ^ 63)"

definition atoi_digits :: "bool \<Rightarrow> string \<Rightarrow> int \<times> bool" where
  "atoi_digits neg ds =
     (if ds = [] \<or> \<not> list_all is_digit ds then (0, False)
      else let n = (if neg then - int (digits_val ds) else int (digits_val ds)) in
        if n > max_int64 then (max_int64, False)
        else if n < min_int64 then (min_int64, False)
        else (n, True))"

definition atoi :: "string \<Rightarrow> int \<times> bool" where
  "atoi s = (case s of
       [] \<Rightarrow> (0, False)
     | c # cs \<Rightarrow>
         if c = CHR ''-'' then atoi_digits True cs
         else if c = CHR ''+'' then atoi_digits False cs
         else atoi_digits False s)"

lemma atoi_range: "min_int64 \<le> fst (atoi s) \<and> fst (atoi s) \<le> max_int64"
  by (auto simp: atoi_def atoi_digits_def Let_def min_int64_def max_int64_def split: list.splits)

text \<open>\<^verbatim>\<open>strconv.Itoa\<close>.\<close>

fun nat_digits :: "nat \<Rightarrow> string" where
  "nat_digits n =
     (if n < 10 then [char_of (48 + n)] else nat_digits (n div 10) @ [char_of (48 + n mod 10)])"

declare nat_digits.simps [simp del]

definition itoa :: "int \<Rightarrow> string" where
  "itoa i = (if i < 0 then CHR ''-'' # nat_digits (nat (- i)) else nat_digits (nat i))"

lemma digit_char [simp]:
  "d < 10 \<Longrightarrow> digit_val (char_of (48 + d)) = d"
  "d < 10 \<Longrightarrow> is_digit (char_of (48 + d))"
  by (auto simp: digit_val_def is_digit_def less_eq_char_def)

lemma digits_val_append: "digits_val (a @ [c]) = 10 * digits_val a + digit_val c"
  by (simp add: digits_val_def)

lemma nat_digits_val [simp]: "digits_val (nat_digits n) = n"
proof (induction n rule: nat_digits.induct)
  case (1 n)
  show ?case
  proof (cases "n < 10")
    case True
    then show ?thesis by (simp add: nat_digits.simps[of n] digits_val_def)
  next
    case False
    with "1.IH" show ?thesis by (simp add: nat_digits.simps[of n] digits_val_append)
  qed
qed

lemma nat_digits_digit [simp]: "list_all is_digit (nat_digits n)"
proof (induction n rule: nat_digits.induct)
  case (1 n)
  show ?case
  proof (cases "n < 10")
    case True
    then show ?thesis by (simp add: nat_digits.simps[of n])
  next
    case False
    with "1.IH" show ?thesis by (simp add: nat_digits.simps[of n])
  qed
qed

lemma nat_digits_nonempty [simp]: "nat_digits n \<noteq> []"
  by (subst nat_digits.simps) simp

section \<open>Anchored regular expressions\<close>

text \<open>
  The identifier patterns of package \<^verbatim>\<open>config\<close> are concatenations of literals, character
  classes and bounded repetitions of a class.  \<^term>\<open>rx_rest r s\<close> lists what is left of
  \<^term>\<open>s\<close> after each way of matching a prefix of it; a pattern written between \<^verbatim>\<open>^\<close> and
  \<^verbatim>\<open>$\<close> matches when nothing is left.
\<close>

datatype rx =
    RLit string
  | RClass "char \<Rightarrow> bool"
  | RRep "char \<Rightarrow> bool" nat nat
  | RSeq rx rx

fun rep_rest :: "(char \<Rightarrow> bool) \<Rightarrow> nat \<Rightarrow> nat \<Rightarrow> string \<Rightarrow> string list" where
  "rep_rest p lo 0 s = (if lo = 0 then [s] else [])"
| "rep_rest p lo (Suc hi) s =
     (if lo = 0 then [s] else []) @
     (case s of [] \<Rightarrow> [] | c # cs \<Rightarrow> if p c then rep_rest p (lo - 1) hi cs else [])"

fun rx_rest :: "rx \<Rightarrow> string \<Rightarrow> string list" where
  "rx_rest (RLit w) s = (if has_prefix s w then [drop (length w) s] else [])"
| "rx_rest (RClass p) s = (case s of [] \<Rightarrow> [] | c # cs \<Rightarrow> if p c then [cs] else [])"
| "rx_rest (RRep p lo hi) s = rep_rest p lo hi s"
| "rx_rest (RSeq a b) s = concat (map (rx_rest b) (rx_rest a s))"

definition rx_match :: "rx \<Rightarrow> string \<Rightarrow> bool" where
  "rx_match r s \<longleftrightarrow> [] \<in> set (rx_rest r s)"

lemma rep_rest_iff:
  "r \<in> set (rep_rest p lo hi s) \<longleftrightarrow>
     (\<exists>w. s = w @ r \<and> list_all p w \<and> lo \<le> length w \<and> length w \<le> hi)"
proof (induction p lo hi s rule: rep_rest.induct)
  case (1 p lo s)
  then show ?case by auto
next
  case (2 p lo hi s)
  show ?case
  proof (cases s)
    case Nil
    then show ?thesis by auto
  next
    case (Cons c cs)
    have "(\<exists>w. s = w @ r \<and> list_all p w \<and> lo \<le> length w \<and> length w \<le> Suc hi) \<longleftrightarrow>
        (lo = 0 \<and> r = s) \<or>
        (p c \<and> (\<exists>w. cs = w @ r \<and> list_all p w \<and> lo - 1 \<le> length w \<and> length w \<le> hi))"
      (is "?L \<longleftrightarrow> ?R")
    proof
      assume ?L
      then obtain w where w: "s = w @ r" "list_all p w" "lo \<le> length w" "length w \<le> Suc hi"
        by blast
      show ?R
      proof (cases w)
        case Nil
        with w show ?thesis by simp
      next
        case (Cons x xs)
        with w \<open>s = c # cs\<close> show ?thesis by auto
      qed
    next
      assume ?R
      then show ?L
      proof
        assume "lo = 0 \<and> r = s"
        then show ?L by auto
      next
        assume h: "p c \<and> (\<exists>w. cs = w @ r \<and> list_all p w \<and> lo - 1 \<le> length w \<and> length w \<le> hi)"
        then obtain w where "cs = w @ r" "list_all p w" "lo - 1 \<le> length w" "length w \<le> hi"
          by blast
        with h Cons show ?L by (intro exI[of _ "c # w"]) auto
      qed
    qed
    with 2 Cons show ?thesis by auto
  qed
qed

lemma rep_all_iff: "[] \<in> set (rep_rest p 0 n s) \<longleftrightarrow> list_all p s \<and> length s \<le> n"
  by (simp add: rep_rest_iff)

lemma rx_match_class_rep:
  "rx_match (RSeq (RClass q) (RRep p 0 n)) s \<longleftrightarrow>
     (case s of [] \<Rightarrow> False | c # cs \<Rightarrow> q c \<and> length cs \<le> n \<and> list_all p cs)"
  by (cases s) (auto simp: rx_match_def rep_all_iff)

lemma rx_match_lit: "rx_match (RSeq (RLit w) r) s \<longleftrightarrow> (\<exists>v. s = w @ v \<and> rx_match r v)"
  by (auto simp: rx_match_def has_prefix_iff)

end
