(* ===== verification/GoTime.thy ===== *)
theory GoTime
  imports Prelude
begin

text \<open>
  The part of package \<^verbatim>\<open>time\<close> the program uses.  An instant is the number of nanoseconds
  since the Unix epoch, a duration a number of nanoseconds.  \<^verbatim>\<open>AddDate\<close> works on the civil
  date of the proleptic Gregorian calendar; the host's zone is taken to be UTC (with another
  zone the results differ by a clock change at most).  \<^verbatim>\<open>Format(time.RFC3339)\<close> and the
  ASN.1 times of certificates keep whole seconds; SQLite's \<^verbatim>\<open>strftime\<close> with \<^verbatim>\<open>%f\<close> keeps
  milliseconds.
\<close>

type_synonym instant = int
type_synonym duration = int

definition second :: duration where "second = 1000000000"
definition minute :: duration where "minute = 60 * second"
definition hour :: duration where "hour = 60 * minute"
definition day :: duration where "day = 24 * hour"

definition trunc_seconds :: "instant \<Rightarrow> instant" where
  "trunc_seconds t = t div second * second"

definition trunc_millis :: "instant \<Rightarrow> instant" where
  "trunc_millis t = t div 1000000 * 1000000"

section \<open>The calendar\<close>

definition leap_year :: "int \<Rightarrow> bool" where
  "leap_year y \<longleftrightarrow> y mod 4 = 0 \<and> (y mod 100 \<noteq> 0 \<or> y mod 400 = 0)"

text \<open>Days from the epoch to 1 January of a year; 719162 days lie before 1970.\<close>

definition year_start :: "int \<Rightarrow> int" where
  "year_start y = 365 * (y - 1) + (y - 1) div 4 - (y - 1) div 100 + (y - 1) div 400 - 719162"

definition month_start :: "int \<Rightarrow> nat \<Rightarrow> int" where
  "month_start y m =
     [0, 31, 59, 90, 120, 151, 181, 212, 243, 273, 304, 334] ! m
       + (if 2 \<le> m \<and> leap_year y then 1 else 0)"

definition year_of :: "int \<Rightarrow> int" where
  "year_of z =
     (let y = 400 * (z + 719162) div 146097 + 1
      in if year_start (y + 1) \<le> z then y + 1 else if z < year_start y then y - 1 else y)"

text \<open>The month, counted from 0: the last one that starts on or before the day of the year.\<close>

definition month_of :: "int \<Rightarrow> int \<Rightarrow> nat" where
  "month_of y yday = last (filter (\<lambda>m. month_start y m \<le> yday) [0..<12])"

text \<open>
  \<^verbatim>\<open>t.AddDate(years, 0, days)\<close>: the civil date is taken apart, the counts are added and
  \<^verbatim>\<open>time.Date\<close> normalises the result (a 29 February moved to a common year is 1 March).
\<close>

definition add_date :: "int \<Rightarrow> int \<Rightarrow> instant \<Rightarrow> instant" where
  "add_date years days t =
     (let z = t div day; y = year_of z; m = month_of y (z - year_start y);
          d = z - year_start y - month_start y m
      in (year_start (y + years) + month_start (y + years) m + d + days) * day + t mod day)"

section \<open>Facts about dates\<close>

lemma day_eq: "day = 86400000000000"
  by (simp add: day_def hour_def minute_def second_def)

lemma add_date_days: "add_date 0 n t = t + n * day"
proof -
  have "t div day * day + t mod day = t" by simp
  then show ?thesis by (simp add: add_date_def Let_def algebra_simps)
qed

lemma int_div_Suc:
  fixes x n :: int
  assumes "0 < n"
  shows "(x + 1) div n = x div n + (if (x + 1) mod n = 0 then 1 else 0)"
proof -
  obtain q r where x: "x = n * q + r" "0 \<le> r" "r < n"
    using assms by (metis mult_div_mod_eq pos_mod_bound pos_mod_sign)
  show ?thesis
  proof (cases "r = n - 1")
    case True
    then have "x + 1 = n * (q + 1)" using x by (simp add: algebra_simps)
    then show ?thesis using assms x by simp
  next
    case False
    then have r: "0 \<le> r + 1" "r + 1 < n" "x + 1 = (r + 1) + n * q" using x by simp_all
    have "(x + 1) div n = (r + 1) div n + q" "(x + 1) mod n = (r + 1) mod n"
      unfolding r(3) using assms by simp_all
    then have e: "(x + 1) div n = q" "(x + 1) mod n = r + 1"
      using r by (simp_all only: mod_pos_pos_trivial div_pos_pos_trivial add_0)
    have "x div n = r div n + q" unfolding x(1) using assms by simp
    then have "x div n = q" by (simp only: div_pos_pos_trivial[OF x(2,3)] add_0)
    moreover have "(x + 1) mod n \<noteq> 0" unfolding e(2) using \<open>0 \<le> r\<close> by simp
    ultimately show ?thesis by (simp only: e(1) if_False add_0_right)
  qed
qed

lemma leap_count:
  fixes x s :: int
  assumes "x = s + 365 + (if a then 1 else 0) - (if b then 1 else 0) + (if c then 1 else 0)"
    and "l \<longleftrightarrow> a \<and> (\<not> b \<or> c)" "c \<Longrightarrow> b" "b \<Longrightarrow> a"
  shows "x = s + 365 + (if l then 1 else 0)"
  unfolding assms(1) assms(2) using assms(3,4) by (cases a; cases b; cases c) simp_all

lemma year_start_Suc: "year_start (y + 1) = year_start y + 365 + (if leap_year y then 1 else 0)"
proof -
  have s: "y div n = (y - 1) div n + (if n dvd y then 1 else 0)" if "0 < n" for n :: int
    using int_div_Suc[OF that, of "y - 1"] by (simp only: diff_add_cancel dvd_eq_mod_eq_0)
  have d: "(400::int) dvd y \<Longrightarrow> 100 dvd y" "(100::int) dvd y \<Longrightarrow> 4 dvd y"
    using dvd_trans[of 100 400 y] dvd_trans[of 4 100 y] by simp_all
  have "year_start (y + 1) = year_start y + 365 + (if 4 dvd y then 1 else 0)
      - (if 100 dvd y then 1 else 0) + (if 400 dvd y then 1 else 0)"
    using s[of 4, OF zero_less_numeral] s[of 100, OF zero_less_numeral] s[of 400, OF zero_less_numeral] unfolding year_start_def add_diff_cancel_right'
    by (simp only:) (simp only: right_diff_distrib mult_1_right diff_add_eq add_diff_eq diff_diff_eq2; simp)
  moreover have "leap_year y \<longleftrightarrow> 4 dvd y \<and> (\<not> 100 dvd y \<or> 400 dvd y)"
    by (simp only: leap_year_def dvd_eq_mod_eq_0)
  ultimately show ?thesis using d by (rule leap_count)
qed

lemma year_start_add:
  "year_start y + 365 * int k \<le> year_start (y + int k) \<and> year_start (y + int k) \<le> year_start y + 366 * int k"
proof (induction k)
  case 0
  then show ?case by simp
next
  case (Suc k)
  have "y + int (Suc k) = (y + int k) + 1" by simp
  then have "year_start (y + int (Suc k)) =
      year_start (y + int k) + 365 + (if leap_year (y + int k) then 1 else 0)"
    by (simp only: year_start_Suc)
  then show ?case using Suc by (auto split: if_splits)
qed

text \<open>Adding years moves an instant by 365 to 366 days a year, give or take the leap day.\<close>

lemma add_date_years:
  "t + (365 * int k - 1) * day \<le> add_date (int k) 0 t"
  "add_date (int k) 0 t \<le> t + (366 * int k + 1) * day"
proof -
  define y where "y = year_of (t div day)"
  define m where "m = month_of y (t div day - year_start y)"
  let ?n = "year_start (y + int k) + month_start (y + int k) m
      + (t div day - year_start y - month_start y m)"
  have a: "add_date (int k) 0 t = ?n * day + t mod day"
    by (simp add: add_date_def Let_def y_def m_def)
  have b: "t = t div day * day + t mod day" by simp
  have "t div day + (365 * int k - 1) \<le> ?n" "?n \<le> t div day + (366 * int k + 1)"
    using year_start_add[of y k] by (auto simp: month_start_def)
  then have "(t div day + (365 * int k - 1)) * day \<le> ?n * day"
      "?n * day \<le> (t div day + (366 * int k + 1)) * day"
    by (simp_all add: mult_right_mono day_eq)
  then show "t + (365 * int k - 1) * day \<le> add_date (int k) 0 t"
      "add_date (int k) 0 t \<le> t + (366 * int k + 1) * day"
    unfolding a by (subst b, simp add: algebra_simps)+
qed

text \<open>The year found for a day is the one whose days contain it.\<close>

lemma div_bounds:
  fixes a n :: int
  assumes "0 < n"
  shows "n * (a div n) \<le> a" "a < n * (a div n) + n"
proof -
  have "n * (a div n) + a mod n = a" "0 \<le> a mod n" "a mod n < n" using assms by simp_all
  then show "n * (a div n) \<le> a" "a < n * (a div n) + n" by linarith+
qed

lemma year_start_approx:
  "400 * year_start y \<le> 146097 * (y - 1) + 396 - 287664800"
  "146097 * (y - 1) - 699 \<le> 400 * year_start y + 287664800"
  using div_bounds[of 4 "y - 1", OF zero_less_numeral] div_bounds[of 100 "y - 1", OF zero_less_numeral] div_bounds[of 400 "y - 1", OF zero_less_numeral]
  unfolding year_start_def by simp_all

lemma year_of_bounds: "year_start (year_of z) \<le> z \<and> z < year_start (year_of z + 1)"
proof -
  define w where "w = z + 719162"
  define q where "q = 400 * w div 146097"
  have q: "146097 * q \<le> 400 * w" "400 * w < 146097 * q + 146097" unfolding q_def using div_bounds[of 146097 "400 * w", OF zero_less_numeral] by linarith+
  have "year_start q \<le> z" using q year_start_approx(1)[of q] unfolding w_def by simp
  moreover have "z < year_start (3 + q)"
    using q year_start_approx(2)[of "3 + q"] unfolding w_def by simp
  ultimately show ?thesis
    by (auto simp: year_of_def Let_def q_def w_def split: if_splits)
qed

lemma trunc_seconds_bounds: "trunc_seconds t \<le> t" "t - second < trunc_seconds t"
  unfolding trunc_seconds_def second_def by linarith+

end
