(* ===== verification/Config.thy ===== *)
theory Config
  imports Prelude
begin

text \<open>
  Package \<^verbatim>\<open>internal/config\<close> (\<^verbatim>\<open>tenant.go\<close>, \<^verbatim>\<open>site.go\<close>) with the schema bound of
  \<^verbatim>\<open>internal/version\<close>: the tenant and site configurations, their validation and the values
  derived from them.  \<^verbatim>\<open>Retention\<close>, \<^verbatim>\<open>BrokerKind\<close> and the other named string types of the
  code are strings, since a value read from JSON or from the registry need not be one of the
  declared constants; the \<^verbatim>\<open>map[T]bool\<close> tables of valid values are membership tests.
\<close>

section \<open>Validation errors\<close>

datatype config_error =
    BadSchemaVersion int
  | BadTenantID string
  | NoDomain
  | BadRetention string
  | BadSlug string
  | BadSiteID string
  | BadSiteTenantID string
  | BadBrokerKind string
  | BadThroughput string
  | BadDirection string
  | BadCodec string
  | MosquittoMid
  | HighTier

definition max_schema_version :: int where
  "max_schema_version = 1"

section \<open>Identifiers\<close>

definition slug_char :: "char \<Rightarrow> bool" where
  "slug_char c \<longleftrightarrow> is_lower c \<or> is_digit c \<or> c = CHR ''-''"

definition slug_pattern :: rx where
  "slug_pattern = RSeq (RClass is_lower) (RRep slug_char 0 40)"

definition tenant_id_pattern :: rx where
  "tenant_id_pattern = RSeq (RLit ''tnt_'') (RSeq (RClass is_lower) (RRep slug_char 0 40))"

definition site_id_pattern :: rx where
  "site_id_pattern = RSeq (RLit ''ste_'') (RSeq (RClass is_lower) (RRep slug_char 0 40))"

definition validate_slug :: "string \<Rightarrow> config_error + unit" where
  "validate_slug slug = (if \<not> rx_match slug_pattern slug then Inl (BadSlug slug) else Inr ())"

definition tenant_id_from_slug :: "string \<Rightarrow> string" where
  "tenant_id_from_slug slug = ''tnt_'' @ slug"

definition site_id_from_slug :: "string \<Rightarrow> string" where
  "site_id_from_slug slug = ''ste_'' @ slug"

section \<open>Tenants\<close>

record tenant_resources =
  memory_limit :: string

record tenant_cfg =
  tc_schema_version :: int
  tc_id :: string
  tc_name :: string
  tc_domain :: string
  tc_retention :: string
  tc_resources :: tenant_resources

definition valid_retentions :: "string list" where
  "valid_retentions = [''1m'', ''1h'', ''1d'', ''7d'', ''30d'']"

definition tenant_validate :: "tenant_cfg \<Rightarrow> config_error + unit" where
  "tenant_validate t =
     (if tc_schema_version t < 1 \<or> tc_schema_version t > max_schema_version
      then Inl (BadSchemaVersion (tc_schema_version t))
      else if \<not> rx_match tenant_id_pattern (tc_id t) then Inl (BadTenantID (tc_id t))
      else if tc_domain t = '''' then Inl NoDomain
      else if tc_retention t \<notin> set valid_retentions then Inl (BadRetention (tc_retention t))
      else Inr ())"

definition compression_enabled :: "string \<Rightarrow> bool" where
  "compression_enabled retention \<longleftrightarrow> retention = ''7d'' \<or> retention = ''30d''"

definition chunk_time_interval :: "string \<Rightarrow> string" where
  "chunk_time_interval retention =
     (if retention = ''1m'' \<or> retention = ''1h'' then ''1 minute''
      else if retention = ''1d'' then ''15 minutes''
      else if retention = ''7d'' then ''1 hour''
      else if retention = ''30d'' then ''6 hours''
      else ''1 hour'')"

section \<open>Sites\<close>

definition valid_broker_kinds :: "string list" where
  "valid_broker_kinds = [''mosquitto'', ''emqx'']"

definition valid_tiers :: "string list" where
  "valid_tiers = [''low'', ''mid'', ''high'']"

definition valid_directions :: "string list" where
  "valid_directions = [''uni'', ''bi'']"

definition valid_codecs :: "string list" where
  "valid_codecs = [''cbor'', ''json'', ''raw_passthrough'']"

record broker_config =
  bc_kind :: string
  bc_san_aliases :: "string list"

record ingest_config =
  ic_direction :: string

record site_cfg =
  sc_schema_version :: int
  sc_id :: string
  sc_tenant_id :: string
  sc_broker :: broker_config
  sc_ingest :: ingest_config
  sc_throughput :: string
  sc_payload_codec :: string
  sc_leaf_ttl_days :: int

text \<open>
  \<^verbatim>\<open>Site.Validate\<close> takes a pointer: when every check passes it also fills in the default
  lifetime, so the model returns the site the caller is left with.
\<close>

definition site_validate :: "site_cfg \<Rightarrow> config_error + site_cfg" where
  "site_validate s =
     (if sc_schema_version s < 1 \<or> sc_schema_version s > max_schema_version
      then Inl (BadSchemaVersion (sc_schema_version s))
      else if \<not> rx_match site_id_pattern (sc_id s) then Inl (BadSiteID (sc_id s))
      else if \<not> rx_match tenant_id_pattern (sc_tenant_id s)
      then Inl (BadSiteTenantID (sc_tenant_id s))
      else if bc_kind (sc_broker s) \<notin> set valid_broker_kinds
      then Inl (BadBrokerKind (bc_kind (sc_broker s)))
      else if sc_throughput s \<notin> set valid_tiers then Inl (BadThroughput (sc_throughput s))
      else if ic_direction (sc_ingest s) \<notin> set valid_directions
      then Inl (BadDirection (ic_direction (sc_ingest s)))
      else if sc_payload_codec s \<notin> set valid_codecs then Inl (BadCodec (sc_payload_codec s))
      else if bc_kind (sc_broker s) = ''mosquitto'' \<and> sc_throughput s = ''mid''
      then Inl MosquittoMid
      else if sc_throughput s = ''high'' then Inl HighTier
      else Inr (if sc_leaf_ttl_days s = 0 then s\<lparr>sc_leaf_ttl_days := 365\<rparr> else s))"

definition ingest_replicas :: "site_cfg \<Rightarrow> int" where
  "ingest_replicas s =
     (if bc_kind (sc_broker s) = ''emqx'' \<and> sc_throughput s = ''mid'' then 2 else 1)"

definition batch_size :: "site_cfg \<Rightarrow> int" where
  "batch_size s = (if sc_throughput s = ''mid'' then 1000 else 200)"

definition flush_interval_ms :: "site_cfg \<Rightarrow> int" where
  "flush_interval_ms s = (if sc_throughput s = ''mid'' then 500 else 1000)"

definition use_shared_subscription :: "site_cfg \<Rightarrow> bool" where
  "use_shared_subscription s \<longleftrightarrow> bc_kind (sc_broker s) = ''emqx'' \<and> ingest_replicas s > 1"

definition mqtt_topic_filter :: "site_cfg \<Rightarrow> string" where
  "mqtt_topic_filter s =
     (let base = sc_tenant_id s @ ''/'' @ sc_id s @ ''/+/+''
      in if use_shared_subscription s then ''$share/'' @ sc_id s @ ''/'' @ base else base)"

section \<open>What the identifier patterns accept\<close>

text \<open>The language of the slug pattern: a lower-case letter and at most 40 slug characters.\<close>

definition slug_ok :: "string \<Rightarrow> bool" where
  "slug_ok s = (case s of [] \<Rightarrow> False | c # cs \<Rightarrow> is_lower c \<and> length cs \<le> 40 \<and> list_all slug_char cs)"

lemma slug_pattern_iff: "rx_match slug_pattern s \<longleftrightarrow> slug_ok s"
  unfolding slug_pattern_def slug_ok_def by (rule rx_match_class_rep)

lemma prefixed_pattern_iff:
  "rx_match (RSeq (RLit p) slug_pattern) s \<longleftrightarrow> (\<exists>w. s = p @ w \<and> slug_ok w)"
  by (simp only: rx_match_lit slug_pattern_iff)

lemma tenant_id_pattern_iff: "rx_match tenant_id_pattern s \<longleftrightarrow> (\<exists>w. s = tenant_id_from_slug w \<and> slug_ok w)"
  unfolding tenant_id_pattern_def tenant_id_from_slug_def slug_pattern_def [symmetric]
  by (rule prefixed_pattern_iff)

lemma site_id_pattern_iff: "rx_match site_id_pattern s \<longleftrightarrow> (\<exists>w. s = site_id_from_slug w \<and> slug_ok w)"
  unfolding site_id_pattern_def site_id_from_slug_def slug_pattern_def [symmetric]
  by (rule prefixed_pattern_iff)

lemma slug_char_not_underscore: "\<not> slug_char CHR ''_''"
  by (simp add: slug_char_def is_lower_def is_digit_def)

lemma slug_ok_no_underscore: "slug_ok w \<Longrightarrow> CHR ''_'' \<notin> set w"
  using slug_char_not_underscore
  by (auto simp: slug_ok_def list_all_iff slug_char_def split: list.splits)

lemma slug_ok_length: "slug_ok w \<Longrightarrow> 1 \<le> length w \<and> length w \<le> 41"
  by (auto simp: slug_ok_def split: list.splits)

end
