(* ===== verification/Capacity.thy ===== *)
theory Capacity
  imports Config
begin

text \<open>
  Package \<^verbatim>\<open>internal/capacity\<close> (\<^verbatim>\<open>profile.go\<close>): the static RSS table, the prediction that
  admission rests on, and the reader of \<^verbatim>\<open>/proc/meminfo\<close>.  Go's 64-bit \<^verbatim>\<open>int\<close> is
  \<^typ>\<open>int\<close> here: the sums stay below \<open>2\<^sup>6\<^sup>3\<close> unless a host has more than \<open>10\<^sup>1\<^sup>5\<close> sites.  The
  one floating-point step, the product with \<^verbatim>\<open>0.85\<close>, is modelled with its IEEE rounding.
\<close>

section \<open>The profile table\<close>

record profile_key =
  pk_broker_kind :: string
  pk_tier :: string
  pk_direction :: string

record profile =
  pf_broker_mb :: int
  pf_ingest_mb :: int

definition total_mb :: "profile \<Rightarrow> int" where
  "total_mb p = pf_broker_mb p + pf_ingest_mb p"

definition host_overhead_mb :: int where "host_overhead_mb = 530"
definition per_tenant_tsdb_mb :: int where "per_tenant_tsdb_mb = 350"

definition mk_key :: "string \<Rightarrow> string \<Rightarrow> string \<Rightarrow> profile_key" where
  "mk_key b t d = \<lparr>pk_broker_kind = b, pk_tier = t, pk_direction = d\<rparr>"

definition mk_profile :: "int \<Rightarrow> int \<Rightarrow> profile" where
  "mk_profile b i = \<lparr>pf_broker_mb = b, pf_ingest_mb = i\<rparr>"

definition profiles :: "(profile_key \<times> profile) list" where
  "profiles =
    [(mk_key ''mosquitto'' ''low'' ''uni'', mk_profile 20 60),
     (mk_key ''mosquitto'' ''low'' ''bi'', mk_profile 20 80),
     (mk_key ''emqx'' ''low'' ''uni'', mk_profile 400 60),
     (mk_key ''emqx'' ''low'' ''bi'', mk_profile 400 80),
     (mk_key ''emqx'' ''mid'' ''uni'', mk_profile 450 120),
     (mk_key ''emqx'' ''mid'' ''bi'', mk_profile 450 140)]"

datatype capacity_error =
    NoProfile string string string
  | PredictError string string capacity_error
  | MemInfoParse
  | MemTotalMissing

definition site_profile :: "string \<Rightarrow> string \<Rightarrow> string \<Rightarrow> capacity_error + profile" where
  "site_profile broker_kind tier direction =
     (case map_of profiles (mk_key broker_kind tier direction) of
        None \<Rightarrow> Inl (NoProfile broker_kind tier direction)
      | Some p \<Rightarrow> Inr p)"

definition all_profiles :: "profile_key \<Rightarrow> profile option" where
  "all_profiles = foldr (\<lambda>(k, v) out. out(k \<mapsto> v)) profiles Map.empty"

section \<open>The allowed share of memory\<close>

text \<open>
  \<^verbatim>\<open>int(float64(usableMB) * maxUsableFraction)\<close>.  The constant \<^verbatim>\<open>0.85\<close> is the double
  \<open>7656119366529843 / 2\<^sup>5\<^sup>3\<close>; the exact product is rounded to 53 significant bits, ties to the
  even mantissa, and the conversion to \<^verbatim>\<open>int\<close> truncates.  Numbers are scaled by \<open>2\<^sup>5\<^sup>3\<close>, so
  that the product is a natural number.
\<close>

definition fraction_mantissa :: nat where
  "fraction_mantissa = 7656119366529843"

fun excess_bits :: "nat \<Rightarrow> nat" where
  "excess_bits p = (if p < 2 ^ 53 then 0 else Suc (excess_bits (p div 2)))"

declare excess_bits.simps [simp del]

definition round53 :: "nat \<Rightarrow> nat" where
  "round53 p =
     (let s = excess_bits p; q = p div 2 ^ s; r = p mod 2 ^ s
      in if s = 0 then p
         else if 2 * r > 2 ^ s \<or> (2 * r = 2 ^ s \<and> odd q) then (q + 1) * 2 ^ s
         else q * 2 ^ s)"

definition max_allowed_mb :: "int \<Rightarrow> int" where
  "max_allowed_mb usable = int (round53 (nat usable * fraction_mantissa) div 2 ^ 53)"

section \<open>Prediction\<close>

record site_plan =
  sp_site_id :: string
  sp_broker_kind :: string
  sp_tier :: string
  sp_direction :: string

record tenant_plan =
  tp_tenant_id :: string
  tp_sites :: "site_plan list"

record site_breakdown =
  sb_site_id :: string
  sb_broker_mb :: int
  sb_ingest_mb :: int
  sb_total_mb :: int

record tenant_breakdown =
  tb_tenant_id :: string
  tb_tsdb_mb :: int
  tb_sites_mb :: int
  tb_total_mb :: int
  tb_site_breakdown :: "site_breakdown list"

record prediction =
  pr_total_usable_mb :: int
  pr_max_allowed_mb :: int
  pr_projected_mb :: int
  pr_admissible :: bool
  pr_headroom_mb :: int
  pr_breakdown :: "tenant_breakdown list"

text \<open>Go's integer division truncates towards zero.\<close>

definition quot :: "int \<Rightarrow> int \<Rightarrow> int" where
  "quot a b = sgn a * sgn b * (\<bar>a\<bar> div \<bar>b\<bar>)"

text \<open>The inner loop over a tenant's sites updates the breakdown and the running projection.\<close>

fun predict_sites ::
  "string \<Rightarrow> site_plan list \<Rightarrow> tenant_breakdown \<Rightarrow> int \<Rightarrow> capacity_error + (tenant_breakdown \<times> int)"
where
  "predict_sites tid [] tb projected = Inr (tb, projected)"
| "predict_sites tid (site # sites) tb projected =
     (case site_profile (sp_broker_kind site) (sp_tier site) (sp_direction site) of
        Inl e \<Rightarrow> Inl (PredictError tid (sp_site_id site) e)
      | Inr p \<Rightarrow>
          let sb = \<lparr>sb_site_id = sp_site_id site, sb_broker_mb = pf_broker_mb p,
                    sb_ingest_mb = pf_ingest_mb p, sb_total_mb = total_mb p\<rparr>
          in predict_sites tid sites
               (tb\<lparr>tb_sites_mb := tb_sites_mb tb + total_mb p,
                   tb_site_breakdown := tb_site_breakdown tb @ [sb]\<rparr>)
               (projected + total_mb p))"

fun predict_tenants ::
  "tenant_plan list \<Rightarrow> int \<Rightarrow> tenant_breakdown list \<Rightarrow> capacity_error + (tenant_breakdown list \<times> int)"
where
  "predict_tenants [] projected bd = Inr (bd, projected)"
| "predict_tenants (t # ts) projected bd =
     (let tb = \<lparr>tb_tenant_id = tp_tenant_id t, tb_tsdb_mb = per_tenant_tsdb_mb, tb_sites_mb = 0,
                tb_total_mb = 0, tb_site_breakdown = []\<rparr>
      in case predict_sites (tp_tenant_id t) (tp_sites t) tb (projected + per_tenant_tsdb_mb) of
           Inl e \<Rightarrow> Inl e
         | Inr (tb', projected') \<Rightarrow>
             predict_tenants ts projected'
               (bd @ [tb'\<lparr>tb_total_mb := tb_tsdb_mb tb' + tb_sites_mb tb'\<rparr>]))"

definition usable_mb :: "int \<Rightarrow> int" where
  "usable_mb mem_total_kb =
     (let u = quot mem_total_kb 1024 - host_overhead_mb in if u < 0 then 0 else u)"

definition predict :: "tenant_plan list \<Rightarrow> int \<Rightarrow> capacity_error + prediction" where
  "predict tenants mem_total_kb =
     (let usable = usable_mb mem_total_kb; max_allowed = max_allowed_mb usable
      in case predict_tenants tenants 0 [] of
           Inl e \<Rightarrow> Inl e
         | Inr (bd, projected) \<Rightarrow>
             Inr \<lparr>pr_total_usable_mb = usable, pr_max_allowed_mb = max_allowed,
                  pr_projected_mb = projected, pr_admissible = (projected \<le> max_allowed),
                  pr_headroom_mb = max_allowed - projected, pr_breakdown = bd\<rparr>)"

section \<open>The reader of MemTotal\<close>

definition is_space :: "char \<Rightarrow> bool" where
  "is_space c \<longleftrightarrow> c \<in> {CHR '' '', CHR 0x09, CHR 0x0B, CHR 0x0C, CHR 0x0D}"

text \<open>
  \<^verbatim>\<open>fmt.Sscanf(line, "MemTotal: %d kB", &kb)\<close> on one line: the literal, at least one space, a
  signed decimal number that fits 64 bits, then (unless the input ends) at least one space and
  the literal \<^verbatim>\<open>kB\<close>.
\<close>

definition sscanf_mem_total :: "string \<Rightarrow> int option" where
  "sscanf_mem_total line =
     (let rest = trim_prefix line ''MemTotal:''
      in if \<not> has_prefix line ''MemTotal:'' \<or> rest = [] \<or> \<not> is_space (hd rest) then None
         else let body = dropWhile is_space rest;
                  neg = (body \<noteq> [] \<and> hd body = CHR ''-'');
                  signed = (body \<noteq> [] \<and> (hd body = CHR ''-'' \<or> hd body = CHR ''+''));
                  num = (if signed then tl body else body);
                  ds = takeWhile is_digit num;
                  after = dropWhile is_digit num
              in case atoi_digits neg ds of (n, ok) \<Rightarrow>
                 if \<not> ok then None
                 else if after = [] then Some n
                 else if is_space (hd after) \<and> has_prefix (dropWhile is_space after) ''kB'' then Some n
                 else None)"

fun scan_mem_lines :: "string list \<Rightarrow> capacity_error + int" where
  "scan_mem_lines [] = Inl MemTotalMissing"
| "scan_mem_lines (line # rest) =
     (if has_prefix line ''MemTotal:'' then
        (case sscanf_mem_total line of None \<Rightarrow> Inl MemInfoParse | Some kb \<Rightarrow> Inr kb)
      else scan_mem_lines rest)"

text \<open>The argument is the content of the file, \<^term>\<open>None\<close> when it cannot be opened.\<close>

definition read_mem_total_kb :: "string option \<Rightarrow> capacity_error + int" where
  "read_mem_total_kb meminfo =
     (case meminfo of
        None \<Rightarrow> Inr (4 * 1024 * 1024)
      | Some content \<Rightarrow> scan_mem_lines (split_on (CHR 0x0A) content))"

section \<open>The rounded product\<close>

lemma excess_bits_bounds:
  "p < 2 ^ (53 + excess_bits p) \<and> (0 < excess_bits p \<longrightarrow> 2 ^ (52 + excess_bits p) \<le> p)"
proof (induction p rule: excess_bits.induct)
  case (1 p)
  show ?case
  proof (cases "p < 2 ^ 53")
    case True
    then show ?thesis by (simp add: excess_bits.simps[of p])
  next
    case False
    let ?h = "excess_bits (p div 2)"
    have e: "excess_bits p = Suc ?h" using False by (simp add: excess_bits.simps[of p])
    have up: "p div 2 < 2 ^ (53 + ?h)" using "1.IH" False by blast
    have lo: "2 ^ (52 + ?h) \<le> p div 2"
    proof (cases "?h = 0")
      case True
      with False show ?thesis by simp
    next
      case nz: False
      then show ?thesis using "1.IH" False by blast
    qed
    have "p < 2 * 2 ^ (53 + ?h)" using up by linarith
    moreover have "2 * 2 ^ (52 + ?h) \<le> p" using lo by linarith
    ultimately show ?thesis by (simp add: e power_add)
  qed
qed

lemma nearest_error:
  fixes p m r d :: nat
  assumes "p = m + r" "r < d" "up \<Longrightarrow> d \<le> 2 * r" "\<not> up \<Longrightarrow> 2 * r \<le> d"
  shows "2 * (m + (if up then d else 0)) \<le> 2 * p + d \<and> 2 * p \<le> 2 * (m + (if up then d else 0)) + d"
  using assms by (cases up) auto

lemma round53_error:
  assumes s: "0 < excess_bits p"
  shows "2 * round53 p \<le> 2 * p + 2 ^ excess_bits p" "2 * p \<le> 2 * round53 p + 2 ^ excess_bits p"
proof -
  let ?d = "2 ^ excess_bits p :: nat"
  let ?m = "(p div ?d) * ?d" and ?r = "p mod ?d"
  let ?up = "2 * ?r > ?d \<or> (2 * ?r = ?d \<and> odd (p div ?d))"
  have p: "p = ?m + ?r" by (simp only: div_mult_mod_eq)
  have r: "?r < ?d" by simp
  have R: "round53 p = ?m + (if ?up then ?d else 0)"
    using s by (simp add: round53_def Let_def)
  show "2 * round53 p \<le> 2 * p + ?d" "2 * p \<le> 2 * round53 p + ?d"
    unfolding R using nearest_error[OF p r, of ?up] by auto
qed

lemma div_rest: "r < d \<Longrightarrow> (m * d + r) div d = (m::nat)"
  and mod_rest: "r < d \<Longrightarrow> (m * d + r) mod d = (r::nat)"
  by simp_all

lemma round53_nearest:
  assumes s: "0 < excess_bits p" and k: "k * 2 ^ excess_bits p = p + e"
    and e: "0 < e" "2 * e < 2 ^ excess_bits p"
  shows "round53 p = k * 2 ^ excess_bits p"
proof -
  let ?d = "2 ^ excess_bits p :: nat"
  have lt: "e < ?d" using e by linarith
  have kpos: "0 < k" using k e by (cases k) auto
  have p: "p = (k - 1) * ?d + (?d - e)"
  proof -
    have "k * ?d = (k - 1) * ?d + ?d" using kpos by (cases k) auto
    then show ?thesis using k lt by linarith
  qed
  have small: "?d - e < ?d" using e by simp
  have q: "p div ?d = k - 1" by (subst p, rule div_rest) (rule small)
  have r: "p mod ?d = ?d - e" by (subst p, rule mod_rest) (rule small)
  have "2 * (?d - e) > ?d" using e by linarith
  then show ?thesis
    using s kpos by (simp add: round53_def Let_def q r)
qed

lemma fraction_scaled: "20 * (u * fraction_mantissa) + 4 * u = 17 * 2 ^ 53 * u"
  by (simp add: fraction_mantissa_def)

lemma round53_upper:
  assumes "0 < excess_bits p" "20 * p \<le> 2 ^ 53 * (20 * n + 19)" "n < 2 ^ 48"
  shows "round53 p < 2 ^ 53 * (n + 1)"
proof -
  have "2 ^ 52 * 2 ^ excess_bits p \<le> p"
    using excess_bits_bounds[of p] assms(1) by (simp add: power_add)
  with round53_error(1)[OF assms(1)] assms(2,3) show ?thesis by simp
qed

lemma round53_lower:
  assumes "0 < excess_bits p" "2 ^ 53 * (20 * n + 1) \<le> 20 * p + 4 * u" "n < 2 ^ 48" "u < 2 ^ 48"
  shows "2 ^ 53 * n \<le> round53 p"
proof -
  have "2 ^ 52 * 2 ^ excess_bits p \<le> p"
    using excess_bits_bounds[of p] assms(1) by (simp add: power_add)
  moreover have "p < 2 ^ 53 * 2 ^ excess_bits p"
    using excess_bits_bounds[of p] by (simp add: power_add)
  ultimately show ?thesis using round53_error(2)[OF assms(1)] assms(2-4) by simp
qed

lemma round53_exact:
  assumes s: "0 < excess_bits p" and eq: "5 * p + u = 5 * (n * 2 ^ 53)"
    and u: "0 < u" "17 * u = 20 * n" "u < 2 ^ 48"
  shows "round53 p = n * 2 ^ 53"
proof -
  let ?s = "excess_bits p"
  have lo: "2 ^ 52 * 2 ^ ?s \<le> p" and up: "p < 2 ^ 53 * 2 ^ ?s"
    using excess_bits_bounds[of p] s by (simp_all add: power_add)
  have "(2::nat) ^ 52 * 2 ^ ?s < 2 ^ 52 * 2 ^ 53" using lo eq u by simp
  then have "(2::nat) ^ ?s < 2 ^ 53" by simp
  then have le: "?s \<le> 53" using power_less_imp_less_exp[of "2::nat" ?s 53] by simp
  obtain e where e: "u = 5 * e" "p + e = n * 2 ^ 53"
  proof
    show "u = 5 * (n * 2 ^ 53 - p)" "p + (n * 2 ^ 53 - p) = n * 2 ^ 53" using eq by linarith+
  qed
  have k: "n * 2 ^ (53 - ?s) * 2 ^ ?s = p + e"
    using e le by (simp add: mult.assoc flip: power_add)
  have "2 * e < 2 ^ ?s" using up e u by simp
  moreover have "0 < e" using e u by simp
  ultimately show ?thesis using round53_nearest[OF s k] k e by simp
qed

lemma scaled_bounds:
  fixes p u n t :: nat
  assumes "20 * p + 4 * u = 2 ^ 53 * (20 * n + t)"
  shows "t < 20 \<Longrightarrow> 20 * p \<le> 2 ^ 53 * (20 * n + 19)"
    and "0 < t \<Longrightarrow> 2 ^ 53 * (20 * n + 1) \<le> 20 * p + 4 * u"
    and "t = 0 \<Longrightarrow> 5 * p + u = 5 * (n * 2 ^ 53)"
  using assms by simp_all

lemma round53_fraction:
  assumes u: "u < 2 ^ 48"
  shows "round53 (u * fraction_mantissa) div 2 ^ 53 = 85 * u div 100"
proof -
  let ?p = "u * fraction_mantissa" and ?n = "85 * u div 100"
  have n: "17 * u = 20 * ?n + (17 * u) mod 20" "?n < 2 ^ 48"
  proof -
    have "85 * u div 100 = 17 * u div 20" using div_mult_mult1[of 5 "17 * u" 20] by simp
    then show "17 * u = 20 * ?n + (17 * u) mod 20" by simp
    then show "?n < 2 ^ 48" using u by linarith
  qed
  have sc: "20 * ?p + 4 * u = 2 ^ 53 * (20 * ?n + (17 * u) mod 20)"
    using fraction_scaled[of u] n(1) by simp
  have t: "(17 * u) mod 20 < 20" by simp
  show ?thesis
  proof (cases "excess_bits ?p = 0")
    case True
    then have "?p < 2 ^ 53" using excess_bits_bounds[of ?p] by simp
    then have "u \<le> 1" by (simp add: fraction_mantissa_def)
    then show ?thesis
      using True by (auto simp: le_Suc_eq round53_def fraction_mantissa_def)
  next
    case False
    then have s: "0 < excess_bits ?p" by simp
    have "round53 ?p < 2 ^ 53 * (?n + 1)"
      by (rule round53_upper[OF s scaled_bounds(1)[OF sc t] n(2)])
    moreover have "2 ^ 53 * ?n \<le> round53 ?p"
    proof (cases "(17 * u) mod 20 = 0")
      case True
      have "0 < u" using s by (cases u) (auto simp: excess_bits.simps)
      moreover have "17 * u = 20 * ?n" using True n by linarith
      ultimately show ?thesis
        using round53_exact[OF s scaled_bounds(3)[OF sc True]] u by simp
    next
      case False
      then show ?thesis
        by (intro round53_lower[OF s scaled_bounds(2)[OF sc] n(2) u]) simp
    qed
    ultimately show ?thesis
      by (intro div_nat_eqI) (simp_all add: mult.commute)
  qed
qed

lemma max_allowed_mb_eq:
  assumes "0 \<le> u" "u < 2 ^ 48"
  shows "max_allowed_mb u = 85 * u div 100"
proof -
  have "nat u < 2 ^ 48" using assms by (simp add: nat_less_iff)
  then have "max_allowed_mb u = int (85 * nat u div 100)"
    unfolding max_allowed_mb_def by (simp only: round53_fraction)
  also have "\<dots> = 85 * u div 100" using assms by (simp add: zdiv_int)
  finally show ?thesis .
qed

section \<open>What a prediction says\<close>

text \<open>The reference: the sum over the plan of the fixed tenant cost and the sites' profiles.\<close>

definition site_plan_mb :: "site_plan \<Rightarrow> int option" where
  "site_plan_mb s =
     map_option total_mb (map_of profiles (mk_key (sp_broker_kind s) (sp_tier s) (sp_direction s)))"

definition plan_known :: "tenant_plan list \<Rightarrow> bool" where
  "plan_known ts \<longleftrightarrow> (\<forall>t \<in> set ts. \<forall>s \<in> set (tp_sites t). site_plan_mb s \<noteq> None)"

definition sites_mb :: "site_plan list \<Rightarrow> int" where
  "sites_mb ss = (\<Sum>s\<leftarrow>ss. the (site_plan_mb s))"

definition plan_mb :: "tenant_plan list \<Rightarrow> int" where
  "plan_mb ts = (\<Sum>t\<leftarrow>ts. per_tenant_tsdb_mb + sites_mb (tp_sites t))"

lemma site_profile_plan:
  "site_profile (sp_broker_kind s) (sp_tier s) (sp_direction s) = Inr p \<Longrightarrow> site_plan_mb s = Some (total_mb p)"
  "site_profile (sp_broker_kind s) (sp_tier s) (sp_direction s) = Inl e \<Longrightarrow> site_plan_mb s = None"
  by (auto simp: site_profile_def site_plan_mb_def split: option.splits)

lemma predict_sites_ok:
  assumes "\<forall>s \<in> set ss. site_plan_mb s \<noteq> None"
  shows "\<exists>tb'. predict_sites tid ss tb pj = Inr (tb', pj + sites_mb ss) \<and>
      tb_sites_mb tb' = tb_sites_mb tb + sites_mb ss \<and> tb_tsdb_mb tb' = tb_tsdb_mb tb \<and>
      tb_tenant_id tb' = tb_tenant_id tb \<and>
      map sb_site_id (tb_site_breakdown tb') = map sb_site_id (tb_site_breakdown tb) @ map sp_site_id ss"
  using assms
proof (induction ss arbitrary: tb pj)
  case Nil
  then show ?case by (simp add: sites_mb_def)
next
  case (Cons s ss)
  then obtain p where p: "site_profile (sp_broker_kind s) (sp_tier s) (sp_direction s) = Inr p"
    by (cases "site_profile (sp_broker_kind s) (sp_tier s) (sp_direction s)")
      (auto dest: site_profile_plan(2))
  let ?sb = "\<lparr>sb_site_id = sp_site_id s, sb_broker_mb = pf_broker_mb p,
              sb_ingest_mb = pf_ingest_mb p, sb_total_mb = total_mb p\<rparr>"
  let ?tb = "tb\<lparr>tb_sites_mb := tb_sites_mb tb + total_mb p,
                tb_site_breakdown := tb_site_breakdown tb @ [?sb]\<rparr>"
  from Cons.IH[of ?tb "pj + total_mb p"] Cons.prems show ?case
    by (auto simp: p sites_mb_def site_profile_plan(1)[OF p] Let_def add.assoc)
qed

lemma predict_sites_error:
  assumes "s \<in> set ss" "site_plan_mb s = None"
  shows "\<exists>e. predict_sites tid ss tb pj = Inl e"
  using assms
  by (induction ss arbitrary: tb pj) (auto simp: Let_def dest: site_profile_plan(1) split: sum.splits)

lemma predict_tenants_ok:
  assumes "plan_known ts"
  shows "\<exists>bd'. predict_tenants ts pj bd = Inr (bd @ bd', pj + plan_mb ts) \<and>
      map tb_tenant_id bd' = map tp_tenant_id ts \<and>
      map tb_total_mb bd' = map (\<lambda>t. per_tenant_tsdb_mb + sites_mb (tp_sites t)) ts"
  using assms
proof (induction ts arbitrary: pj bd)
  case Nil
  then show ?case by (simp add: plan_mb_def)
next
  case (Cons t ts)
  let ?tb = "\<lparr>tb_tenant_id = tp_tenant_id t, tb_tsdb_mb = per_tenant_tsdb_mb, tb_sites_mb = 0,
      tb_total_mb = 0, tb_site_breakdown = []\<rparr>"
  have "\<forall>s \<in> set (tp_sites t). site_plan_mb s \<noteq> None"
    using Cons.prems by (auto simp: plan_known_def)
  from predict_sites_ok[OF this, of "tp_tenant_id t" ?tb "pj + per_tenant_tsdb_mb"]
  obtain tb where tb: "predict_sites (tp_tenant_id t) (tp_sites t) ?tb (pj + per_tenant_tsdb_mb)
        = Inr (tb, pj + per_tenant_tsdb_mb + sites_mb (tp_sites t))"
      "tb_sites_mb tb = sites_mb (tp_sites t)" "tb_tsdb_mb tb = per_tenant_tsdb_mb"
      "tb_tenant_id tb = tp_tenant_id t"
    by auto
  have "plan_known ts" using Cons.prems by (simp add: plan_known_def)
  from Cons.IH[OF this, of "pj + per_tenant_tsdb_mb + sites_mb (tp_sites t)"
      "bd @ [tb\<lparr>tb_total_mb := per_tenant_tsdb_mb + sites_mb (tp_sites t)\<rparr>]"] tb
  show ?case by (auto simp: plan_mb_def Let_def add.assoc)
qed

lemma predict_tenants_error:
  "\<not> plan_known ts \<Longrightarrow> \<exists>e. predict_tenants ts pj bd = Inl e"
proof (induction ts arbitrary: pj bd)
  case Nil
  then show ?case by (simp add: plan_known_def)
next
  case (Cons t ts)
  show ?case
  proof (cases "\<exists>s \<in> set (tp_sites t). site_plan_mb s = None")
    case True
    then obtain s where "s \<in> set (tp_sites t)" "site_plan_mb s = None" by blast
    then obtain e where "predict_sites (tp_tenant_id t) (tp_sites t)
        \<lparr>tb_tenant_id = tp_tenant_id t, tb_tsdb_mb = per_tenant_tsdb_mb, tb_sites_mb = 0,
          tb_total_mb = 0, tb_site_breakdown = []\<rparr> (pj + per_tenant_tsdb_mb) = Inl e"
      using predict_sites_error by blast
    then show ?thesis by (simp add: Let_def)
  next
    case False
    then have "\<not> plan_known ts" using Cons.prems by (auto simp: plan_known_def)
    with Cons.IH show ?thesis by (auto simp: Let_def split: sum.splits)
  qed
qed

lemma predict_error_iff: "(\<exists>e. predict ts kb = Inl e) \<longleftrightarrow> \<not> plan_known ts"
proof
  assume "\<exists>e. predict ts kb = Inl e"
  then show "\<not> plan_known ts"
    using predict_tenants_ok[of ts 0 "[]"] by (auto simp: predict_def Let_def)
next
  assume "\<not> plan_known ts"
  then show "\<exists>e. predict ts kb = Inl e"
    using predict_tenants_error[of ts 0 "[]"] by (auto simp: predict_def Let_def)
qed

lemma predict_plan:
  assumes "predict ts kb = Inr p"
  shows "plan_known ts" "pr_projected_mb p = plan_mb ts"
    "pr_max_allowed_mb p = max_allowed_mb (usable_mb kb)"
    "pr_admissible p \<longleftrightarrow> plan_mb ts \<le> max_allowed_mb (usable_mb kb)"
    "pr_headroom_mb p = max_allowed_mb (usable_mb kb) - plan_mb ts"
    "map tb_tenant_id (pr_breakdown p) = map tp_tenant_id ts"
    "sum_list (map tb_total_mb (pr_breakdown p)) = plan_mb ts"
proof -
  show k: "plan_known ts" using assms predict_error_iff[of ts kb] by auto
  from predict_tenants_ok[OF k, of 0 "[]"] assms
  show "pr_projected_mb p = plan_mb ts"
    "pr_max_allowed_mb p = max_allowed_mb (usable_mb kb)"
    "pr_admissible p \<longleftrightarrow> plan_mb ts \<le> max_allowed_mb (usable_mb kb)"
    "pr_headroom_mb p = max_allowed_mb (usable_mb kb) - plan_mb ts"
    "map tb_tenant_id (pr_breakdown p) = map tp_tenant_id ts"
    "sum_list (map tb_total_mb (pr_breakdown p)) = plan_mb ts"
    by (auto simp: predict_def Let_def plan_mb_def)
qed

lemma usable_mb_range:
  assumes "kb < 2 ^ 58"
  shows "0 \<le> usable_mb kb" "usable_mb kb < 2 ^ 48"
proof -
  show "0 \<le> usable_mb kb" by (simp add: usable_mb_def Let_def)
  have "quot kb 1024 \<le> 2 ^ 48 - 1"
    using assms by (cases "kb < 0") (auto simp: quot_def sgn_if)
  then show "usable_mb kb < 2 ^ 48" by (simp add: usable_mb_def Let_def host_overhead_mb_def)
qed

text \<open>The table has a row exactly for the combinations the capability matrix of the configuration allows.\<close>

lemma site_profile_known_iff:
  "(\<exists>p. site_profile b t d = Inr p) \<longleftrightarrow>
     (b = ''mosquitto'' \<and> t = ''low'' \<or> b = ''emqx'' \<and> t \<in> {''low'', ''mid''}) \<and> d \<in> {''uni'', ''bi''}"
  by (auto simp: site_profile_def profiles_def mk_key_def)

section \<open>Properties\<close>

text \<open>
  C1. A prediction is the reference sum: when \<^verbatim>\<open>Predict\<close> succeeds on a host below \<open>2\<^sup>5\<^sup>8\<close> kB,
  the projection is 350 MB per tenant plus the profile of every site of the plan, the allowance
  is exactly 85 % of the usable memory rounded down (the floating-point product loses
  nothing), the plan is admissible exactly when the projection does not exceed the
  allowance, the headroom is their difference and the per-tenant breakdown adds up to the
  projection in the order of the plan.
\<close>

theorem predict_correct:
  assumes "predict ts kb = Inr p" and "kb < 2 ^ 58"
  shows "pr_projected_mb p = plan_mb ts
    \<and> pr_max_allowed_mb p = 85 * usable_mb kb div 100
    \<and> (pr_admissible p \<longleftrightarrow> 100 * plan_mb ts \<le> 85 * usable_mb kb)
    \<and> pr_headroom_mb p = 85 * usable_mb kb div 100 - plan_mb ts
    \<and> map tb_tenant_id (pr_breakdown p) = map tp_tenant_id ts
    \<and> sum_list (map tb_total_mb (pr_breakdown p)) = pr_projected_mb p"
proof -
  have m: "max_allowed_mb (usable_mb kb) = 85 * usable_mb kb div 100"
    using assms(2) by (intro max_allowed_mb_eq usable_mb_range)
  have "plan_mb ts \<le> 85 * usable_mb kb div 100 \<longleftrightarrow> 100 * plan_mb ts \<le> 85 * usable_mb kb"
    by linarith
  then show ?thesis using predict_plan[OF assms(1)] by (simp add: m)
qed

definition example_plan :: "tenant_plan list" where
  "example_plan =
     [\<lparr>tp_tenant_id = ''tnt_a'', tp_sites =
         [\<lparr>sp_site_id = ''ste_x'', sp_broker_kind = ''emqx'', sp_tier = ''mid'', sp_direction = ''bi''\<rparr>]\<rparr>,
      \<lparr>tp_tenant_id = ''tnt_b'', tp_sites = []\<rparr>]"

lemma example_plan_known: "plan_known example_plan" "plan_mb example_plan = 1290"
  by (simp_all add: example_plan_def plan_known_def plan_mb_def sites_mb_def site_plan_mb_def
      profiles_def mk_key_def mk_profile_def total_mb_def per_tenant_tsdb_mb_def)

theorem predict_correct_witness:
  "\<exists>p. predict example_plan 4194304 = Inr p \<and> pr_projected_mb p = 1290
     \<and> pr_max_allowed_mb p = 3031 \<and> pr_admissible p"
proof -
  obtain p where p: "predict example_plan 4194304 = Inr p"
    using predict_error_iff[of example_plan 4194304] example_plan_known(1)
    by (cases "predict example_plan 4194304") auto
  have "usable_mb 4194304 = 3566"
    by (simp add: usable_mb_def quot_def host_overhead_mb_def)
  then show ?thesis
    using p predict_correct[OF p] by (simp add: example_plan_known(2))
qed

text \<open>
  \<^verbatim>\<open>Predict\<close> fails exactly when some site of the plan has no row in the profile table; one
  unknown combination anywhere in the plan is enough, whatever the host.
\<close>

lemma predict_fails_iff_unknown_combination:
  "(\<exists>e. predict ts kb = Inl e) \<longleftrightarrow>
     (\<exists>t \<in> set ts. \<exists>s \<in> set (tp_sites t).
        \<forall>p. site_profile (sp_broker_kind s) (sp_tier s) (sp_direction s) \<noteq> Inr p)"
proof -
  have "site_plan_mb s = None \<longleftrightarrow>
      (\<forall>p. site_profile (sp_broker_kind s) (sp_tier s) (sp_direction s) \<noteq> Inr p)" for s
    by (auto simp: site_plan_mb_def site_profile_def split: option.splits)
  then show ?thesis by (simp add: predict_error_iff plan_known_def)
qed

text \<open>
  The two copies of the capability matrix agree: every site configuration that passes
  \<^verbatim>\<open>Site.Validate\<close> has a capacity profile, and two ingest replicas are used exactly for the
  mid tier, where the profile of the ingest containers is at least twice the single one.
\<close>

lemma validated_site_has_profile:
  assumes "site_validate s = Inr s'"
  shows "\<exists>p. site_profile (bc_kind (sc_broker s)) (sc_throughput s) (ic_direction (sc_ingest s)) = Inr p
      \<and> (ingest_replicas s = 2 \<longleftrightarrow> sc_throughput s = ''mid'')
      \<and> (use_shared_subscription s \<longleftrightarrow> ingest_replicas s = 2)
      \<and> 60 * ingest_replicas s \<le> pf_ingest_mb p"
proof -
  have "(bc_kind (sc_broker s) = ''mosquitto'' \<and> sc_throughput s = ''low'' \<or>
       bc_kind (sc_broker s) = ''emqx'' \<and> sc_throughput s \<in> {''low'', ''mid''}) \<and>
       ic_direction (sc_ingest s) \<in> {''uni'', ''bi''}"
    using assms
    by (auto simp: site_validate_def valid_tiers_def valid_broker_kinds_def valid_directions_def
        split: if_splits)
  then show ?thesis
    by (auto simp: site_profile_def profiles_def mk_key_def mk_profile_def ingest_replicas_def
        use_shared_subscription_def)
qed

definition example_site :: site_cfg where
  "example_site =
     \<lparr>sc_schema_version = 1, sc_id = ''ste_x'', sc_tenant_id = ''tnt_a'',
      sc_broker = \<lparr>bc_kind = ''emqx'', bc_san_aliases = []\<rparr>, sc_ingest = \<lparr>ic_direction = ''bi''\<rparr>,
      sc_throughput = ''mid'', sc_payload_codec = ''cbor'', sc_leaf_ttl_days = 0\<rparr>"

lemma validated_site_has_profile_witness:
  "site_validate example_site = Inr (example_site\<lparr>sc_leaf_ttl_days := 365\<rparr>)
   \<and> (\<exists>p. site_profile ''emqx'' ''mid'' ''bi'' = Inr p \<and> 120 \<le> pf_ingest_mb p)"
proof -
  have v: "site_validate example_site = Inr (example_site\<lparr>sc_leaf_ttl_days := 365\<rparr>)"
    by (simp add: site_validate_def example_site_def max_schema_version_def site_id_pattern_iff
        tenant_id_pattern_iff valid_tiers_def valid_broker_kinds_def valid_directions_def
        valid_codecs_def site_id_from_slug_def tenant_id_from_slug_def slug_ok_def is_lower_def)
  show ?thesis
    using validated_site_has_profile[OF v] v by (auto simp: example_site_def ingest_replicas_def)
qed

end
