(* ===== verification/Crypto.thy ===== *)
theory Crypto
  imports GoTime
begin

text \<open>
  A symbolic account of the parts of \<^verbatim>\<open>crypto/x509\<close>, \<^verbatim>\<open>encoding/pem\<close>, \<^verbatim>\<open>crypto/rsa\<close> and
  \<^verbatim>\<open>crypto/aes\<close> that the PKI package calls.  An RSA key pair is a number, a certificate the
  record of its fields together with the key that signed it, and a sealed box remembers the key
  and nonce it was sealed under.  Signatures and GCM tags therefore verify exactly when the
  right key was used, which is what the code relies on.  A file holds a PEM block of one of
  these kinds or plain bytes, so \<^verbatim>\<open>pem.Decode\<close> followed by \<^verbatim>\<open>x509.ParseCertificate\<close> is a
  case distinction.
\<close>

datatype ext_key_usage = ServerAuth | ClientAuth

datatype key_usage = CertSign | CRLSign | DigitalSignature | KeyEncipherment

type_synonym rsa_key = nat

record cert =
  x_serial :: string
  x_subject :: string
  x_issuer :: string
  x_not_before :: instant
  x_not_after :: instant
  x_is_ca :: bool
  x_key_usage :: "key_usage list"
  x_ext_key_usage :: "ext_key_usage list"
  x_dns_names :: "string list"
  x_public_key :: rsa_key
  x_signed_by :: rsa_key

datatype blob = RawBytes string | PemCert cert | PemKey rsa_key

datatype crypto_error =
    RandomFailure string
  | NotASCII string
  | KeyMismatch
  | BadPEM
  | BadCert
  | BadKeySize nat
  | AuthFailed
  | WrongNonceLength
  | NotRSA

section \<open>Certificates\<close>

text \<open>
  A template carries the fields the caller fills in.  \<^verbatim>\<open>x509.CreateCertificate\<close> rejects DNS
  names that are not ASCII and a signing key that is not the parent's; the times it encodes have
  whole seconds.
\<close>

record cert_template =
  ct_serial :: string
  ct_subject :: string
  ct_not_before :: instant
  ct_not_after :: instant
  ct_is_ca :: bool
  ct_key_usage :: "key_usage list"
  ct_ext_key_usage :: "ext_key_usage list"
  ct_dns_names :: "string list"

definition is_ascii :: "string \<Rightarrow> bool" where
  "is_ascii s \<longleftrightarrow> list_all (\<lambda>c. (of_char c :: nat) < 128) s"

definition create_certificate ::
  "cert_template \<Rightarrow> string \<Rightarrow> rsa_key option \<Rightarrow> rsa_key \<Rightarrow> rsa_key \<Rightarrow> crypto_error + cert"
where
  "create_certificate tmpl parent_subject parent_key pub priv =
     (if parent_key \<noteq> None \<and> parent_key \<noteq> Some priv then Inl KeyMismatch
      else case find (\<lambda>d. \<not> is_ascii d) (ct_dns_names tmpl) of
        Some d \<Rightarrow> Inl (NotASCII d)
      | None \<Rightarrow> Inr \<lparr>x_serial = ct_serial tmpl, x_subject = ct_subject tmpl,
          x_issuer = parent_subject,
          x_not_before = trunc_seconds (ct_not_before tmpl),
          x_not_after = trunc_seconds (ct_not_after tmpl),
          x_is_ca = ct_is_ca tmpl, x_key_usage = ct_key_usage tmpl,
          x_ext_key_usage = ct_ext_key_usage tmpl, x_dns_names = ct_dns_names tmpl,
          x_public_key = pub, x_signed_by = priv\<rparr>)"

definition cert_time_valid :: "instant \<Rightarrow> cert \<Rightarrow> bool" where
  "cert_time_valid now c \<longleftrightarrow> x_not_before c \<le> now \<and> now \<le> x_not_after c"

text \<open>
  \<^verbatim>\<open>cert.Verify(VerifyOptions{Roots: pool})\<close>.  The leaf and the root must be valid now, the
  root must be a CA whose key signed the leaf (or be the leaf itself), and, since the options
  name no key usages, the certificate must be acceptable for server authentication: the
  documentation of \<^verbatim>\<open>VerifyOptions\<close> says that an empty \<^verbatim>\<open>KeyUsages\<close> list means
  \<^verbatim>\<open>ExtKeyUsageServerAuth\<close>.  A certificate without extended key usages is acceptable for all.
  An authority whose key usage lacks the signing of certificates would be refused, too; that is left
  out, since every authority the program makes has it.
\<close>

definition usage_ok :: "ext_key_usage \<Rightarrow> cert \<Rightarrow> bool" where
  "usage_ok u c \<longleftrightarrow> x_ext_key_usage c = [] \<or> u \<in> set (x_ext_key_usage c)"

definition verify_for :: "ext_key_usage list \<Rightarrow> instant \<Rightarrow> cert list \<Rightarrow> cert \<Rightarrow> bool" where
  "verify_for usages now roots c \<longleftrightarrow>
     cert_time_valid now c \<and>
     list_ex (\<lambda>r. cert_time_valid now r \<and>
        (r = c \<or> (x_is_ca r \<and> x_issuer c = x_subject r \<and> x_signed_by c = x_public_key r)) \<and>
        list_ex (\<lambda>u. usage_ok u c \<and> usage_ok u r) (if usages = [] then [ServerAuth] else usages)) roots"

definition cert_verify :: "instant \<Rightarrow> cert list \<Rightarrow> cert \<Rightarrow> bool" where
  "cert_verify now roots c = verify_for [] now roots c"

text \<open>\<^verbatim>\<open>pool.AppendCertsFromPEM\<close>: the certificates of the data, none if it has no block.\<close>

definition certs_of_pem :: "blob \<Rightarrow> cert list" where
  "certs_of_pem b = (case b of PemCert c \<Rightarrow> [c] | _ \<Rightarrow> [])"

text \<open>\<^verbatim>\<open>tls.LoadX509KeyPair\<close>: a certificate, a key, and the key is the certificate's.\<close>

definition x509_key_pair :: "blob \<Rightarrow> blob \<Rightarrow> cert option" where
  "x509_key_pair crt key =
     (case (crt, key) of
        (PemCert c, PemKey k) \<Rightarrow> if x_public_key c = k then Some c else None
      | _ \<Rightarrow> None)"

text \<open>\<^verbatim>\<open>pem.Decode\<close> then \<^verbatim>\<open>x509.ParseCertificate\<close>.\<close>

definition parse_cert_pem :: "blob \<Rightarrow> crypto_error + cert" where
  "parse_cert_pem b = (case b of RawBytes _ \<Rightarrow> Inl BadPEM | PemKey _ \<Rightarrow> Inl BadCert | PemCert c \<Rightarrow> Inr c)"

section \<open>Sealed boxes\<close>

datatype key_der = RsaDer rsa_key | OtherDer string

datatype sealed = Sealed string string key_der | BoxBytes string

definition aes_key_size_ok :: "string \<Rightarrow> bool" where
  "aes_key_size_ok k \<longleftrightarrow> length k \<in> {16, 24, 32}"

text \<open>\<^verbatim>\<open>gcm.Open\<close> panics on a nonce that is not 12 bytes long.\<close>

definition gcm_open :: "string \<Rightarrow> sealed \<Rightarrow> string \<Rightarrow> crypto_error + key_der" where
  "gcm_open key box nonce =
     (if length nonce \<noteq> 12 then Inl WrongNonceLength
      else case box of
        Sealed k n p \<Rightarrow> if k = key \<and> n = nonce then Inr p else Inl AuthFailed
      | BoxBytes _ \<Rightarrow> Inl AuthFailed)"

text \<open>What the random source hands to one issuance: a key pair, a serial and a nonce.\<close>

record randomness =
  rnd_key :: "string + rsa_key"
  rnd_serial :: string
  rnd_nonce :: "string + string"

lemma create_certificate_ok:
  "create_certificate t ps pk pub priv = Inr c \<Longrightarrow>
     x_subject c = ct_subject t \<and> x_issuer c = ps \<and> x_is_ca c = ct_is_ca t \<and>
     x_not_before c = trunc_seconds (ct_not_before t) \<and> x_not_after c = trunc_seconds (ct_not_after t) \<and>
     x_ext_key_usage c = ct_ext_key_usage t \<and> x_dns_names c = ct_dns_names t \<and>
     x_key_usage c = ct_key_usage t \<and> x_public_key c = pub \<and> x_signed_by c = priv \<and>
     (pk = None \<or> pk = Some priv)"
  by (auto simp: create_certificate_def split: if_splits option.splits)

end
