(* ===== verification/FileSys.thy ===== *)
theory FileSys
  imports Crypto
begin

text \<open>
  The operating system's files, as packages \<^verbatim>\<open>os\<close> and \<^verbatim>\<open>path/filepath\<close> show them.  A file
  system maps paths to contents; directories exist as needed.  Every call may fail for reasons
  of its own: the state carries the outcomes the environment has in store for the calls to come
  (\<^term>\<open>None\<close>: succeed), so that a theorem about all states is a theorem about all patterns of
  failure.  A failing \<^verbatim>\<open>os.WriteFile\<close> may leave anything in the file.
\<close>

record io_fault =
  fault_error :: string
  fault_leftover :: "blob option"

record fs =
  fs_files :: "string \<Rightarrow> blob option"
  fs_faults :: "io_fault option list"

datatype io_error = NotExist | IOError string

definition pop_io_fault :: "fs \<Rightarrow> io_fault option \<times> fs" where
  "pop_io_fault s = (case fs_faults s of [] \<Rightarrow> (None, s) | f # fs \<Rightarrow> (f, s\<lparr>fs_faults := fs\<rparr>))"

definition os_mkdir_all :: "string \<Rightarrow> fs \<Rightarrow> (io_error + unit) \<times> fs" where
  "os_mkdir_all path s = (case pop_io_fault s of
       (Some f, s') \<Rightarrow> (Inl (IOError (fault_error f)), s')
     | (None, s') \<Rightarrow> (Inr (), s'))"

definition os_read_file :: "string \<Rightarrow> fs \<Rightarrow> (io_error + blob) \<times> fs" where
  "os_read_file path s = (case pop_io_fault s of
       (Some f, s') \<Rightarrow> (Inl (IOError (fault_error f)), s')
     | (None, s') \<Rightarrow> (case fs_files s' path of None \<Rightarrow> (Inl NotExist, s') | Some b \<Rightarrow> (Inr b, s')))"

definition os_stat :: "string \<Rightarrow> fs \<Rightarrow> (io_error + unit) \<times> fs" where
  "os_stat path s = (case os_read_file path s of (Inl e, s') \<Rightarrow> (Inl e, s') | (Inr _, s') \<Rightarrow> (Inr (), s'))"

definition os_write_file :: "string \<Rightarrow> blob \<Rightarrow> fs \<Rightarrow> (io_error + unit) \<times> fs" where
  "os_write_file path b s = (case pop_io_fault s of
       (Some f, s') \<Rightarrow>
         (Inl (IOError (fault_error f)),
          (case fault_leftover f of None \<Rightarrow> s' | Some l \<Rightarrow> s'\<lparr>fs_files := (fs_files s')(path \<mapsto> l)\<rparr>))
     | (None, s') \<Rightarrow> (Inr (), s'\<lparr>fs_files := (fs_files s')(path \<mapsto> b)\<rparr>))"

definition os_rename :: "string \<Rightarrow> string \<Rightarrow> fs \<Rightarrow> (io_error + unit) \<times> fs" where
  "os_rename old new s = (case pop_io_fault s of
       (Some f, s') \<Rightarrow> (Inl (IOError (fault_error f)), s')
     | (None, s') \<Rightarrow> (case fs_files s' old of
           None \<Rightarrow> (Inl NotExist, s')
         | Some b \<Rightarrow> (Inr (), s'\<lparr>fs_files := (fs_files s')(old := None, new \<mapsto> b)\<rparr>)))"

definition os_remove :: "string \<Rightarrow> fs \<Rightarrow> (io_error + unit) \<times> fs" where
  "os_remove path s = (case pop_io_fault s of
       (Some f, s') \<Rightarrow> (Inl (IOError (fault_error f)), s')
     | (None, s') \<Rightarrow> (case fs_files s' path of
           None \<Rightarrow> (Inl NotExist, s')
         | Some b \<Rightarrow> (Inr (), s'\<lparr>fs_files := (fs_files s')(path := None)\<rparr>)))"

lemmas os_defs = os_mkdir_all_def os_read_file_def os_stat_def os_write_file_def os_rename_def
  os_remove_def pop_io_fault_def

section \<open>Paths\<close>

text \<open>
  \<^verbatim>\<open>filepath.Clean\<close> on a slash-separated path: empty and dot elements vanish, a dot-dot element
  removes the one before it (at the root it vanishes).  \<^verbatim>\<open>filepath.Join\<close> drops empty arguments,
  joins the rest with a slash and cleans the result.
\<close>

fun clean_elems :: "bool \<Rightarrow> string list \<Rightarrow> string list \<Rightarrow> string list" where
  "clean_elems rooted acc [] = rev acc"
| "clean_elems rooted acc (e # es) =
     (if e = [] \<or> e = ''.'' then clean_elems rooted acc es
      else if e = ''..'' then
        (case acc of
           a # acc' \<Rightarrow> if a \<noteq> ''..'' then clean_elems rooted acc' es
                      else clean_elems rooted (e # acc) es
         | [] \<Rightarrow> if rooted then clean_elems rooted [] es else clean_elems rooted [e] es)
      else clean_elems rooted (e # acc) es)"

definition path_clean :: "string \<Rightarrow> string" where
  "path_clean p =
     (let rooted = has_prefix p ''/''; es = clean_elems rooted [] (split_on (CHR ''/'') p)
      in if rooted then ''/'' @ join_with ''/'' es
         else if es = [] then ''.'' else join_with ''/'' es)"

definition path_join :: "string list \<Rightarrow> string" where
  "path_join ps =
     (let ne = filter (\<lambda>p. p \<noteq> []) ps in if ne = [] then [] else path_clean (join_with ''/'' ne))"

text \<open>\<^verbatim>\<open>filepath.Base\<close> of a path that does not end in a slash, and \<^verbatim>\<open>filepath.Dir\<close>.\<close>

definition path_base :: "string \<Rightarrow> string" where
  "path_base p =
     (if p = [] then ''.''
      else let es = filter (\<lambda>e. e \<noteq> []) (split_on (CHR ''/'') p) in if es = [] then ''/'' else last es)"

definition path_dir :: "string \<Rightarrow> string" where
  "path_dir p = path_clean (join_with ''/'' (butlast (split_on (CHR ''/'') p)) @
      (if has_prefix p ''/'' then ''/'' else []))"

section \<open>Joining a directory and a plain file name\<close>

definition plain_name :: "string \<Rightarrow> bool" where
  "plain_name f \<longleftrightarrow> f \<noteq> [] \<and> f \<noteq> ''.'' \<and> f \<noteq> ''..'' \<and> CHR ''/'' \<notin> set f"

lemma split_on_snoc: "CHR ''/'' \<notin> set f \<Longrightarrow> split_on (CHR ''/'') (d @ CHR ''/'' # f) = split_on (CHR ''/'') d @ [f]"
proof (induction d)
  case Nil
  then show ?case by (simp add: split_on_single)
next
  case (Cons c d)
  obtain w ws where w: "split_on (CHR ''/'') d = w # ws"
    by (meson neq_Nil_conv split_on_nonempty)
  then show ?case using Cons by simp
qed

lemma clean_elems_snoc: "plain_name f \<Longrightarrow> clean_elems r acc (es @ [f]) = clean_elems r acc es @ [f]"
  by (induction r acc es rule: clean_elems.induct) (auto simp: plain_name_def split: list.splits)

lemma join_with_snoc: "join_with sep (es @ [f]) = (if es = [] then f else join_with sep es @ sep @ f)"
proof (induction es)
  case (Cons e es)
  then show ?case by (cases es) auto
qed simp

text \<open>The prefix a directory contributes to the path of a file in it.\<close>

definition dir_prefix :: "string list \<Rightarrow> string" where
  "dir_prefix ds =
     (let ne = filter (\<lambda>p. p \<noteq> []) ds; d = join_with ''/'' ne; rooted = has_prefix d ''/'';
          es = clean_elems rooted [] (split_on (CHR ''/'') d)
      in if ne = [] then []
         else (if rooted then ''/'' else []) @ (if es = [] then [] else join_with ''/'' es @ ''/''))"

lemma join_with_nonempty: "filter (\<lambda>p. p \<noteq> []) ds \<noteq> [] \<Longrightarrow> join_with sep (filter (\<lambda>p. p \<noteq> []) ds) \<noteq> []"
proof (induction ds)
  case (Cons d ds)
  then show ?case by (cases "filter (\<lambda>p. p \<noteq> []) ds") auto
qed simp

lemma has_prefix_slash: "d \<noteq> [] \<Longrightarrow> has_prefix (d @ e) ''/'' = has_prefix d ''/''"
  by (cases d) (auto simp: has_prefix_def)

lemma path_join_plain:
  assumes "plain_name f"
  shows "path_join (ds @ [f]) = dir_prefix ds @ f"
proof -
  let ?ne = "filter (\<lambda>p. p \<noteq> []) ds"
  let ?d = "join_with ''/'' ?ne"
  have f: "f \<noteq> []" "CHR ''/'' \<notin> set f" using assms by (simp_all add: plain_name_def)
  show ?thesis
  proof (cases "?ne = []")
    case True
    have "\<not> has_prefix f ''/''" using f by (cases f) (auto simp: has_prefix_def)
    then show ?thesis
      using True f assms clean_elems_snoc[of f False "[]" "[]"]
      by (simp add: path_join_def dir_prefix_def path_clean_def Let_def split_on_single)
  next
    case False
    then have d: "?d \<noteq> []" by (rule join_with_nonempty)
    have s: "split_on (CHR ''/'') (?d @ CHR ''/'' # f) = split_on (CHR ''/'') ?d @ [f]"
      by (rule split_on_snoc) (rule f(2))
    show ?thesis
      using False f
      by (simp add: path_join_def dir_prefix_def path_clean_def Let_def join_with_snoc
          has_prefix_slash[OF d] s clean_elems_snoc[OF assms])
  qed
qed

lemma path_join_inj:
  "plain_name f \<Longrightarrow> plain_name g \<Longrightarrow> path_join (ds @ [f]) = path_join (ds @ [g]) \<Longrightarrow> f = g"
  by (simp add: path_join_plain)

end
