(* ===== verification/Pki.thy ===== *)
theory Pki
  imports FileSys "HOL-Library.Multiset"
begin

text \<open>
  Package \<^verbatim>\<open>internal/pki\<close>: the per-site certificate authority (\<^verbatim>\<open>ca.go\<close>), leaf and server
  certificates (\<^verbatim>\<open>leaf.go\<close>, \<^verbatim>\<open>server.go\<close>), the rotation test (\<^verbatim>\<open>ensure.go\<close>) and the
  procedure that keeps a site's trust files fresh (\<^verbatim>\<open>trust.go\<close>).  The clock, the random source
  and the SHA-256 digest of a certificate's encoding are arguments.
\<close>

datatype pki_error =
    NoMasterKey
  | MasterKeyNotHex
  | MasterKeyLength nat
  | Crypto string crypto_error
  | CAKeyNotDecrypted
  | NoSANs
  | CABundleUnreadable
  | PkiIO string io_error

section \<open>The master key\<close>

definition hex_val :: "char \<Rightarrow> nat option" where
  "hex_val c =
     (if is_digit c then Some (of_char c - 48)
      else if CHR ''a'' \<le> c \<and> c \<le> CHR ''f'' then Some (of_char c - 87)
      else if CHR ''A'' \<le> c \<and> c \<le> CHR ''F'' then Some (of_char c - 55)
      else None)"

fun hex_decode :: "string \<Rightarrow> string option" where
  "hex_decode [] = Some []"
| "hex_decode [c] = None"
| "hex_decode (a # b # s) =
     (case (hex_val a, hex_val b, hex_decode s) of
        (Some x, Some y, Some r) \<Rightarrow> Some (char_of (16 * x + y) # r)
      | _ \<Rightarrow> None)"

definition master_key :: "bool \<Rightarrow> string \<Rightarrow> pki_error + string" where
  "master_key dev_mode env_value =
     (if env_value = '''' then
        (if dev_mode then Inr (replicate 32 (CHR 0x00)) else Inl NoMasterKey)
      else case hex_decode env_value of
        None \<Rightarrow> Inl MasterKeyNotHex
      | Some key \<Rightarrow> if length key \<noteq> 32 then Inl (MasterKeyLength (length key)) else Inr key)"

section \<open>The certificate authority\<close>

definition ca_ttl_years :: int where "ca_ttl_years = 20"
definition server_ttl_years :: int where "server_ttl_years = 10"
definition renew_window_days :: int where "renew_window_days = 30"

record ca =
  ca_cert_pem :: blob
  ca_key_encrypted :: sealed
  ca_key_nonce :: string
  ca_fingerprint :: string
  ca_cert :: "cert option"
  ca_key :: "rsa_key option"

definition aes_gcm_encrypt :: "string \<Rightarrow> key_der \<Rightarrow> string + string \<Rightarrow> crypto_error + (sealed \<times> string)" where
  "aes_gcm_encrypt key plain nonce_source =
     (if \<not> aes_key_size_ok key then Inl (BadKeySize (length key))
      else case nonce_source of
        Inl e \<Rightarrow> Inl (RandomFailure e)
      | Inr nonce \<Rightarrow> Inr (Sealed key nonce plain, nonce))"

definition aes_gcm_decrypt :: "string \<Rightarrow> sealed \<Rightarrow> string \<Rightarrow> crypto_error + key_der" where
  "aes_gcm_decrypt key box nonce =
     (if \<not> aes_key_size_ok key then Inl (BadKeySize (length key)) else gcm_open key box nonce)"

definition generate_ca ::
  "(cert \<Rightarrow> string) \<Rightarrow> instant \<Rightarrow> randomness \<Rightarrow> string \<Rightarrow> string \<Rightarrow> string \<Rightarrow> pki_error + ca"
where
  "generate_ca fp now rnd tenant_id site_id mkey =
     (case rnd_key rnd of
        Inl e \<Rightarrow> Inl (Crypto ''generate CA key'' (RandomFailure e))
      | Inr key \<Rightarrow>
          let cn = ''controlai-'' @ tenant_id @ ''-'' @ site_id @ ''-ca'';
              start = now - 5 * minute;
              tmpl = \<lparr>ct_serial = rnd_serial rnd, ct_subject = cn, ct_not_before = start,
                      ct_not_after = add_date ca_ttl_years 0 start, ct_is_ca = True,
                      ct_key_usage = [CertSign, CRLSign], ct_ext_key_usage = [], ct_dns_names = []\<rparr>
          in case create_certificate tmpl cn None key key of
               Inl e \<Rightarrow> Inl (Crypto ''create CA cert'' e)
             | Inr c \<Rightarrow>
                 (case aes_gcm_encrypt mkey (RsaDer key) (rnd_nonce rnd) of
                    Inl e \<Rightarrow> Inl (Crypto ''encrypt CA key'' e)
                  | Inr (box, nonce) \<Rightarrow>
                      Inr \<lparr>ca_cert_pem = PemCert c, ca_key_encrypted = box, ca_key_nonce = nonce,
                           ca_fingerprint = fp c, ca_cert = Some c, ca_key = Some key\<rparr>))"

definition decrypt_key :: "ca \<Rightarrow> string \<Rightarrow> pki_error + ca" where
  "decrypt_key a mkey =
     (if ca_key a \<noteq> None then Inr a
      else case aes_gcm_decrypt mkey (ca_key_encrypted a) (ca_key_nonce a) of
        Inl e \<Rightarrow> Inl (Crypto ''decrypt CA key'' e)
      | Inr (OtherDer _) \<Rightarrow> Inl (Crypto ''CA key is not RSA'' NotRSA)
      | Inr (RsaDer k) \<Rightarrow> Inr (a\<lparr>ca_key := Some k\<rparr>))"

definition parse_cert :: "ca \<Rightarrow> pki_error + ca" where
  "parse_cert a =
     (if ca_cert a \<noteq> None then Inr a
      else case parse_cert_pem (ca_cert_pem a) of
        Inl e \<Rightarrow> Inl (Crypto ''parse CA cert'' e)
      | Inr c \<Rightarrow> Inr (a\<lparr>ca_cert := Some c\<rparr>))"

section \<open>Issuing\<close>

record issued =
  is_cert_pem :: blob
  is_key_pem :: blob
  is_fingerprint :: string
  is_not_before :: instant
  is_not_after :: instant
  is_sans :: "string list"

text \<open>
  Both issuers receive a pointer and parse the CA certificate first if that has not been done;
  the callers have done it, so the update is not returned.
\<close>

definition issue_leaf_cert ::
  "(cert \<Rightarrow> string) \<Rightarrow> instant \<Rightarrow> randomness \<Rightarrow> ca \<Rightarrow> string \<Rightarrow> int \<Rightarrow> pki_error + issued"
where
  "issue_leaf_cert fp now rnd a0 cn0 ttl0 =
     (case parse_cert a0 of
        Inl e \<Rightarrow> Inl e
      | Inr a \<Rightarrow>
          (case (ca_key a, ca_cert a) of
             (Some k, Some parent) \<Rightarrow>
               let ttl = (if ttl0 \<le> 0 then 365 else ttl0);
                   cn = (if length cn0 > 63 then take 63 cn0 else cn0)
               in (case rnd_key rnd of
                     Inl e \<Rightarrow> Inl (Crypto ''generate leaf key'' (RandomFailure e))
                   | Inr key \<Rightarrow>
                       let start = now - 5 * minute;
                           tmpl = \<lparr>ct_serial = rnd_serial rnd, ct_subject = cn, ct_not_before = start,
                                   ct_not_after = add_date 0 ttl start, ct_is_ca = False,
                                   ct_key_usage = [DigitalSignature],
                                   ct_ext_key_usage = [ClientAuth], ct_dns_names = []\<rparr>
                       in (case create_certificate tmpl (x_subject parent) (Some (x_public_key parent)) key k of
                             Inl e \<Rightarrow> Inl (Crypto ''sign leaf cert'' e)
                           | Inr c \<Rightarrow>
                               Inr \<lparr>is_cert_pem = PemCert c, is_key_pem = PemKey key,
                                    is_fingerprint = fp c, is_not_before = start,
                                    is_not_after = add_date 0 ttl start, is_sans = []\<rparr>))
           | _ \<Rightarrow> Inl CAKeyNotDecrypted))"

definition issue_server_cert ::
  "(cert \<Rightarrow> string) \<Rightarrow> instant \<Rightarrow> randomness \<Rightarrow> ca \<Rightarrow> string list \<Rightarrow> pki_error + issued"
where
  "issue_server_cert fp now rnd a0 sans =
     (case parse_cert a0 of
        Inl e \<Rightarrow> Inl e
      | Inr a \<Rightarrow>
          (case (ca_key a, ca_cert a) of
             (Some k, Some parent) \<Rightarrow>
               (case sans of
                  [] \<Rightarrow> Inl NoSANs
                | san0 # _ \<Rightarrow>
                    (case rnd_key rnd of
                       Inl e \<Rightarrow> Inl (Crypto ''generate server key'' (RandomFailure e))
                     | Inr key \<Rightarrow>
                         let start = now - 5 * minute;
                             tmpl = \<lparr>ct_serial = rnd_serial rnd, ct_subject = san0, ct_not_before = start,
                                     ct_not_after = add_date server_ttl_years 0 start, ct_is_ca = False,
                                     ct_key_usage = [DigitalSignature, KeyEncipherment],
                                     ct_ext_key_usage = [ServerAuth, ClientAuth], ct_dns_names = sans\<rparr>
                         in (case create_certificate tmpl (x_subject parent) (Some (x_public_key parent)) key k of
                               Inl e \<Rightarrow> Inl (Crypto ''sign server cert'' e)
                             | Inr c \<Rightarrow>
                                 Inr \<lparr>is_cert_pem = PemCert c, is_key_pem = PemKey key,
                                      is_fingerprint = fp c, is_not_before = start,
                                      is_not_after = add_date server_ttl_years 0 start,
                                      is_sans = sans\<rparr>)))
           | _ \<Rightarrow> Inl CAKeyNotDecrypted))"

section \<open>Rotation\<close>

datatype rotation_reason = Missing | Expiring | CAMismatch | SANDrift

text \<open>The loop that compares the two sorted copies element by element.\<close>

fun eq_elems :: "string list \<Rightarrow> string list \<Rightarrow> bool" where
  "eq_elems (x # xs) (y # ys) = (if x \<noteq> y then False else eq_elems xs ys)"
| "eq_elems _ _ = True"

definition san_sets_equal :: "string list \<Rightarrow> string list \<Rightarrow> bool" where
  "san_sets_equal a b = (if length a \<noteq> length b then False else eq_elems (sort a) (sort b))"

text \<open>
  The code returns the empty string for no reason; here it is \<^term>\<open>None\<close>.  The CA bundle and
  the required names are optional (\<^verbatim>\<open>nil\<close> skips the check).
\<close>

definition needs_rotation ::
  "instant \<Rightarrow> string \<Rightarrow> blob option \<Rightarrow> string list option \<Rightarrow> fs \<Rightarrow> (pki_error + rotation_reason option) \<times> fs"
where
  "needs_rotation now cert_path ca_pem required_sans s =
     (case os_read_file cert_path s of
        (Inl NotExist, s1) \<Rightarrow> (Inr (Some Missing), s1)
      | (Inl (IOError e), s1) \<Rightarrow> (Inl (PkiIO ''read cert'' (IOError e)), s1)
      | (Inr raw, s1) \<Rightarrow>
          (case parse_cert_pem raw of
             Inl _ \<Rightarrow> (Inr (Some Missing), s1)
           | Inr c \<Rightarrow>
               if (case ca_pem of None \<Rightarrow> False | Some pem \<Rightarrow> certs_of_pem pem = [])
               then (Inl CABundleUnreadable, s1)
               else if (case ca_pem of None \<Rightarrow> False | Some pem \<Rightarrow> \<not> cert_verify now (certs_of_pem pem) c)
               then (Inr (Some CAMismatch), s1)
               else if x_not_after c - now \<le> renew_window_days * 24 * hour
               then (Inr (Some Expiring), s1)
               else if (case required_sans of None \<Rightarrow> False
                        | Some sans \<Rightarrow> \<not> san_sets_equal (x_dns_names c) sans)
               then (Inr (Some SANDrift), s1)
               else (Inr None, s1)))"

section \<open>Trust files\<close>

record trust_file_config =
  tf_site_id :: string
  tf_tenant_id :: string
  tf_cert_dir :: string
  tf_sni_hostname :: string
  tf_master_key :: string
  tf_ca_cert_pem :: blob
  tf_ca_key_enc :: sealed
  tf_ca_key_nonce :: string

record trust_file_result =
  server_rotated :: bool
  ingestor_rotated :: bool

definition load_ca :: "trust_file_config \<Rightarrow> pki_error + ca" where
  "load_ca cfg =
     (case parse_cert \<lparr>ca_cert_pem = tf_ca_cert_pem cfg, ca_key_encrypted = tf_ca_key_enc cfg,
                       ca_key_nonce = tf_ca_key_nonce cfg, ca_fingerprint = '''',
                       ca_cert = None, ca_key = None\<rparr> of
        Inl e \<Rightarrow> Inl e
      | Inr a \<Rightarrow> decrypt_key a (tf_master_key cfg))"

definition write_pem :: "string \<Rightarrow> blob \<Rightarrow> fs \<Rightarrow> (pki_error + unit) \<times> fs" where
  "write_pem path data s =
     (let tmp = path @ ''.tmp''
      in case os_write_file tmp data s of
           (Inl e, s1) \<Rightarrow> (Inl (PkiIO ''write PEM'' e), s1)
         | (Inr _, s1) \<Rightarrow>
             (case os_rename tmp path s1 of
                (Inl e, s2) \<Rightarrow> (Inl (PkiIO ''rename PEM'' e), s2)
              | (Inr _, s2) \<Rightarrow> (Inr (), s2)))"

text \<open>Writing an issued pair: the certificate, then its key.\<close>

definition write_pair :: "string \<Rightarrow> string \<Rightarrow> issued \<Rightarrow> fs \<Rightarrow> (pki_error + unit) \<times> fs" where
  "write_pair cert_path key_path i s =
     (case write_pem cert_path (is_cert_pem i) s of
        (Inl e, s1) \<Rightarrow> (Inl e, s1)
      | (Inr _, s1) \<Rightarrow> write_pem key_path (is_key_pem i) s1)"

definition ensure_ca_file :: "trust_file_config \<Rightarrow> fs \<Rightarrow> (pki_error + unit) \<times> fs" where
  "ensure_ca_file cfg s =
     (case os_mkdir_all (tf_cert_dir cfg) s of
        (Inl e, s1) \<Rightarrow> (Inl (PkiIO ''ensure cert dir'' e), s1)
      | (Inr _, s1) \<Rightarrow>
          let p = path_join [tf_cert_dir cfg, ''ca.crt'']
          in case os_stat p s1 of
               (Inr _, s2) \<Rightarrow> (Inr (), s2)
             | (Inl _, s2) \<Rightarrow>
                 (case os_write_file p (tf_ca_cert_pem cfg) s2 of
                    (Inl e, s3) \<Rightarrow> (Inl (PkiIO ''write CA cert'' e), s3)
                  | (Inr _, s3) \<Rightarrow> (Inr (), s3)))"

text \<open>The server part and the ingestor part each report whether they rotated.\<close>

definition ensure_server ::
  "(cert \<Rightarrow> string) \<Rightarrow> instant \<Rightarrow> randomness \<Rightarrow> trust_file_config \<Rightarrow> fs \<Rightarrow> (pki_error + bool) \<times> fs"
where
  "ensure_server fp now rnd cfg s =
     (let cert_path = path_join [tf_cert_dir cfg, ''server.crt''];
          key_path = path_join [tf_cert_dir cfg, ''server.key'']
      in case needs_rotation now cert_path (Some (tf_ca_cert_pem cfg)) (Some [tf_sni_hostname cfg]) s of
           (Inl e, s1) \<Rightarrow> (Inl e, s1)
         | (Inr None, s1) \<Rightarrow> (Inr False, s1)
         | (Inr (Some _), s1) \<Rightarrow>
             (case load_ca cfg of
                Inl e \<Rightarrow> (Inl e, s1)
              | Inr a \<Rightarrow>
                  (case issue_server_cert fp now rnd a [tf_sni_hostname cfg] of
                     Inl e \<Rightarrow> (Inl e, s1)
                   | Inr i \<Rightarrow>
                       (case write_pair cert_path key_path i s1 of
                          (Inl e, s2) \<Rightarrow> (Inl e, s2)
                        | (Inr _, s2) \<Rightarrow> (Inr True, s2)))))"

definition ensure_ingestor ::
  "(cert \<Rightarrow> string) \<Rightarrow> instant \<Rightarrow> randomness \<Rightarrow> trust_file_config \<Rightarrow> fs \<Rightarrow> (pki_error + bool) \<times> fs"
where
  "ensure_ingestor fp now rnd cfg s =
     (let cert_path = path_join [tf_cert_dir cfg, ''ingestor.crt''];
          key_path = path_join [tf_cert_dir cfg, ''ingestor.key'']
      in case needs_rotation now cert_path (Some (tf_ca_cert_pem cfg)) None s of
           (Inl e, s1) \<Rightarrow> (Inl e, s1)
         | (Inr None, s1) \<Rightarrow> (Inr False, s1)
         | (Inr (Some _), s1) \<Rightarrow>
             (case load_ca cfg of
                Inl e \<Rightarrow> (Inl e, s1)
              | Inr a \<Rightarrow>
                  let cn0 = ''controlai-ingest-'' @ tf_site_id cfg;
                      cn = (if length cn0 > 63 then take 63 cn0 else cn0)
                  in (case issue_leaf_cert fp now rnd a cn 365 of
                        Inl e \<Rightarrow> (Inl e, s1)
                      | Inr i \<Rightarrow>
                          (case write_pair cert_path key_path i s1 of
                             (Inl e, s2) \<Rightarrow> (Inl e, s2)
                           | (Inr _, s2) \<Rightarrow> (Inr True, s2)))))"

text \<open>The two random sources feed the two issuances of one call.\<close>

definition ensure_trust_files ::
  "(cert \<Rightarrow> string) \<Rightarrow> instant \<Rightarrow> randomness \<times> randomness \<Rightarrow> trust_file_config \<Rightarrow> fs \<Rightarrow>
     (pki_error option \<times> trust_file_result) \<times> fs"
where
  "ensure_trust_files fp now rnds cfg s =
     (let r0 = \<lparr>server_rotated = False, ingestor_rotated = False\<rparr>
      in case ensure_ca_file cfg s of
           (Inl e, s1) \<Rightarrow> ((Some e, r0), s1)
         | (Inr _, s1) \<Rightarrow>
             (case ensure_server fp now (fst rnds) cfg s1 of
                (Inl e, s2) \<Rightarrow> ((Some e, r0), s2)
              | (Inr sr, s2) \<Rightarrow>
                  let r1 = r0\<lparr>server_rotated := sr\<rparr>
                  in (case ensure_ingestor fp now (snd rnds) cfg s2 of
                        (Inl e, s3) \<Rightarrow> ((Some e, r1), s3)
                      | (Inr ir, s3) \<Rightarrow> ((None, r1\<lparr>ingestor_rotated := ir\<rparr>), s3))))"

section \<open>SAN sets\<close>

lemma eq_elems_iff: "length a = length b \<Longrightarrow> eq_elems a b \<longleftrightarrow> a = b"
  by (induction a b rule: list_induct2) auto

lemma san_sets_equal_iff: "san_sets_equal a b \<longleftrightarrow> mset a = mset b"
proof
  assume "san_sets_equal a b"
  then have "length a = length b" "eq_elems (sort a) (sort b)"
    by (auto simp: san_sets_equal_def split: if_splits)
  then have "sort a = sort b" by (simp add: eq_elems_iff)
  then show "mset a = mset b" by (metis mset_sort)
next
  assume m: "mset a = mset b"
  then have "length a = length b" by (metis size_mset)
  moreover have "sort a = sort b" using m by (metis properties_for_sort mset_sort sorted_sort)
  ultimately show "san_sets_equal a b" by (simp add: san_sets_equal_def eq_elems_iff)
qed

section \<open>Issued certificates\<close>

lemma load_ca_ok:
  assumes "load_ca cfg = Inr a"
  obtains c k where "tf_ca_cert_pem cfg = PemCert c" "ca_cert a = Some c" "ca_key a = Some k"
    "tf_ca_key_enc cfg = Sealed (tf_master_key cfg) (tf_ca_key_nonce cfg) (RsaDer k)"
proof -
  from assms obtain c where c: "tf_ca_cert_pem cfg = PemCert c"
    by (auto simp: load_ca_def parse_cert_def parse_cert_pem_def split: blob.splits sum.splits)
  with assms obtain k where "ca_cert a = Some c" "ca_key a = Some k"
      "tf_ca_key_enc cfg = Sealed (tf_master_key cfg) (tf_ca_key_nonce cfg) (RsaDer k)"
    by (auto simp: load_ca_def parse_cert_def parse_cert_pem_def decrypt_key_def aes_gcm_decrypt_def
        gcm_open_def split: if_splits sum.splits sealed.splits key_der.splits)
  with c show ?thesis by (rule that)
qed

lemma parse_cert_done: "ca_cert a = Some c \<Longrightarrow> parse_cert a = Inr a"
  by (simp add: parse_cert_def)

lemma issue_server_cert_ok:
  assumes "issue_server_cert fp now rnd a sans = Inr i" "ca_cert a = Some p" "ca_key a = Some k"
  obtains c where "is_cert_pem i = PemCert c" "is_key_pem i = PemKey (x_public_key c)"
    "x_signed_by c = k" "x_public_key p = k" "x_issuer c = x_subject p" "x_dns_names c = sans"
    "x_ext_key_usage c = [ServerAuth, ClientAuth]" "\<not> x_is_ca c"
    "x_not_before c = trunc_seconds (now - 5 * minute)"
    "x_not_after c = trunc_seconds (add_date server_ttl_years 0 (now - 5 * minute))"
  using assms
  by (auto simp: issue_server_cert_def parse_cert_done Let_def
      split: list.splits sum.splits dest!: create_certificate_ok)

lemma issue_leaf_cert_ok:
  assumes "issue_leaf_cert fp now rnd a cn ttl = Inr i" "ca_cert a = Some p" "ca_key a = Some k"
  obtains c where "is_cert_pem i = PemCert c" "is_key_pem i = PemKey (x_public_key c)"
    "x_signed_by c = k" "x_public_key p = k" "x_issuer c = x_subject p" "x_subject c = take 63 cn"
    "x_ext_key_usage c = [ClientAuth]" "\<not> x_is_ca c"
    "x_not_before c = trunc_seconds (now - 5 * minute)"
    "x_not_after c = trunc_seconds (now - 5 * minute + (if ttl \<le> 0 then 365 else ttl) * day)"
  using assms
  by (auto simp: issue_leaf_cert_def parse_cert_done Let_def add_date_days
      split: sum.splits if_splits dest!: create_certificate_ok)

section \<open>Reading back what was written\<close>

lemma write_pem_ok:
  assumes "write_pem path b s = (Inr u, s')" "path \<noteq> path @ ''.tmp''"
  shows "fs_files s' = (fs_files s)(path @ ''.tmp'' := None, path \<mapsto> b)"
  using assms
  by (auto simp: write_pem_def os_defs Let_def split: list.splits option.splits prod.splits sum.splits if_splits)

lemma write_pair_ok:
  assumes "write_pair cp kp i s = (Inr u, s')"
    and "cp \<noteq> kp" "cp \<noteq> kp @ ''.tmp''" "kp \<noteq> cp @ ''.tmp''"
  shows "fs_files s' cp = Some (is_cert_pem i)" "fs_files s' kp = Some (is_key_pem i)"
    "\<And>q. q \<notin> {cp, kp, cp @ ''.tmp'', kp @ ''.tmp''} \<Longrightarrow> fs_files s' q = fs_files s q"
proof -
  obtain v s1 where 1: "write_pem cp (is_cert_pem i) s = (Inr v, s1)" "write_pem kp (is_key_pem i) s1 = (Inr u, s')"
    using assms(1) by (auto simp: write_pair_def split: prod.splits sum.splits)
  have f: "fs_files s' = (fs_files s)(cp @ ''.tmp'' := None, cp \<mapsto> is_cert_pem i, kp @ ''.tmp'' := None, kp \<mapsto> is_key_pem i)"
    using write_pem_ok[OF 1(1)] write_pem_ok[OF 1(2)] by simp
  show "fs_files s' cp = Some (is_cert_pem i)" "fs_files s' kp = Some (is_key_pem i)"
    "\<And>q. q \<notin> {cp, kp, cp @ ''.tmp'', kp @ ''.tmp''} \<Longrightarrow> fs_files s' q = fs_files s q"
    using assms(2-4) by (auto simp: f)
qed

lemma needs_rotation_frame [frame_simps]:
  "needs_rotation now p ca sans s = (r, s') \<Longrightarrow> fs_files s' = fs_files s"
  by (auto simp: needs_rotation_def os_defs split: list.splits option.splits sum.splits prod.splits
      io_error.splits if_splits)

text \<open>Without a fault the test is a function of the file's content.\<close>

definition rotation_test ::
  "instant \<Rightarrow> blob \<Rightarrow> string list option \<Rightarrow> blob option \<Rightarrow> pki_error + rotation_reason option"
where
  "rotation_test now ca sans content =
     (case content of
        None \<Rightarrow> Inr (Some Missing)
      | Some raw \<Rightarrow>
         (case parse_cert_pem raw of
            Inl _ \<Rightarrow> Inr (Some Missing)
          | Inr c \<Rightarrow>
              if certs_of_pem ca = [] then Inl CABundleUnreadable
              else if \<not> cert_verify now (certs_of_pem ca) c then Inr (Some CAMismatch)
              else if x_not_after c - now \<le> 30 * day then Inr (Some Expiring)
              else if (case sans of None \<Rightarrow> False | Some ns \<Rightarrow> mset (x_dns_names c) \<noteq> mset ns)
              then Inr (Some SANDrift)
              else Inr None))"

lemma needs_rotation_test:
  assumes "fs_faults s = []"
  shows "needs_rotation now p (Some ca) sans s = (rotation_test now ca sans (fs_files s p), s)"
  using assms
  by (auto simp: needs_rotation_def rotation_test_def os_defs san_sets_equal_iff renew_window_days_def
      day_def algebra_simps split: option.splits sum.splits)

lemma needs_rotation_result:
  assumes "needs_rotation now p (Some ca) sans s = (Inr r, s')"
  shows "rotation_test now ca sans (fs_files s p) = Inr r"
  using assms
  by (auto simp: needs_rotation_def rotation_test_def os_defs san_sets_equal_iff renew_window_days_def
      day_def algebra_simps split: option.splits sum.splits list.splits prod.splits io_error.splits if_splits)

section \<open>The files of one site\<close>

lemma cert_dir_file: "plain_name f \<Longrightarrow> path_join [d, f] = dir_prefix [d] @ f"
  using path_join_plain[of f "[d]"] by simp

lemma trust_paths [simp]:
  "path_join [d, ''ca.crt''] = dir_prefix [d] @ ''ca.crt''"
  "path_join [d, ''server.crt''] = dir_prefix [d] @ ''server.crt''"
  "path_join [d, ''server.key''] = dir_prefix [d] @ ''server.key''"
  "path_join [d, ''ingestor.crt''] = dir_prefix [d] @ ''ingestor.crt''"
  "path_join [d, ''ingestor.key''] = dir_prefix [d] @ ''ingestor.key''"
  by (simp_all add: cert_dir_file plain_name_def)

lemma ensure_ca_file_frame:
  assumes "ensure_ca_file cfg s = (r, s')" "q \<noteq> dir_prefix [tf_cert_dir cfg] @ ''ca.crt''"
  shows "fs_files s' q = fs_files s q"
  using assms by (auto simp: ensure_ca_file_def os_defs Let_def
      split: list.splits option.splits prod.splits sum.splits)

text \<open>An existing bundle is kept, whatever it holds.\<close>

lemma ensure_ca_file_keeps:
  assumes "ensure_ca_file cfg s = (Inr u, s')"
    and "fs_files s (dir_prefix [tf_cert_dir cfg] @ ''ca.crt'') = Some b" "fs_faults s = []"
  shows "s' = s"
  using assms by (auto simp: ensure_ca_file_def os_defs Let_def)

lemma ensure_server_cases:
  assumes "ensure_server fp now rnd cfg s = (Inr b, s')"
  shows "(\<not> b \<and> fs_files s' = fs_files s \<and>
      rotation_test now (tf_ca_cert_pem cfg) (Some [tf_sni_hostname cfg])
        (fs_files s (dir_prefix [tf_cert_dir cfg] @ ''server.crt'')) = Inr None) \<or>
    (b \<and> (\<exists>a i s1. load_ca cfg = Inr a \<and> issue_server_cert fp now rnd a [tf_sni_hostname cfg] = Inr i \<and>
       fs_files s1 = fs_files s \<and>
       write_pair (dir_prefix [tf_cert_dir cfg] @ ''server.crt'')
         (dir_prefix [tf_cert_dir cfg] @ ''server.key'') i s1 = (Inr (), s')))"
  using assms
  by (auto simp: ensure_server_def Let_def frame_simps split: prod.splits sum.splits option.splits
      dest: needs_rotation_result) (blast dest: needs_rotation_frame)

lemma ensure_ingestor_cases:
  assumes "ensure_ingestor fp now rnd cfg s = (Inr b, s')"
  shows "(\<not> b \<and> fs_files s' = fs_files s \<and>
      rotation_test now (tf_ca_cert_pem cfg) None
        (fs_files s (dir_prefix [tf_cert_dir cfg] @ ''ingestor.crt'')) = Inr None) \<or>
    (b \<and> (\<exists>a i s1. load_ca cfg = Inr a \<and>
       issue_leaf_cert fp now rnd a (take 63 (''controlai-ingest-'' @ tf_site_id cfg)) 365 = Inr i \<and>
       fs_files s1 = fs_files s \<and>
       write_pair (dir_prefix [tf_cert_dir cfg] @ ''ingestor.crt'')
         (dir_prefix [tf_cert_dir cfg] @ ''ingestor.key'') i s1 = (Inr (), s')))"
  using assms
  by (auto simp: ensure_ingestor_def Let_def frame_simps split: prod.splits sum.splits option.splits if_splits
      dest: needs_rotation_result) (blast dest: needs_rotation_frame)+

text \<open>The pair on disk after a rotation, and the files the rotation leaves alone.\<close>

lemma ensure_server_rotated:
  assumes "ensure_server fp now rnd cfg s = (Inr True, s')"
  obtains root k c where "tf_ca_cert_pem cfg = PemCert root" "x_public_key root = k"
    "fs_files s' (dir_prefix [tf_cert_dir cfg] @ ''server.crt'') = Some (PemCert c)"
    "fs_files s' (dir_prefix [tf_cert_dir cfg] @ ''server.key'') = Some (PemKey (x_public_key c))"
    "x_signed_by c = k" "x_issuer c = x_subject root" "x_dns_names c = [tf_sni_hostname cfg]"
    "x_ext_key_usage c = [ServerAuth, ClientAuth]" "\<not> x_is_ca c"
    "x_not_before c = trunc_seconds (now - 5 * minute)"
    "x_not_after c = trunc_seconds (add_date server_ttl_years 0 (now - 5 * minute))"
proof -
  obtain a i s1 where 1: "load_ca cfg = Inr a"
      "issue_server_cert fp now rnd a [tf_sni_hostname cfg] = Inr i"
      "write_pair (dir_prefix [tf_cert_dir cfg] @ ''server.crt'')
         (dir_prefix [tf_cert_dir cfg] @ ''server.key'') i s1 = (Inr (), s')"
    using ensure_server_cases[OF assms] by auto
  obtain root k where r: "tf_ca_cert_pem cfg = PemCert root" "ca_cert a = Some root" "ca_key a = Some k"
    by (rule load_ca_ok[OF 1(1)])
  obtain c where c: "is_cert_pem i = PemCert c" "is_key_pem i = PemKey (x_public_key c)"
    "x_signed_by c = k" "x_public_key root = k" "x_issuer c = x_subject root"
    "x_dns_names c = [tf_sni_hostname cfg]"
    "x_ext_key_usage c = [ServerAuth, ClientAuth]" "\<not> x_is_ca c"
    "x_not_before c = trunc_seconds (now - 5 * minute)"
    "x_not_after c = trunc_seconds (add_date server_ttl_years 0 (now - 5 * minute))"
    by (rule issue_server_cert_ok[OF 1(2) r(2,3)])
  show ?thesis
    by (rule that[OF r(1) c(4) _ _ c(3,5-)]) (use write_pair_ok[OF 1(3)] c in simp_all)
qed

lemma ensure_ingestor_rotated:
  assumes "ensure_ingestor fp now rnd cfg s = (Inr True, s')"
  obtains c where
    "fs_files s' (dir_prefix [tf_cert_dir cfg] @ ''ingestor.crt'') = Some (PemCert c)"
    "fs_files s' (dir_prefix [tf_cert_dir cfg] @ ''ingestor.key'') = Some (PemKey (x_public_key c))"
    "x_ext_key_usage c = [ClientAuth]"
proof -
  obtain a i s1 where 1: "load_ca cfg = Inr a"
      "issue_leaf_cert fp now rnd a (take 63 (''controlai-ingest-'' @ tf_site_id cfg)) 365 = Inr i"
      "write_pair (dir_prefix [tf_cert_dir cfg] @ ''ingestor.crt'')
         (dir_prefix [tf_cert_dir cfg] @ ''ingestor.key'') i s1 = (Inr (), s')"
    using ensure_ingestor_cases[OF assms] by auto
  obtain root k where r: "ca_cert a = Some root" "ca_key a = Some k"
    by (rule load_ca_ok[OF 1(1)])
  obtain c where c: "is_cert_pem i = PemCert c" "is_key_pem i = PemKey (x_public_key c)"
    "x_ext_key_usage c = [ClientAuth]"
    by (rule issue_leaf_cert_ok[OF 1(2) r])
  show ?thesis
    by (rule that) (use write_pair_ok[OF 1(3)] c in simp_all)
qed

lemma ensure_server_frame:
  assumes "ensure_server fp now rnd cfg s = (Inr b, s')"
    and "q \<notin> (@) (dir_prefix [tf_cert_dir cfg]) `
      {''server.crt'', ''server.key'', ''server.crt.tmp'', ''server.key.tmp''}"
  shows "fs_files s' q = fs_files s q"
  using ensure_server_cases[OF assms(1)] assms(2) by (auto dest!: write_pair_ok(3)[of _ _ _ _ _ _ q])

lemma write_pem_frame:
  assumes "write_pem path b s = (r, s')" "q \<notin> {path, path @ ''.tmp''}"
  shows "fs_files s' q = fs_files s q"
  using assms
  by (auto simp: write_pem_def os_defs Let_def split: list.splits option.splits prod.splits sum.splits if_splits)

lemma write_pair_frame:
  assumes "write_pair cp kp i s = (r, s')" "q \<notin> {cp, kp, cp @ ''.tmp'', kp @ ''.tmp''}"
  shows "fs_files s' q = fs_files s q"
  using assms write_pem_frame[of cp _ s _ _ q] write_pem_frame[of kp _ _ _ _ q]
  by (fastforce simp: write_pair_def split: prod.splits sum.splits)

text \<open>The certificate of the ingestor is of no concern to the server's, whatever fails.\<close>

lemma ensure_ingestor_frame:
  assumes "ensure_ingestor fp now rnd cfg s = (r, s')"
    and "q \<notin> (@) (dir_prefix [tf_cert_dir cfg]) `
      {''ingestor.crt'', ''ingestor.key'', ''ingestor.crt.tmp'', ''ingestor.key.tmp''}"
  shows "fs_files s' q = fs_files s q"
proof -
  have "write_pair (dir_prefix [tf_cert_dir cfg] @ ''ingestor.crt'') (dir_prefix [tf_cert_dir cfg] @ ''ingestor.key'') i v = (x, v') \<Longrightarrow>
      fs_files v' q = fs_files v q" for i v x v'
    using assms(2) by (intro write_pair_frame) auto
  then show ?thesis using assms(1)
    by (auto simp: ensure_ingestor_def Let_def split: prod.splits sum.splits option.splits dest!: needs_rotation_frame)
qed

lemma ensure_trust_files_ok:
  assumes "ensure_trust_files fp now rnds cfg s = ((None, r), s')"
  obtains s1 s2 where "ensure_ca_file cfg s = (Inr (), s1)"
    "ensure_server fp now (fst rnds) cfg s1 = (Inr (server_rotated r), s2)"
    "ensure_ingestor fp now (snd rnds) cfg s2 = (Inr (ingestor_rotated r), s')"
  using assms by (auto simp: ensure_trust_files_def Let_def split: prod.splits sum.splits)

section \<open>How long a rotation lasts\<close>

text \<open>A certificate limited to client authentication never passes the test against a CA.\<close>

lemma client_only_mismatch:
  assumes "x_ext_key_usage c = [ClientAuth]"
  shows "rotation_test now (PemCert root) sans (Some (PemCert c)) = Inr (Some CAMismatch)"
  using assms
  by (auto simp: rotation_test_def parse_cert_pem_def certs_of_pem_def cert_verify_def verify_for_def
      usage_ok_def)

text \<open>A server certificate verifies for 3600 days and a month, as long as the CA itself is valid.\<close>

lemma server_cert_dates:
  assumes "x_not_before c = trunc_seconds (now - 5 * minute)"
    and "x_not_after c = trunc_seconds (add_date server_ttl_years 0 (now - 5 * minute))"
    and "now \<le> t" "t \<le> now + 3600 * day"
  shows "x_not_before c \<le> t" "t + 31 * day \<le> x_not_after c"
proof -
  have "now - 5 * minute + 3649 * day \<le> add_date server_ttl_years 0 (now - 5 * minute)"
    using add_date_years(1)[of "now - 5 * minute" 10] by (simp add: server_ttl_years_def)
  then show "t + 31 * day \<le> x_not_after c"
    using assms trunc_seconds_bounds(2)[of "add_date server_ttl_years 0 (now - 5 * minute)"]
    by (simp add: day_eq minute_def second_def)
  show "x_not_before c \<le> t"
    using assms trunc_seconds_bounds(1)[of "now - 5 * minute"] by (simp add: minute_def second_def)
qed

lemma server_cert_verifies:
  assumes "x_signed_by c = x_public_key root" "x_issuer c = x_subject root" "x_ext_key_usage c = [ServerAuth, ClientAuth]"
    and "x_not_before c = trunc_seconds (now - 5 * minute)"
      "x_not_after c = trunc_seconds (add_date server_ttl_years 0 (now - 5 * minute))"
    and "x_is_ca root" "x_ext_key_usage root = []" "cert_time_valid t root"
    and "now \<le> t" "t \<le> now + 3600 * day"
  shows "cert_verify t [root] c"
  using assms server_cert_dates[OF assms(4,5,9,10)]
  by (simp add: cert_verify_def verify_for_def cert_time_valid_def usage_ok_def day_eq)

text \<open>So it passes the test of the rotation, which asks for a month more.\<close>

lemma server_cert_passes:
  assumes c: "x_signed_by c = x_public_key root" "x_issuer c = x_subject root" "x_dns_names c = [sni]"
    "x_ext_key_usage c = [ServerAuth, ClientAuth]"
    "x_not_before c = trunc_seconds (now - 5 * minute)"
    "x_not_after c = trunc_seconds (add_date server_ttl_years 0 (now - 5 * minute))"
    and root: "x_is_ca root" "x_ext_key_usage root = []" "cert_time_valid t root"
    and t: "now \<le> t" "t \<le> now + 3600 * day"
  shows "rotation_test t (PemCert root) (Some [sni]) (Some (PemCert c)) = Inr None"
  using server_cert_verifies[OF c(1,2,4-6) root t] server_cert_dates(2)[OF c(5,6) t] c(3)
  by (simp add: rotation_test_def parse_cert_pem_def certs_of_pem_def day_eq)

section \<open>When a call succeeds\<close>

text \<open>
  Without an I/O fault, with a CA that the master key opens and that signs with its own key, a
  name that a certificate can carry and a working random source, a call succeeds.
\<close>

definition trust_ready :: "trust_file_config \<Rightarrow> bool" where
  "trust_ready cfg \<longleftrightarrow> is_ascii (tf_sni_hostname cfg) \<and>
     (case load_ca cfg of Inr a \<Rightarrow>
        (case (ca_cert a, ca_key a) of (Some c, Some k) \<Rightarrow> x_public_key c = k | _ \<Rightarrow> False)
      | Inl _ \<Rightarrow> False)"

lemma trust_ready_ca:
  assumes "trust_ready cfg"
  obtains a c where "load_ca cfg = Inr a" "ca_cert a = Some c" "ca_key a = Some (x_public_key c)"
    "tf_ca_cert_pem cfg = PemCert c" "is_ascii (tf_sni_hostname cfg)"
  using assms
  by (auto simp: trust_ready_def load_ca_def parse_cert_def parse_cert_pem_def decrypt_key_def aes_gcm_decrypt_def
      gcm_open_def split: sum.splits option.splits blob.splits if_splits sealed.splits key_der.splits)

lemma write_pair_succeeds:
  "fs_faults s = [] \<Longrightarrow> \<exists>s'. write_pair cp kp i s = (Inr (), s') \<and> fs_faults s' = []"
  by (simp add: write_pair_def write_pem_def os_defs Let_def)

lemma rotation_test_total: "\<exists>r. rotation_test now (PemCert root) sans content = Inr r"
  by (auto simp: rotation_test_def certs_of_pem_def split: option.splits sum.splits)

lemma ensure_server_succeeds:
  assumes "trust_ready cfg" "rnd_key rnd = Inr k" "fs_faults s = []"
  shows "\<exists>b s'. ensure_server fp now rnd cfg s = (Inr b, s') \<and> fs_faults s' = []"
proof -
  obtain a c where a: "load_ca cfg = Inr a" "ca_cert a = Some c" "ca_key a = Some (x_public_key c)"
    "tf_ca_cert_pem cfg = PemCert c" "is_ascii (tf_sni_hostname cfg)" by (rule trust_ready_ca[OF assms(1)])
  obtain i where i: "issue_server_cert fp now rnd a [tf_sni_hostname cfg] = Inr i"
    using a assms(2) by (simp add: issue_server_cert_def parse_cert_done create_certificate_def Let_def)
  have "\<exists>r. rotation_test now (tf_ca_cert_pem cfg) (Some [tf_sni_hostname cfg])
      (fs_files s (dir_prefix [tf_cert_dir cfg] @ ''server.crt'')) = Inr r"
    by (simp add: a(4) rotation_test_total)
  then show ?thesis
    using a(1) i assms(3) write_pair_succeeds[OF assms(3), of "dir_prefix [tf_cert_dir cfg] @ ''server.crt''"
        "dir_prefix [tf_cert_dir cfg] @ ''server.key''" i]
    by (auto simp: ensure_server_def Let_def needs_rotation_test split: option.splits)
qed

lemma ensure_ingestor_succeeds:
  assumes "trust_ready cfg" "rnd_key rnd = Inr k" "fs_faults s = []"
  shows "\<exists>b s'. ensure_ingestor fp now rnd cfg s = (Inr b, s') \<and> fs_faults s' = []"
proof -
  obtain a c where a: "load_ca cfg = Inr a" "ca_cert a = Some c" "ca_key a = Some (x_public_key c)"
    "tf_ca_cert_pem cfg = PemCert c" by (rule trust_ready_ca[OF assms(1)])
  let ?cn = "let cn0 = ''controlai-ingest-'' @ tf_site_id cfg in if length cn0 > 63 then take 63 cn0 else cn0"
  obtain i where i: "issue_leaf_cert fp now rnd a ?cn 365 = Inr i"
    using a assms(2) by (simp add: issue_leaf_cert_def parse_cert_done create_certificate_def Let_def)
  obtain r where r: "rotation_test now (tf_ca_cert_pem cfg) None
      (fs_files s (dir_prefix [tf_cert_dir cfg] @ ''ingestor.crt'')) = Inr r"
    using a(4) rotation_test_total by metis
  obtain s' where w: "write_pair (dir_prefix [tf_cert_dir cfg] @ ''ingestor.crt'')
      (dir_prefix [tf_cert_dir cfg] @ ''ingestor.key'') i s = (Inr (), s')" "fs_faults s' = []"
    using write_pair_succeeds[OF assms(3)] by blast
  show ?thesis
    using a(1) i r w assms(3) unfolding ensure_ingestor_def Let_def
    by (cases r) (simp_all only: trust_paths needs_rotation_test sum.case option.case prod.case ex_simps simp_thms
        prod.inject sum.inject, auto)
qed

lemma ensure_ca_file_succeeds:
  "fs_faults s = [] \<Longrightarrow> \<exists>s'. ensure_ca_file cfg s = (Inr (), s') \<and> fs_faults s' = []"
  by (auto simp: ensure_ca_file_def os_defs Let_def split: option.splits)

lemma ensure_trust_files_succeeds:
  assumes "trust_ready cfg" "rnd_key (fst rnds) = Inr k" "rnd_key (snd rnds) = Inr k'" "fs_faults s = []"
  shows "\<exists>r s'. ensure_trust_files fp now rnds cfg s = ((None, r), s') \<and> fs_faults s' = []"
proof -
  obtain s1 where 1: "ensure_ca_file cfg s = (Inr (), s1)" "fs_faults s1 = []"
    using ensure_ca_file_succeeds[OF assms(4)] by blast
  obtain b s2 where 2: "ensure_server fp now (fst rnds) cfg s1 = (Inr b, s2)" "fs_faults s2 = []"
    using ensure_server_succeeds[OF assms(1,2) 1(2)] by blast
  obtain b' s3 where 3: "ensure_ingestor fp now (snd rnds) cfg s2 = (Inr b', s3)" "fs_faults s3 = []"
    using ensure_ingestor_succeeds[OF assms(1,3) 2(2)] by blast
  show ?thesis using 1 2 3 by (simp add: ensure_trust_files_def Let_def)
qed

section \<open>Properties\<close>

text \<open>A concrete site: an empty certificate directory, a CA and two key pairs to come.\<close>

definition example_root :: cert where
  "example_root = \<lparr>x_serial = ''01'', x_subject = ''ca'', x_issuer = ''ca'', x_not_before = 0,
     x_not_after = 7300 * day, x_is_ca = True, x_key_usage = [CertSign, CRLSign],
     x_ext_key_usage = [], x_dns_names = [], x_public_key = 7, x_signed_by = 7\<rparr>"

definition example_trust :: trust_file_config where
  "example_trust =
     \<lparr>tf_site_id = ''ste_s'', tf_tenant_id = ''tnt_t'', tf_cert_dir = ''/d'', tf_sni_hostname = ''s.t.org'',
      tf_master_key = replicate 32 (CHR 0x00), tf_ca_cert_pem = PemCert example_root,
      tf_ca_key_enc = Sealed (replicate 32 (CHR 0x00)) (replicate 12 (CHR ''n'')) (RsaDer 7),
      tf_ca_key_nonce = replicate 12 (CHR ''n'')\<rparr>"

definition example_rnd :: "nat \<Rightarrow> randomness" where
  "example_rnd k = \<lparr>rnd_key = Inr k, rnd_serial = ''02'', rnd_nonce = Inr (replicate 12 (CHR ''n''))\<rparr>"

definition empty_fs :: fs where
  "empty_fs = \<lparr>fs_files = Map.empty, fs_faults = []\<rparr>"

definition example_time :: instant where "example_time = 100 * day"

lemma example_load: "load_ca example_trust = Inr \<lparr>ca_cert_pem = PemCert example_root,
    ca_key_encrypted = tf_ca_key_enc example_trust, ca_key_nonce = tf_ca_key_nonce example_trust,
    ca_fingerprint = '''', ca_cert = Some example_root, ca_key = Some 7\<rparr>"
  by (simp add: load_ca_def example_trust_def parse_cert_def parse_cert_pem_def decrypt_key_def
      aes_gcm_decrypt_def gcm_open_def aes_key_size_ok_def)

lemmas ensure_defs = ensure_trust_files_def ensure_ca_file_def ensure_server_def ensure_ingestor_def
  write_pair_def write_pem_def issue_server_cert_def issue_leaf_cert_def create_certificate_def
  parse_cert_def

lemma example_first_run:
  "fst (ensure_trust_files fp example_time (example_rnd 1, example_rnd 2) example_trust empty_fs)
     = (None, \<lparr>server_rotated = True, ingestor_rotated = True\<rparr>)"
  "fs_faults (snd (ensure_trust_files fp example_time (example_rnd 1, example_rnd 2) example_trust empty_fs)) = []"
  by (simp_all add: ensure_defs os_defs needs_rotation_test rotation_test_def example_load Let_def
      empty_fs_def example_trust_def example_rnd_def example_root_def is_ascii_def
      load_ca_def parse_cert_def parse_cert_pem_def decrypt_key_def
      aes_gcm_decrypt_def gcm_open_def aes_key_size_ok_def)

text \<open>The example's directory after the first call: whatever the call left there.\<close>

definition example_disk :: "(cert \<Rightarrow> string) \<Rightarrow> fs" where
  "example_disk fp = snd (ensure_trust_files fp example_time (example_rnd 1, example_rnd 2) example_trust empty_fs)"

lemma example_disk: "ensure_trust_files fp example_time (example_rnd 1, example_rnd 2) example_trust empty_fs
    = ((None, \<lparr>server_rotated = True, ingestor_rotated = True\<rparr>), example_disk fp)"
  "fs_faults (example_disk fp) = []"
  using example_first_run by (simp_all add: example_disk_def prod_eq_iff)

lemma ensure_server_skips:
  assumes "ensure_server fp now rnd cfg s = (r, s')"
    and "rotation_test now (tf_ca_cert_pem cfg) (Some [tf_sni_hostname cfg])
      (fs_files s (dir_prefix [tf_cert_dir cfg] @ ''server.crt'')) = Inr None"
  shows "r \<noteq> Inr True \<and> fs_files s' = fs_files s"
proof -
  obtain x s1 where n: "needs_rotation now (dir_prefix [tf_cert_dir cfg] @ ''server.crt'')
      (Some (tf_ca_cert_pem cfg)) (Some [tf_sni_hostname cfg]) s = (x, s1)" by fastforce
  then show ?thesis
    using assms needs_rotation_result[of now _ _ _ s] needs_rotation_frame[OF n]
    by (cases x) (auto simp: ensure_server_def Let_def)
qed

text \<open>
  The pair of the server on disk: a certificate of the site's authority for its name, issued at
  \<open>now\<close>, and its key.
\<close>

definition server_pair :: "trust_file_config \<Rightarrow> cert \<Rightarrow> instant \<Rightarrow> cert \<Rightarrow> fs \<Rightarrow> bool" where
  "server_pair cfg root now c s \<longleftrightarrow>
     fs_files s (path_join [tf_cert_dir cfg, ''server.crt'']) = Some (PemCert c) \<and>
     fs_files s (path_join [tf_cert_dir cfg, ''server.key'']) = Some (PemKey (x_public_key c)) \<and>
     x_signed_by c = x_public_key root \<and> x_issuer c = x_subject root \<and> x_dns_names c = [tf_sni_hostname cfg] \<and>
     x_ext_key_usage c = [ServerAuth, ClientAuth] \<and> \<not> x_is_ca c \<and>
     x_not_before c = trunc_seconds (now - 5 * minute) \<and>
     x_not_after c = trunc_seconds (add_date server_ttl_years 0 (now - 5 * minute))"

lemma trust_files_parts:
  assumes "ensure_trust_files fp now rnds cfg s = ((e, r), s')"
  obtains (no_ca) x where "ensure_ca_file cfg s = (Inl x, s')" "\<not> server_rotated r"
  | (no_server) s1 x where "ensure_ca_file cfg s = (Inr (), s1)" "ensure_server fp now (fst rnds) cfg s1 = (Inl x, s')"
      "\<not> server_rotated r"
  | (past_server) s1 s2 x where "ensure_ca_file cfg s = (Inr (), s1)"
      "ensure_server fp now (fst rnds) cfg s1 = (Inr (server_rotated r), s2)" "ensure_ingestor fp now (snd rnds) cfg s2 = (x, s')"
  using assms by (auto simp: ensure_trust_files_def Let_def split: prod.splits sum.splits)

lemma rotation_gives_pair:
  assumes "ensure_trust_files fp now rnds cfg s = ((e, r), s')" "server_rotated r" "tf_ca_cert_pem cfg = PemCert root"
  shows "\<exists>c. server_pair cfg root now c s'"
  using assms(1)
proof (cases rule: trust_files_parts)
  case (past_server s1 s2 x)
  then have "ensure_server fp now (fst rnds) cfg s1 = (Inr True, s2)" using assms(2) by simp
  then show ?thesis
    by (rule ensure_server_rotated)
      (use past_server(3) assms(3) ensure_ingestor_frame[OF past_server(3)] in \<open>auto simp: server_pair_def\<close>)
qed (use assms(2) in simp_all)

text \<open>Neither a call that succeeds nor one that fails touches a pair that passes the test.\<close>

lemma server_pair_stays:
  assumes "ensure_trust_files fp t rnds cfg s = ((e, r), s')" "server_pair cfg root now c s"
    and "tf_ca_cert_pem cfg = PemCert root" "x_is_ca root" "x_ext_key_usage root = []" "cert_time_valid t root" "now \<le> t" "t \<le> now + 3600 * day"
  shows "\<not> server_rotated r \<and> server_pair cfg root now c s'"
proof -
  let ?d = "dir_prefix [tf_cert_dir cfg]"
  have keeps: "server_pair cfg root now c v'"
    if "server_pair cfg root now c v" "\<And>f. f \<in> {''server.crt'', ''server.key''} \<Longrightarrow> fs_files v' (?d @ f) = fs_files v (?d @ f)" for v v'
    using that by (simp add: server_pair_def)
  have test: "rotation_test t (tf_ca_cert_pem cfg) (Some [tf_sni_hostname cfg]) (fs_files v (?d @ ''server.crt'')) = Inr None"
    if "server_pair cfg root now c v" for v
    using that assms(3-8) server_cert_passes[of c root "tf_sni_hostname cfg" now t] by (simp add: server_pair_def)
  have ca: "server_pair cfg root now c v" if "ensure_ca_file cfg s = (x, v)" for x v
    using ensure_ca_file_frame[OF that] by (intro keeps[OF assms(2)]) auto
  from assms(1) show ?thesis
  proof (cases rule: trust_files_parts)
    case (no_ca x)
    then show ?thesis using ca by simp
  next
    case (no_server s1 x)
    then show ?thesis
      using ensure_server_skips[OF no_server(2) test[OF ca[OF no_server(1)]]] ca[OF no_server(1)] by (auto intro: keeps)
  next
    case (past_server s1 s2 x)
    then show ?thesis
      using ensure_server_skips[OF past_server(2) test[OF ca[OF past_server(1)]]] ca[OF past_server(1)]
        ensure_ingestor_frame[OF past_server(3)] by (auto intro: keeps)
  qed
qed

text \<open>
  The calls that follow, with their times and outcomes.  Between two of them anything may happen to
  the file system but to the pair of the server: other files come and go, calls are about to fail.
\<close>

inductive later_calls ::
  "(cert \<Rightarrow> string) \<Rightarrow> trust_file_config \<Rightarrow> fs \<Rightarrow> (instant \<times> pki_error option \<times> trust_file_result) list \<Rightarrow> fs \<Rightarrow> bool"
  for fp cfg s0
where
  none: "later_calls fp cfg s0 [] s0"
| call: "later_calls fp cfg s0 calls s1 \<Longrightarrow>
    (\<And>f. f \<in> {''server.crt'', ''server.key''} \<Longrightarrow>
       fs_files s2 (path_join [tf_cert_dir cfg, f]) = fs_files s1 (path_join [tf_cert_dir cfg, f])) \<Longrightarrow>
    ensure_trust_files fp t rnds cfg s2 = (r, s3) \<Longrightarrow> later_calls fp cfg s0 (calls @ [(t, r)]) s3"

text \<open>
  C2. A rotated server certificate stays: after a call of \<^verbatim>\<open>EnsureTrustFiles\<close> that issued a
  server certificate, no call in the next 3600 days issues another one, however many there are and
  whether they succeed or fail, as long as the site's authority (one without extended key usages, as the
  program makes them) is valid at their times, it and the name do not change, and nobody else changes
  the pair.  The pair on disk stays a matching pair of that authority for that name, for servers and
  clients, and it verifies against the authority whenever that is valid.
\<close>

theorem server_rotation_is_stable:
  assumes run: "ensure_trust_files fp now rnds cfg s = ((e, r), s')" "server_rotated r"
    and root: "tf_ca_cert_pem cfg = PemCert root" "x_is_ca root" "x_ext_key_usage root = []"
    and later: "later_calls fp cfg s' calls s''"
    and window: "\<forall>(t, _) \<in> set calls. now \<le> t \<and> t \<le> now + 3600 * day \<and> cert_time_valid t root"
  shows "(\<forall>(_, _, r') \<in> set calls. \<not> server_rotated r') \<and>
    (\<exists>c. fs_files s'' (path_join [tf_cert_dir cfg, ''server.crt'']) = Some (PemCert c) \<and>
         fs_files s'' (path_join [tf_cert_dir cfg, ''server.key'']) = Some (PemKey (x_public_key c)) \<and>
         x_signed_by c = x_public_key root \<and> x_dns_names c = [tf_sni_hostname cfg] \<and> \<not> x_is_ca c \<and>
         x_ext_key_usage c = [ServerAuth, ClientAuth] \<and>
         (\<forall>t. now \<le> t \<and> t \<le> now + 3600 * day \<and> cert_time_valid t root \<longrightarrow> cert_verify t [root] c))"
proof -
  obtain c where c: "server_pair cfg root now c s'" using rotation_gives_pair[OF run root(1)] by blast
  have "(\<forall>(_, _, r') \<in> set calls. \<not> server_rotated r') \<and> server_pair cfg root now c s''"
    using later window
  proof induction
    case (call calls s1 s2 t rnds x s3)
    have "server_pair cfg root now c s2" using call(2)[of "''server.crt''"] call(2)[of "''server.key''"] call by (simp add: server_pair_def)
    then show ?case
      using server_pair_stays[of fp t rnds cfg s2 "fst x" "snd x" s3 root now c] root call by auto
  qed (simp add: c)
  moreover have "cert_verify t [root] c" if "now \<le> t" "t \<le> now + 3600 * day" "cert_time_valid t root" for t
    using c root(2,3) server_cert_verifies[of c root now t] that by (simp add: server_pair_def)
  ultimately show ?thesis by (auto simp: server_pair_def)
qed

lemma example_ready: "trust_ready example_trust"
  by (simp add: trust_ready_def example_load) (simp add: example_trust_def is_ascii_def example_root_def)

lemma example_next_run:
  "fs_faults s = [] \<Longrightarrow> \<exists>r s'. ensure_trust_files fp t (example_rnd k, example_rnd k') example_trust s = ((None, r), s') \<and> fs_faults s' = []"
  using ensure_trust_files_succeeds[OF example_ready, of "(example_rnd k, example_rnd k')" k k' s fp t]
  by (simp add: example_rnd_def)

lemma example_second_run:
  "\<exists>r s. ensure_trust_files fp t (example_rnd 3, example_rnd 4) example_trust (example_disk fp) = ((None, r), s)"
  using example_next_run[OF example_disk(2)] by blast

text \<open>Two more calls that succeed, the next day and after 3600 days.\<close>

theorem server_rotation_is_stable_witness:
  "\<exists>r1 r2 s. later_calls (\<lambda>c. ''fp'') example_trust (example_disk (\<lambda>c. ''fp''))
      [(example_time + day, None, r1), (example_time + 3600 * day, None, r2)] s \<and> \<not> server_rotated r1 \<and> \<not> server_rotated r2"
proof -
  let ?fp = "\<lambda>c :: cert. ''fp''"
  obtain r1 s1 where 1: "ensure_trust_files ?fp (example_time + day) (example_rnd 3, example_rnd 4) example_trust (example_disk ?fp) = ((None, r1), s1)"
      "fs_faults s1 = []"
    using example_next_run[OF example_disk(2)] by blast
  obtain r2 s2 where 2: "ensure_trust_files ?fp (example_time + 3600 * day) (example_rnd 5, example_rnd 6) example_trust s1 = ((None, r2), s2)"
    using example_next_run[OF 1(2)] by blast
  have l: "later_calls ?fp example_trust (example_disk ?fp) [(example_time + day, None, r1), (example_time + 3600 * day, None, r2)] s2"
    using later_calls.call[OF later_calls.call[OF later_calls.none _ 1(1)] _ 2] by simp
  have "\<not> server_rotated r1 \<and> \<not> server_rotated r2"
    using server_rotation_is_stable[OF example_disk(1) _ _ _ _ l, of example_root]
    by (simp add: example_trust_def example_root_def cert_time_valid_def example_time_def day_eq)
  then show ?thesis using l by blast
qed

text \<open>
  C3. The ingestor certificate never passes its own rotation test: \<^verbatim>\<open>NeedsRotation\<close> verifies
  it with the default options, which ask for server authentication, and \<^verbatim>\<open>IssueLeafCert\<close>
  limits it to client authentication.  So a call of \<^verbatim>\<open>EnsureTrustFiles\<close> that follows one
  that issued an ingestor certificate issues another, however soon it comes.
\<close>

theorem ingestor_rotates_on_every_call:
  assumes "ensure_trust_files fp now rnds cfg s = ((None, r), s')" "ingestor_rotated r"
    and "ensure_trust_files fp t rnds' cfg s' = ((None, r'), s'')"
  shows "ingestor_rotated r'"
proof (rule ccontr)
  let ?p = "dir_prefix [tf_cert_dir cfg] @ ''ingestor.crt''"
  assume no: "\<not> ingestor_rotated r'"
  obtain s1 s2 where 1: "ensure_ingestor fp now (snd rnds) cfg s2 = (Inr (ingestor_rotated r), s')"
    by (rule ensure_trust_files_ok[OF assms(1)])
  obtain s3 s4 where 2: "ensure_ca_file cfg s' = (Inr (), s3)"
      "ensure_server fp t (fst rnds') cfg s3 = (Inr (server_rotated r'), s4)"
      "ensure_ingestor fp t (snd rnds') cfg s4 = (Inr (ingestor_rotated r'), s'')"
    by (rule ensure_trust_files_ok[OF assms(3)])
  have k: "fs_files s4 ?p = fs_files s' ?p"
    using ensure_ca_file_frame[OF 2(1), of ?p] ensure_server_frame[OF 2(2), of ?p] by auto
  have pass: "rotation_test t (tf_ca_cert_pem cfg) None (fs_files s' ?p) = Inr None"
    using ensure_ingestor_cases[OF 2(3)] no k by auto
  obtain c where c: "fs_files s' ?p = Some (PemCert c)" "x_ext_key_usage c = [ClientAuth]"
    using ensure_ingestor_rotated[of fp now "snd rnds" cfg s2 s'] 1 assms(2) by auto
  then show False
    using pass client_only_mismatch[of c]
    by (auto simp: rotation_test_def certs_of_pem_def parse_cert_pem_def split: blob.splits)
qed

theorem ingestor_rotates_on_every_call_witness:
  "\<exists>r s. ensure_trust_files (\<lambda>c. ''fp'') example_time (example_rnd 3, example_rnd 4)
      example_trust (example_disk (\<lambda>c. ''fp'')) = ((None, r), s) \<and> ingestor_rotated r"
proof -
  obtain r s where 2: "ensure_trust_files (\<lambda>c. ''fp'') example_time (example_rnd 3, example_rnd 4)
      example_trust (example_disk (\<lambda>c. ''fp'')) = ((None, r), s)"
    using example_second_run by blast
  then show ?thesis using ingestor_rotates_on_every_call[OF example_disk(1) _ 2] by simp
qed

text \<open>
  C4. A bundle of another authority is never replaced: when \<^verbatim>\<open>ca.crt\<close> already holds the
  certificate of an old CA with another key, a successful call of \<^verbatim>\<open>EnsureTrustFiles\<close> leaves it there, and a server
  certificate the call issues does not verify against the bundle on disk, at any time.
\<close>

theorem stale_ca_bundle_survives:
  assumes run: "ensure_trust_files fp now rnds cfg s = ((None, r), s')" "fs_faults s = []"
    and ca: "tf_ca_cert_pem cfg = PemCert root" "x_public_key old \<noteq> x_public_key root" "x_is_ca old"
    and disk: "fs_files s (path_join [tf_cert_dir cfg, ''ca.crt'']) = Some (PemCert old)"
  shows "fs_files s' (path_join [tf_cert_dir cfg, ''ca.crt'']) = Some (PemCert old) \<and>
    (server_rotated r \<longrightarrow>
       (\<exists>c. fs_files s' (path_join [tf_cert_dir cfg, ''server.crt'']) = Some (PemCert c) \<and>
            (\<forall>t. \<not> cert_verify t (certs_of_pem (PemCert old)) c)))"
proof -
  let ?d = "dir_prefix [tf_cert_dir cfg]"
  obtain s1 s2 where 1: "ensure_ca_file cfg s = (Inr (), s1)"
      "ensure_server fp now (fst rnds) cfg s1 = (Inr (server_rotated r), s2)"
      "ensure_ingestor fp now (snd rnds) cfg s2 = (Inr (ingestor_rotated r), s')"
    by (rule ensure_trust_files_ok[OF run(1)])
  have s1: "s1 = s" using ensure_ca_file_keeps[OF 1(1) _ run(2)] disk by simp
  have k: "fs_files s' (?d @ f) = fs_files s2 (?d @ f)" if "f \<in> {''server.crt'', ''ca.crt''}" for f
    using that ensure_ingestor_frame[OF 1(3), of "?d @ f"] by auto
  have "fs_files s2 (?d @ ''ca.crt'') = fs_files s (?d @ ''ca.crt'')"
    using ensure_server_frame[OF 1(2), of "?d @ ''ca.crt''"] s1 by auto
  moreover have "\<exists>c. fs_files s' (?d @ ''server.crt'') = Some (PemCert c) \<and>
      (\<forall>t. \<not> cert_verify t (certs_of_pem (PemCert old)) c)" if rot: "server_rotated r"
  proof -
    have "ensure_server fp now (fst rnds) cfg s1 = (Inr True, s2)" using 1(2) rot by simp
    then obtain c where c: "fs_files s2 (?d @ ''server.crt'') = Some (PemCert c)"
      "x_signed_by c = x_public_key root" "\<not> x_is_ca c"
      by (rule ensure_server_rotated) (simp add: ca(1))
    then show ?thesis
      using k ca(2,3) by (auto simp: cert_verify_def verify_for_def certs_of_pem_def)
  qed
  ultimately show ?thesis using k disk by simp
qed

definition example_stale_fs :: fs where
  "example_stale_fs =
     \<lparr>fs_files = [''/d/ca.crt'' \<mapsto> PemCert (example_root\<lparr>x_public_key := 8, x_signed_by := 8\<rparr>)], fs_faults = []\<rparr>"

theorem stale_ca_bundle_survives_witness:
  "\<exists>r s. ensure_trust_files (\<lambda>c. ''fp'') example_time (example_rnd 1, example_rnd 2)
      example_trust example_stale_fs = ((None, r), s) \<and>
    fs_files s ''/d/ca.crt'' = fs_files example_stale_fs ''/d/ca.crt''"
proof -
  obtain r s where 2: "ensure_trust_files (\<lambda>c. ''fp'') example_time (example_rnd 1, example_rnd 2)
      example_trust example_stale_fs = ((None, r), s)"
    using ensure_trust_files_succeeds[OF example_ready, of "(example_rnd 1, example_rnd 2)" 1 2 example_stale_fs
        "\<lambda>c. ''fp''" example_time]
    by (auto simp: example_rnd_def example_stale_fs_def)
  have d: "dir_prefix [''/d''] = ''/d/''"
    by (simp add: dir_prefix_def has_prefix_def Let_def)
  show ?thesis
    using 2 stale_ca_bundle_survives[OF 2, of example_root "example_root\<lparr>x_public_key := 8, x_signed_by := 8\<rparr>"]
    by (auto simp: example_stale_fs_def example_trust_def d) (simp_all add: example_root_def)
qed

text \<open>
  C5. A failed write of the key is never repaired: when a rotation of the server pair fails after
  the new certificate is in place (the write of \<^verbatim>\<open>server.key.tmp\<close> fails), the old key or none
  stays next to the new certificate, and for 3600 days every call without a fault finds
  nothing to rotate, because the test reads only the certificate.
\<close>

theorem failed_key_write_is_not_repaired:
  assumes "trust_ready cfg" "rnd_key rnd = Inr k" "fs_faults s = [None, None, None, Some f]"
    and "rotation_test now (tf_ca_cert_pem cfg) (Some [tf_sni_hostname cfg])
      (fs_files s (path_join [tf_cert_dir cfg, ''server.crt''])) = Inr (Some reason)"
    and root: "tf_ca_cert_pem cfg = PemCert root" "x_is_ca root" "x_ext_key_usage root = []"
      "cert_time_valid t root"
    and t: "now \<le> t" "t \<le> now + 3600 * day"
  shows "\<exists>e s'. ensure_server fp now rnd cfg s = (Inl e, s') \<and>
     ensure_server fp t rnd' cfg s' = (Inr False, s') \<and>
     fs_files s' (path_join [tf_cert_dir cfg, ''server.key''])
       = fs_files s (path_join [tf_cert_dir cfg, ''server.key''])"
proof -
  let ?d = "dir_prefix [tf_cert_dir cfg]"
  obtain a where a: "load_ca cfg = Inr a" "ca_cert a = Some root" "ca_key a = Some (x_public_key root)"
    "is_ascii (tf_sni_hostname cfg)"
    using root(1) by (auto intro: trust_ready_ca[OF assms(1)])
  obtain i where i: "issue_server_cert fp now rnd a [tf_sni_hostname cfg] = Inr i"
    using a assms(2) by (simp add: issue_server_cert_def parse_cert_done create_certificate_def Let_def)
  obtain c where c: "is_cert_pem i = PemCert c" "x_signed_by c = x_public_key root"
    "x_issuer c = x_subject root" "x_dns_names c = [tf_sni_hostname cfg]"
    "x_ext_key_usage c = [ServerAuth, ClientAuth]"
    "x_not_before c = trunc_seconds (now - 5 * minute)"
    "x_not_after c = trunc_seconds (add_date server_ttl_years 0 (now - 5 * minute))"
    by (rule issue_server_cert_ok[OF i a(2,3)])
  have n: "needs_rotation now (?d @ ''server.crt'') (Some (tf_ca_cert_pem cfg)) (Some [tf_sni_hostname cfg]) s
      = (Inr (Some reason), s\<lparr>fs_faults := [None, None, Some f]\<rparr>)"
    using assms(3,4)
    by (auto simp: needs_rotation_def rotation_test_def os_defs san_sets_equal_iff renew_window_days_def
        day_def algebra_simps split: option.splits sum.splits if_splits)
  define s' where "s' = snd (write_pair (?d @ ''server.crt'') (?d @ ''server.key'') i (s\<lparr>fs_faults := [None, None, Some f]\<rparr>))"
  have w: "\<exists>e. write_pair (?d @ ''server.crt'') (?d @ ''server.key'') i (s\<lparr>fs_faults := [None, None, Some f]\<rparr>) = (Inl e, s')"
    by (simp add: s'_def write_pair_def write_pem_def os_defs Let_def split: option.splits)
  have s': "fs_faults s' = []" "fs_files s' (?d @ ''server.crt'') = Some (PemCert c)"
      "fs_files s' (?d @ ''server.key'') = fs_files s (?d @ ''server.key'')"
    by (simp_all add: s'_def write_pair_def write_pem_def os_defs Let_def c(1) split: option.splits)
  have p: "rotation_test t (tf_ca_cert_pem cfg) (Some [tf_sni_hostname cfg]) (fs_files s' (?d @ ''server.crt'')) = Inr None"
    using server_cert_passes[OF c(2-7) root(2-4) t] root(1) s'(2) by simp
  have "ensure_server fp t rnd' cfg s' = (Inr False, s')"
    using p s'(1) by (simp add: ensure_server_def Let_def needs_rotation_test)
  moreover have "\<exists>e. ensure_server fp now rnd cfg s = (Inl e, s')"
    using w by (auto simp: ensure_server_def Let_def n a(1) i)
  ultimately show ?thesis using s'(3) by auto
qed

definition example_failing_fs :: fs where
  "example_failing_fs = \<lparr>fs_files = Map.empty,
     fs_faults = [None, None, None, Some \<lparr>fault_error = ''no space left on device'', fault_leftover = None\<rparr>]\<rparr>"

theorem failed_key_write_is_not_repaired_witness:
  "\<exists>e s'. ensure_server (\<lambda>c. ''fp'') example_time (example_rnd 1) example_trust example_failing_fs = (Inl e, s') \<and>
     ensure_server (\<lambda>c. ''fp'') (example_time + day) (example_rnd 2) example_trust s' = (Inr False, s')"
  using failed_key_write_is_not_repaired[OF example_ready, of "example_rnd 1" 1 example_failing_fs
      "\<lparr>fault_error = ''no space left on device'', fault_leftover = None\<rparr>" example_time Missing example_root
      "example_time + day" "\<lambda>c. ''fp''" "example_rnd 2"]
  by (auto simp: example_rnd_def example_failing_fs_def rotation_test_def example_trust_def example_root_def
      cert_time_valid_def example_time_def day_eq)

end
