(* ===== verification/AuditLog.thy ===== *)
theory AuditLog
  imports GoTime
begin

text \<open>
  Package \<^verbatim>\<open>internal/audit\<close>: the kinds of audit events, the event record and the interface of
  an emitter, with the emitter that discards everything.
\<close>

type_synonym kind = string

definition kind_tenant_create :: kind where "kind_tenant_create = ''tenant.create''"
definition kind_tenant_update :: kind where "kind_tenant_update = ''tenant.update''"
definition kind_tenant_delete :: kind where "kind_tenant_delete = ''tenant.delete''"
definition kind_tenant_migrate :: kind where "kind_tenant_migrate = ''tenant.migrate''"
definition kind_site_create :: kind where "kind_site_create = ''site.create''"
definition kind_site_update :: kind where "kind_site_update = ''site.update''"
definition kind_site_delete :: kind where "kind_site_delete = ''site.delete''"
definition kind_site_start :: kind where "kind_site_start = ''site.start''"
definition kind_site_stop :: kind where "kind_site_stop = ''site.stop''"
definition kind_reconciler_success :: kind where "kind_reconciler_success = ''reconciler.success''"
definition kind_reconciler_failure :: kind where "kind_reconciler_failure = ''reconciler.failure''"
definition kind_reconciler_backoff :: kind where "kind_reconciler_backoff = ''reconciler.backoff''"
definition kind_broker_restart :: kind where "kind_broker_restart = ''broker.listener_restart''"
definition kind_pki_rotate :: kind where "kind_pki_rotate = ''pki.rotate''"
definition kind_pki_issue_cert :: kind where "kind_pki_issue_cert = ''pki.cert_issue''"
definition kind_pki_revoke_cert :: kind where "kind_pki_revoke_cert = ''pki.cert_revoke''"
definition kind_migrate_apply :: kind where "kind_migrate_apply = ''migrate.apply''"
definition kind_token_create :: kind where "kind_token_create = ''token.create''"
definition kind_token_revoke :: kind where "kind_token_revoke = ''token.revoke''"

record event =
  ev_id :: int
  ev_kind :: kind
  ev_tenant_id :: string
  ev_site_id :: string
  ev_actor_ip :: string
  ev_detail :: string
  ev_success :: bool
  ev_project_id :: string
  ev_created_at :: instant

text \<open>An event as the callers write it: the identifier and the time are the store's.\<close>

definition new_event :: "kind \<Rightarrow> string \<Rightarrow> string \<Rightarrow> string \<Rightarrow> bool \<Rightarrow> string \<Rightarrow> event" where
  "new_event k tenant site detail success project =
     \<lparr>ev_id = 0, ev_kind = k, ev_tenant_id = tenant, ev_site_id = site, ev_actor_ip = '''',
      ev_detail = detail, ev_success = success, ev_project_id = project, ev_created_at = 0\<rparr>"

text \<open>
  The interface \<^verbatim>\<open>audit.Emitter\<close>.  A provider has a log of events; emitting either appends one
  record of the event's kind, tenant, site and outcome, or fails and leaves the log as it was, or
  (the discarding emitter) ignores it.  Nothing else the client can see, \<open>view\<close>, changes.
\<close>

definition same_event :: "event \<Rightarrow> event \<Rightarrow> bool" where
  "same_event a b \<longleftrightarrow> ev_kind a = ev_kind b \<and> ev_tenant_id a = ev_tenant_id b \<and>
     ev_site_id a = ev_site_id b \<and> ev_success a = ev_success b \<and> ev_project_id a = ev_project_id b"

locale emitter =
  fixes emit :: "event \<Rightarrow> 's \<Rightarrow> 'e option \<times> 's"
    and log :: "'s \<Rightarrow> event list"
    and view :: "'s \<Rightarrow> 'v"
  assumes emit_log: "emit ev s = (r, s') \<Longrightarrow> log s' = log s \<or> (\<exists>ev'. log s' = log s @ [ev'] \<and> same_event ev' ev)"
    and emit_fail: "emit ev s = (Some e, s') \<Longrightarrow> log s' = log s"
    and emit_view: "emit ev s = (r, s') \<Longrightarrow> view s' = view s"
begin

text \<open>Every caller drops the error: \<^verbatim>\<open>_ = emitter.Emit(...)\<close>.\<close>

definition emit_all :: "event list \<Rightarrow> 's \<Rightarrow> 's" where
  "emit_all evs s = fold (\<lambda>ev s. snd (emit ev s)) evs s"

lemma emit_all_view: "view (emit_all evs s) = view s"
  unfolding emit_all_def
proof (induction evs arbitrary: s)
  case (Cons ev evs)
  show ?case using Cons[of "snd (emit ev s)"] emit_view[of ev s] by (cases "emit ev s") simp
qed simp

lemma emit_all_log: "\<exists>new. log (emit_all evs s) = log s @ new \<and> length new \<le> length evs"
  unfolding emit_all_def
proof (induction evs arbitrary: s)
  case (Cons ev evs)
  obtain r s1 where 1: "emit ev s = (r, s1)" by fastforce
  obtain new where "log (fold (\<lambda>ev s. snd (emit ev s)) evs s1) = log s1 @ new" "length new \<le> length evs"
    using Cons by blast
  with emit_log[OF 1] 1 show ?case by fastforce
qed simp

lemma log_is_append_only: "take (length (log s)) (log (emit_all evs s)) = log s"
  using emit_all_log[of evs s] by auto

end

definition noop_emit :: "event \<Rightarrow> 's \<Rightarrow> unit option \<times> 's" where
  "noop_emit ev s = (None, s)"

interpretation noop: emitter noop_emit "\<lambda>s. []" "\<lambda>s. s"
  by unfold_locales (auto simp: noop_emit_def)

end
