(* ===== verification/Table.thy ===== *)
theory Table
  imports Prelude
begin

text \<open>
  Tables as lists of rows in insertion order, and the three ways SQL statements change them:
  insertion, update of the rows a predicate selects, and insert-or-update on a key.
\<close>

definition lookup :: "('r \<Rightarrow> 'k) \<Rightarrow> 'k \<Rightarrow> 'r list \<Rightarrow> 'r option" where
  "lookup key k rows = find (\<lambda>r. key r = k) rows"

definition has_key :: "('r \<Rightarrow> 'k) \<Rightarrow> 'k \<Rightarrow> 'r list \<Rightarrow> bool" where
  "has_key key k rows \<longleftrightarrow> list_ex (\<lambda>r. key r = k) rows"

definition update_rows :: "('r \<Rightarrow> bool) \<Rightarrow> ('r \<Rightarrow> 'r) \<Rightarrow> 'r list \<Rightarrow> 'r list" where
  "update_rows sel f rows = map (\<lambda>r. if sel r then f r else r) rows"

definition upsert :: "('r \<Rightarrow> 'k) \<Rightarrow> 'r \<Rightarrow> ('r \<Rightarrow> 'r) \<Rightarrow> 'r list \<Rightarrow> 'r list" where
  "upsert key new f rows =
     (if has_key key (key new) rows then update_rows (\<lambda>r. key r = key new) f rows else rows @ [new])"

definition matching :: "('r \<Rightarrow> bool) \<Rightarrow> 'r list \<Rightarrow> nat" where
  "matching sel rows = length (filter sel rows)"

lemma has_key_iff [row_simps]: "has_key key k rows \<longleftrightarrow> k \<in> key ` set rows"
  by (auto simp: has_key_def list_ex_iff)

lemma lookup_None [row_simps]: "lookup key k rows = None \<longleftrightarrow> k \<notin> key ` set rows"
  by (auto simp: lookup_def find_None_iff)

lemma lookup_Some: "lookup key k rows = Some r \<Longrightarrow> r \<in> set rows \<and> key r = k"
  by (auto simp: lookup_def find_Some_iff)

lemma lookup_append: "lookup key k (rows @ [r]) = (case lookup key k rows of None \<Rightarrow> if key r = k then Some r else None | Some x \<Rightarrow> Some x)"
  by (induction rows) (auto simp: lookup_def)

lemma lookup_unique: "distinct (map key rows) \<Longrightarrow> r \<in> set rows \<Longrightarrow> lookup key (key r) rows = Some r"
proof (induction rows)
  case (Cons a rows)
  then show ?case by (cases "a = r") (auto simp: lookup_def image_iff)
qed simp

lemma matching_0 [row_simps]: "matching sel rows = 0 \<longleftrightarrow> (\<forall>r \<in> set rows. \<not> sel r)"
  by (auto simp: matching_def filter_empty_conv)

lemma map_update_rows [row_simps]: "(\<And>r. sel r \<Longrightarrow> g (f r) = g r) \<Longrightarrow> map g (update_rows sel f rows) = map g rows"
  by (simp add: update_rows_def)

lemma image_update_rows [row_simps]:
  assumes "\<And>r. sel r \<Longrightarrow> g (f r) = g r"
  shows "g ` set (update_rows sel f rows) = g ` set rows"
proof -
  have "map g (update_rows sel f rows) = map g rows" using assms by (rule map_update_rows)
  then show ?thesis by (metis list.set_map)
qed

lemma set_update_rows: "set (update_rows sel f rows) = (\<lambda>r. if sel r then f r else r) ` set rows"
  by (simp add: update_rows_def)

lemma lookup_update_rows:
  assumes "\<And>r. key (f r) = key r"
  shows "lookup key k (update_rows sel f rows) = map_option (\<lambda>r. if sel r then f r else r) (lookup key k rows)"
  using assms by (induction rows) (auto simp: lookup_def update_rows_def)

lemma lookup_upsert:
  assumes "\<And>r. key (f r) = key r"
  shows "lookup key k (upsert key new f rows) =
    (if k = key new then Some (case lookup key k rows of None \<Rightarrow> new | Some r \<Rightarrow> f r) else lookup key k rows)"
proof (cases "has_key key (key new) rows")
  case True
  then obtain r where r: "lookup key (key new) rows = Some r"
    by (cases "lookup key (key new) rows") (auto simp: row_simps)
  have "lookup key k rows = Some x \<Longrightarrow> key x = k" for x using lookup_Some[of key k rows x] by simp
  then show ?thesis using True r
    by (cases "lookup key k rows")
      (auto simp: upsert_def lookup_update_rows[of key f, OF assms] split: option.splits)
next
  case False
  then have "lookup key (key new) rows = None" by (simp add: row_simps)
  then show ?thesis using False by (auto simp: upsert_def lookup_append split: option.splits)
qed

lemma distinct_upsert [row_simps]:
  assumes "\<And>r. key r = key new \<Longrightarrow> key (f r) = key r"
  shows "distinct (map key (upsert key new f rows)) = distinct (map key rows)"
  using assms map_update_rows[of "\<lambda>r. key r = key new" key f rows] by (auto simp: upsert_def has_key_iff)

lemma set_upsert: "r \<in> set (upsert key new f rows) \<Longrightarrow> r = new \<or> r \<in> set rows \<or> r \<in> f ` set rows"
  by (auto simp: upsert_def set_update_rows split: if_splits)

lemma keys_upsert [row_simps]:
  assumes "\<And>r. key r = key new \<Longrightarrow> key (f r) = key r"
  shows "key ` set (upsert key new f rows) = insert (key new) (key ` set rows)"
  using assms image_update_rows[of "\<lambda>r. key r = key new" key f rows] by (auto simp: upsert_def has_key_iff)

lemma distinct_map_filter_rows [simp]: "distinct (map key rows) \<Longrightarrow> distinct (map key (filter p rows))"
  by (rule distinct_map_filter)

lemma lookup_filter:
  "distinct (map key rows) \<Longrightarrow> lookup key k (filter p rows) =
     (case lookup key k rows of Some r \<Rightarrow> if p r then Some r else None | None \<Rightarrow> None)"
proof (induction rows)
  case (Cons a rows)
  have "find (\<lambda>r. key r = key a) (filter p rows) = None"
    using Cons.prems by (auto simp: find_None_iff) (metis imageI)
  then show ?case using Cons by (auto simp: lookup_def)
qed (simp add: lookup_def)

end
