(* ===== verification/Store.thy ===== *)
theory Store
  imports Table AuditLog Crypto "HOL-Library.Product_Lexorder"
begin

text \<open>
  Package \<^verbatim>\<open>internal/store/sqlite\<close>: the registry database.  A table is the list of its rows in
  insertion order, a statement a function on the database that fails when it violates a
  uniqueness or foreign-key constraint of the schema (\<^verbatim>\<open>migrations/0001_init.sql\<close>, enforcement
  on), and every call can also fail for reasons of its own: the state carries the outcomes the
  environment has in store for the calls to come.  The clock of the host is a field of the state.
\<close>

section \<open>The schema\<close>

record tenant_row =
  t_id :: string
  t_name :: string
  t_domain :: string
  t_retention :: string
  t_schema_version :: int
  t_status :: string
  t_project_id :: string
  t_created_at :: instant
  t_updated_at :: instant

text \<open>The stored row: the project tag, which may be \<^verbatim>\<open>NULL\<close>, and the other columns.\<close>

type_synonym stored_tenant = "string option \<times> tenant_row"

abbreviation st_id :: "stored_tenant \<Rightarrow> string" where "st_id x \<equiv> t_id (snd x)"

record site_row =
  s_id :: string
  s_tenant_id :: string
  s_broker_kind :: string
  s_throughput :: string
  s_direction :: string
  s_payload_codec :: string
  s_leaf_ttl_days :: int
  s_schema_version :: int
  s_status :: string
  s_created_at :: instant
  s_updated_at :: instant

record desired_state_row =
  d_project_id :: string
  d_tenant_id :: string
  d_site_id :: string
  d_state :: string
  d_config_hash :: string
  d_updated_at :: instant

record file_hash_row =
  f_project_id :: string
  f_file_path :: string
  f_content_hash :: string

record token_row =
  k_id :: string
  k_display_name :: string
  k_hash :: string
  k_prefix :: string
  k_revoked :: bool
  k_created_at :: instant
  k_revoked_at :: "instant option"

record tsdb_creds =
  c_tenant_id :: string
  c_superuser_name :: string
  c_superuser_pass :: string
  c_ingest_name :: string
  c_ingest_pass :: string

record ca_cert_row =
  a_site_id :: string
  a_cert_pem :: blob
  a_key_enc :: sealed
  a_key_nonce :: string
  a_fingerprint :: string
  a_not_before :: instant
  a_not_after :: instant
  a_created_at :: instant

record cert_row =
  r_id :: string
  r_site_id :: string
  r_kind :: string
  r_common_name :: string
  r_cert_pem :: blob
  r_fingerprint :: string
  r_not_before :: instant
  r_not_after :: instant
  r_revoked :: bool
  r_revoked_at :: "instant option"
  r_created_at :: instant

record emqx_api_key =
  e_site_id :: string
  e_key_id :: string
  e_key_secret :: string

record sql_fault =
  sf_message :: string
  sf_rows :: nat

record db =
  db_tenants :: "stored_tenant list"
  db_sites :: "site_row list"
  db_desired :: "desired_state_row list"
  db_hashes :: "file_hash_row list"
  db_events :: "event list"
  db_next_event :: int
  db_settings :: "(string \<times> string) list"
  db_tokens :: "token_row list"
  db_cas :: "ca_cert_row list"
  db_certs :: "cert_row list"
  db_emqx :: "emqx_api_key list"
  db_tsdb :: "tsdb_creds list"
  db_now :: instant
  db_faults :: "sql_fault option list"

definition empty_db :: "instant \<Rightarrow> db" where
  "empty_db now =
     \<lparr>db_tenants = [], db_sites = [], db_desired = [], db_hashes = [], db_events = [], db_next_event = 1,
      db_settings = [], db_tokens = [], db_cas = [], db_certs = [], db_emqx = [], db_tsdb = [],
      db_now = now, db_faults = []\<rparr>"

section \<open>Errors\<close>

datatype sql_error = UniqueFailed string | ForeignKeyFailed | SqlIO string

datatype store_error = ErrDuplicate | ErrNotFound | Wrapped string sql_error | Raw sql_error

definition sql_error_text :: "sql_error \<Rightarrow> string" where
  "sql_error_text e =
     (case e of
        UniqueFailed col \<Rightarrow> ''constraint failed: UNIQUE constraint failed: '' @ col
      | ForeignKeyFailed \<Rightarrow> ''constraint failed: FOREIGN KEY constraint failed (787)''
      | SqlIO m \<Rightarrow> m)"

definition is_sqlite_duplicate :: "sql_error \<Rightarrow> bool" where
  "is_sqlite_duplicate e = str_contains (sql_error_text e) ''UNIQUE constraint failed''"

section \<open>Statements and transactions\<close>

type_synonym stmt = "db \<Rightarrow> sql_error + (nat \<times> db)"

definition sql_point :: "db \<Rightarrow> sql_fault option \<times> db" where
  "sql_point db = (case db_faults db of [] \<Rightarrow> (None, db) | f # fs \<Rightarrow> (f, db\<lparr>db_faults := fs\<rparr>))"

definition sql_exec :: "stmt \<Rightarrow> db \<Rightarrow> (sql_error + nat) \<times> db" where
  "sql_exec st db =
     (case sql_point db of
        (Some f, db1) \<Rightarrow> (Inl (SqlIO (sf_message f)), db1)
      | (None, db1) \<Rightarrow>
          (case st db1 of Inl e \<Rightarrow> (Inl e, db1) | Inr (n, db2) \<Rightarrow> (Inr n, db2)))"

text \<open>A query that breaks off has delivered some of its rows; a query for one row has none.\<close>

definition sql_query :: "(db \<Rightarrow> 'r list) \<Rightarrow> db \<Rightarrow> (store_error option \<times> 'r list) \<times> db" where
  "sql_query q db =
     (case sql_point db of
        (Some f, db1) \<Rightarrow> ((Some (Raw (SqlIO (sf_message f))), take (sf_rows f) (q db1)), db1)
      | (None, db1) \<Rightarrow> ((None, q db1), db1))"

definition sql_query_row :: "(sql_error \<Rightarrow> store_error) \<Rightarrow> (db \<Rightarrow> 'r option) \<Rightarrow> db \<Rightarrow> (store_error + 'r) \<times> db" where
  "sql_query_row wrap q db =
     (case sql_point db of
        (Some f, db1) \<Rightarrow> (Inl (wrap (SqlIO (sf_message f))), db1)
      | (None, db1) \<Rightarrow> (case q db1 of None \<Rightarrow> Inl ErrNotFound | Some r \<Rightarrow> Inr r, db1))"

fun run_stmts :: "(string \<times> stmt) list \<Rightarrow> db \<Rightarrow> store_error option \<times> db" where
  "run_stmts [] db = (None, db)"
| "run_stmts ((what, st) # sts) db =
     (case sql_exec st db of
        (Inl e, db1) \<Rightarrow> (Some (Wrapped what e), db1)
      | (Inr _, db1) \<Rightarrow> run_stmts sts db1)"

definition rollback :: "db \<Rightarrow> db \<Rightarrow> db" where
  "rollback before after = before\<lparr>db_faults := db_faults after\<rparr>"

definition with_tx :: "string \<Rightarrow> (string \<times> stmt) list \<Rightarrow> db \<Rightarrow> (store_error + unit) \<times> db" where
  "with_tx what sts db =
     (case sql_point db of
        (Some f, db1) \<Rightarrow> (Inl (Wrapped what (SqlIO (sf_message f))), db1)
      | (None, db1) \<Rightarrow>
          (case run_stmts sts db1 of
             (Some e, db2) \<Rightarrow> (Inl e, rollback db1 db2)
           | (None, db2) \<Rightarrow>
               (case sql_point db2 of
                  (Some f, db3) \<Rightarrow> (Inl (Raw (SqlIO (sf_message f))), rollback db1 db3)
                | (None, db3) \<Rightarrow> (Inr (), db3))))"

definition stamp :: "db \<Rightarrow> instant" where
  "stamp db = trunc_millis (db_now db)"

text \<open>The four ways the operations turn a statement's outcome into their own.\<close>

definition raw_exec :: "stmt \<Rightarrow> db \<Rightarrow> (store_error + unit) \<times> db" where
  "raw_exec st db = (case sql_exec st db of (Inl e, db1) \<Rightarrow> (Inl (Raw e), db1) | (Inr _, db1) \<Rightarrow> (Inr (), db1))"

definition wrap_exec :: "string \<Rightarrow> stmt \<Rightarrow> db \<Rightarrow> (store_error + unit) \<times> db" where
  "wrap_exec what st db =
     (case sql_exec st db of (Inl e, db1) \<Rightarrow> (Inl (Wrapped what e), db1) | (Inr _, db1) \<Rightarrow> (Inr (), db1))"

definition insert_exec :: "string \<Rightarrow> stmt \<Rightarrow> db \<Rightarrow> (store_error + unit) \<times> db" where
  "insert_exec what st db =
     (case sql_exec st db of
        (Inl e, db1) \<Rightarrow> (Inl (if is_sqlite_duplicate e then ErrDuplicate else Wrapped what e), db1)
      | (Inr _, db1) \<Rightarrow> (Inr (), db1))"

definition update_exec :: "(sql_error \<Rightarrow> store_error) \<Rightarrow> stmt \<Rightarrow> db \<Rightarrow> (store_error + unit) \<times> db" where
  "update_exec wrap st db =
     (case sql_exec st db of
        (Inl e, db1) \<Rightarrow> (Inl (wrap e), db1)
      | (Inr n, db1) \<Rightarrow> (if n = 0 then Inl ErrNotFound else Inr (), db1))"

section \<open>Tenants\<close>

definition nullable_str :: "string \<Rightarrow> string option" where
  "nullable_str s = (if s = '''' then None else Some s)"

definition coalesce :: "string option \<Rightarrow> string" where
  "coalesce p = (case p of None \<Rightarrow> '''' | Some s \<Rightarrow> s)"

definition read_tenant :: "stored_tenant \<Rightarrow> tenant_row" where
  "read_tenant x = (snd x)\<lparr>t_project_id := coalesce (fst x)\<rparr>"

definition insert_tenant :: "tenant_row \<Rightarrow> stmt" where
  "insert_tenant t db =
     (if has_key st_id (t_id t) (db_tenants db) then Inl (UniqueFailed ''tenants.id'')
      else Inr (1, db\<lparr>db_tenants := db_tenants db @
        [(nullable_str (t_project_id t),
          t\<lparr>t_status := ''active'', t_project_id := '''', t_created_at := stamp db, t_updated_at := stamp db\<rparr>)]\<rparr>))"

definition create_tenant :: "tenant_row \<Rightarrow> db \<Rightarrow> (store_error + unit) \<times> db" where
  "create_tenant t = insert_exec ''create tenant'' (insert_tenant t)"

definition get_tenant :: "string \<Rightarrow> db \<Rightarrow> (store_error + tenant_row) \<times> db" where
  "get_tenant tid =
     sql_query_row (Wrapped ''get tenant'') (\<lambda>db. map_option read_tenant (lookup st_id tid (db_tenants db)))"

definition list_tenants_query :: "(stored_tenant \<Rightarrow> bool) \<Rightarrow> db \<Rightarrow> (store_error option \<times> tenant_row list) \<times> db" where
  "list_tenants_query sel =
     sql_query (\<lambda>db. map read_tenant (sort_key st_id (filter sel (db_tenants db))))"

definition list_tenants :: "db \<Rightarrow> (store_error option \<times> tenant_row list) \<times> db" where
  "list_tenants = list_tenants_query (\<lambda>x. True)"

definition list_tenants_filtered :: "string option \<Rightarrow> db \<Rightarrow> (store_error option \<times> tenant_row list) \<times> db" where
  "list_tenants_filtered project_filter =
     (case project_filter of
        None \<Rightarrow> list_tenants
      | Some f \<Rightarrow>
          if f = '''' then list_tenants_query (\<lambda>x. fst x = None \<or> fst x = Some '''')
          else list_tenants_query (\<lambda>x. fst x = Some f))"

definition update_tenant_stmt :: "string \<Rightarrow> (stored_tenant \<Rightarrow> stored_tenant) \<Rightarrow> stmt" where
  "update_tenant_stmt tid f db =
     Inr (matching (\<lambda>x. st_id x = tid) (db_tenants db),
          db\<lparr>db_tenants := update_rows (\<lambda>x. st_id x = tid)
               (\<lambda>x. let y = f x in (fst y, (snd y)\<lparr>t_updated_at := stamp db\<rparr>)) (db_tenants db)\<rparr>)"

definition update_tenant_project_id :: "string \<Rightarrow> string \<Rightarrow> db \<Rightarrow> (store_error + unit) \<times> db" where
  "update_tenant_project_id tid project =
     update_exec (Wrapped ''update tenant project_id'')
       (update_tenant_stmt tid (\<lambda>x. (nullable_str project, snd x)))"

definition update_tenant_status :: "string \<Rightarrow> string \<Rightarrow> db \<Rightarrow> (store_error + unit) \<times> db" where
  "update_tenant_status tid status =
     raw_exec (update_tenant_stmt tid (\<lambda>x. (fst x, (snd x)\<lparr>t_status := status\<rparr>)))"

definition update_tenant_retention :: "string \<Rightarrow> string \<Rightarrow> db \<Rightarrow> (store_error + unit) \<times> db" where
  "update_tenant_retention tid retention =
     update_exec (Wrapped ''update tenant retention'')
       (update_tenant_stmt tid (\<lambda>x. (fst x, (snd x)\<lparr>t_retention := retention\<rparr>)))"

text \<open>
  Deletion by statement.  A site takes its authority, its certificates and its API key with it
  (\<^verbatim>\<open>ON DELETE CASCADE\<close>), a tenant its database credentials; a tenant that a site still
  references cannot be deleted (\<^verbatim>\<open>ON DELETE RESTRICT\<close>).
\<close>

definition delete_desired_stmt :: "(desired_state_row \<Rightarrow> bool) \<Rightarrow> stmt" where
  "delete_desired_stmt sel db =
     Inr (matching sel (db_desired db), db\<lparr>db_desired := filter (\<lambda>d. \<not> sel d) (db_desired db)\<rparr>)"

definition delete_sites_stmt :: "(site_row \<Rightarrow> bool) \<Rightarrow> stmt" where
  "delete_sites_stmt sel db =
     (let gone = map s_id (filter sel (db_sites db))
      in Inr (length gone,
           db\<lparr>db_sites := filter (\<lambda>s. \<not> sel s) (db_sites db),
              db_cas := filter (\<lambda>a. a_site_id a \<notin> set gone) (db_cas db),
              db_certs := filter (\<lambda>r. r_site_id r \<notin> set gone) (db_certs db),
              db_emqx := filter (\<lambda>e. e_site_id e \<notin> set gone) (db_emqx db)\<rparr>))"

definition delete_tenant_stmt :: "string \<Rightarrow> stmt" where
  "delete_tenant_stmt tid db =
     (if has_key st_id tid (db_tenants db) \<and> has_key s_tenant_id tid (db_sites db) then Inl ForeignKeyFailed
      else Inr (matching (\<lambda>x. st_id x = tid) (db_tenants db),
        db\<lparr>db_tenants := filter (\<lambda>x. st_id x \<noteq> tid) (db_tenants db),
           db_tsdb := filter (\<lambda>c. c_tenant_id c \<noteq> tid) (db_tsdb db)\<rparr>))"

definition delete_tenant :: "string \<Rightarrow> bool \<Rightarrow> db \<Rightarrow> (store_error + unit) \<times> db" where
  "delete_tenant tid purge =
     (if purge then
        with_tx ''begin tx''
          [(''delete desired_state'', delete_desired_stmt (\<lambda>d. d_tenant_id d = tid)),
           (''delete tsdb desired_state'', delete_desired_stmt (\<lambda>d. d_project_id d = tid @ ''-tsdb'')),
           (''delete sites'', delete_sites_stmt (\<lambda>s. s_tenant_id s = tid)),
           (''delete tenant'', delete_tenant_stmt tid)]
      else raw_exec (update_tenant_stmt tid (\<lambda>x. (fst x, (snd x)\<lparr>t_status := ''orphaned''\<rparr>))))"

section \<open>Sites\<close>

definition insert_site :: "site_row \<Rightarrow> stmt" where
  "insert_site s db =
     (if has_key s_id (s_id s) (db_sites db) then Inl (UniqueFailed ''sites.id'')
      else if \<not> has_key st_id (s_tenant_id s) (db_tenants db) then Inl ForeignKeyFailed
      else Inr (1, db\<lparr>db_sites := db_sites db @
        [s\<lparr>s_status := ''active'', s_created_at := stamp db, s_updated_at := stamp db\<rparr>]\<rparr>))"

definition create_site :: "site_row \<Rightarrow> db \<Rightarrow> (store_error + unit) \<times> db" where
  "create_site s = insert_exec ''create site'' (insert_site s)"

definition get_site :: "string \<Rightarrow> db \<Rightarrow> (store_error + site_row) \<times> db" where
  "get_site sid = sql_query_row (Wrapped ''get site'') (\<lambda>db. lookup s_id sid (db_sites db))"

definition list_sites_by_tenant :: "string \<Rightarrow> db \<Rightarrow> (store_error option \<times> site_row list) \<times> db" where
  "list_sites_by_tenant tenant =
     sql_query (\<lambda>db. sort_key s_id (filter (\<lambda>s. s_tenant_id s = tenant) (db_sites db)))"

definition list_all_sites :: "db \<Rightarrow> (store_error option \<times> site_row list) \<times> db" where
  "list_all_sites = sql_query (\<lambda>db. sort_key (\<lambda>s. (s_tenant_id s, s_id s)) (db_sites db))"

definition update_site_stmt :: "string \<Rightarrow> (site_row \<Rightarrow> site_row) \<Rightarrow> stmt" where
  "update_site_stmt sid f db =
     Inr (matching (\<lambda>s. s_id s = sid) (db_sites db),
          db\<lparr>db_sites := update_rows (\<lambda>s. s_id s = sid) (\<lambda>s. (f s)\<lparr>s_updated_at := stamp db\<rparr>) (db_sites db)\<rparr>)"

definition delete_site :: "string \<Rightarrow> bool \<Rightarrow> db \<Rightarrow> (store_error + unit) \<times> db" where
  "delete_site sid purge =
     (if purge then
        with_tx ''begin tx''
          [(''delete desired_state'', delete_desired_stmt (\<lambda>d. d_site_id d = sid)),
           (''delete site'', delete_sites_stmt (\<lambda>s. s_id s = sid))]
      else raw_exec (update_site_stmt sid (\<lambda>s. s\<lparr>s_status := ''orphaned''\<rparr>)))"

definition update_site_status :: "string \<Rightarrow> string \<Rightarrow> db \<Rightarrow> (store_error + unit) \<times> db" where
  "update_site_status sid status = raw_exec (update_site_stmt sid (\<lambda>s. s\<lparr>s_status := status\<rparr>))"

definition update_site :: "string \<Rightarrow> string \<Rightarrow> string \<Rightarrow> db \<Rightarrow> (store_error + unit) \<times> db" where
  "update_site sid codec direction db =
     (if codec = '''' \<and> direction = '''' then (Inr (), db)
      else update_exec (Wrapped ''update site'')
        (update_site_stmt sid (\<lambda>s.
           let s1 = (if codec \<noteq> '''' then s\<lparr>s_payload_codec := codec\<rparr> else s)
           in if direction \<noteq> '''' then s1\<lparr>s_direction := direction\<rparr> else s1)) db)"

section \<open>Desired state and rendered hashes\<close>

definition upsert_desired_stmt :: "desired_state_row \<Rightarrow> stmt" where
  "upsert_desired_stmt d db =
     Inr (1, db\<lparr>db_desired :=
       upsert d_project_id (d\<lparr>d_updated_at := stamp db\<rparr>)
         (\<lambda>old. old\<lparr>d_state := d_state d, d_config_hash := d_config_hash d, d_updated_at := stamp db\<rparr>)
         (db_desired db)\<rparr>)"

definition upsert_desired_state :: "desired_state_row \<Rightarrow> db \<Rightarrow> (store_error + unit) \<times> db" where
  "upsert_desired_state d = raw_exec (upsert_desired_stmt d)"

definition get_desired_state :: "string \<Rightarrow> db \<Rightarrow> (store_error + desired_state_row) \<times> db" where
  "get_desired_state project = sql_query_row Raw (\<lambda>db. lookup d_project_id project (db_desired db))"

definition list_desired_states :: "db \<Rightarrow> (store_error option \<times> desired_state_row list) \<times> db" where
  "list_desired_states = sql_query (\<lambda>db. sort_key d_project_id (db_desired db))"

definition hash_key :: "file_hash_row \<Rightarrow> string \<times> string" where
  "hash_key r = (f_project_id r, f_file_path r)"

definition upsert_hash_stmt :: "string \<times> string \<Rightarrow> string \<Rightarrow> stmt" where
  "upsert_hash_stmt key hash db =
     Inr (1, db\<lparr>db_hashes :=
       upsert hash_key \<lparr>f_project_id = fst key, f_file_path = snd key, f_content_hash = hash\<rparr>
         (\<lambda>old. old\<lparr>f_content_hash := hash\<rparr>) (db_hashes db)\<rparr>)"

definition upsert_file_hash :: "string \<times> string \<Rightarrow> string \<Rightarrow> db \<Rightarrow> (store_error + unit) \<times> db" where
  "upsert_file_hash key hash = raw_exec (upsert_hash_stmt key hash)"

definition get_file_hash :: "string \<times> string \<Rightarrow> db \<Rightarrow> (store_error + string) \<times> db" where
  "get_file_hash key =
     sql_query_row Raw (\<lambda>db. map_option f_content_hash (lookup hash_key key (db_hashes db)))"

definition upsert_combined_hash :: "string \<Rightarrow> string \<Rightarrow> db \<Rightarrow> (store_error + unit) \<times> db" where
  "upsert_combined_hash project hash = upsert_file_hash (project, ''_combined'') hash"

definition get_combined_hash :: "string \<Rightarrow> db \<Rightarrow> (store_error + string) \<times> db" where
  "get_combined_hash project = get_file_hash (project, ''_combined'')"

section \<open>Audit events\<close>

text \<open>SQLite's \<^verbatim>\<open>LIKE\<close>: a percent sign stands for any text, an underscore for any character,
  letters match in either case.\<close>

fun like_match :: "string \<Rightarrow> string \<Rightarrow> bool" where
  "like_match [] s = (s = [])"
| "like_match (p # ps) [] = (p = CHR ''%'' \<and> like_match ps [])"
| "like_match (p # ps) (c # s) =
     (if p = CHR ''%'' then like_match ps (c # s) \<or> like_match (p # ps) s
      else (p = CHR ''_'' \<or> to_lower p = to_lower c) \<and> like_match ps s)"

definition insert_event :: "event \<Rightarrow> stmt" where
  "insert_event ev db =
     Inr (1, db\<lparr>db_events := db_events db @
           [ev\<lparr>ev_id := db_next_event db,
               ev_detail := (if ev_detail ev = '''' then ''{}'' else ev_detail ev),
               ev_created_at := stamp db\<rparr>],
         db_next_event := db_next_event db + 1\<rparr>)"

definition emit :: "event \<Rightarrow> db \<Rightarrow> store_error option \<times> db" where
  "emit ev db = (case sql_exec (insert_event ev) db of
     (Inl e, db1) \<Rightarrow> (Some (Raw e), db1) | (Inr _, db1) \<Rightarrow> (None, db1))"

text \<open>Events of one millisecond come newest first, as the scan of the index delivers them.\<close>

definition list_audit_events :: "string \<Rightarrow> int \<Rightarrow> db \<Rightarrow> (store_error option \<times> event list) \<times> db" where
  "list_audit_events kind_prefix limit =
     sql_query (\<lambda>db.
       let sel = (if kind_prefix \<noteq> '''' then filter (\<lambda>e. like_match (kind_prefix @ ''%'') (ev_kind e)) (db_events db)
                  else db_events db);
           ordered = sort_key (\<lambda>e. (- ev_created_at e, - ev_id e)) sel
       in if limit < 0 then ordered else take (nat limit) ordered)"

section \<open>Tokens\<close>

text \<open>The bytes of \<^verbatim>\<open>crypto/rand\<close> are arguments; an identifier ignores its read error.\<close>

definition must_new_uuid :: "string \<Rightarrow> string" where
  "must_new_uuid b =
     hex_encode (take 4 b) @ ''-'' @ hex_encode (take 2 (drop 4 b)) @ ''-'' @
     hex_encode (take 2 (drop 6 b)) @ ''-'' @ hex_encode (take 2 (drop 8 b)) @ ''-'' @
     hex_encode (drop 10 b)"

definition insert_token :: "token_row \<Rightarrow> stmt" where
  "insert_token k db =
     (if has_key k_id (k_id k) (db_tokens db) then Inl (UniqueFailed ''auth_tokens.id'')
      else if has_key k_hash (k_hash k) (db_tokens db) then Inl (UniqueFailed ''auth_tokens.hash'')
      else Inr (1, db\<lparr>db_tokens := db_tokens db @
        [k\<lparr>k_revoked := False, k_created_at := stamp db, k_revoked_at := None\<rparr>]\<rparr>))"

datatype token_error = TokenRandom string | TokenStore sql_error

text \<open>\<open>sha\<close> is SHA-256; the random source gives 32 bytes or fails.\<close>

definition create_token ::
  "(string \<Rightarrow> string) \<Rightarrow> string + string \<Rightarrow> string \<Rightarrow> string \<Rightarrow> db \<Rightarrow> (token_error + (string \<times> token_row)) \<times> db"
where
  "create_token sha rnd uuid_bytes display_name db =
     (case rnd of
        Inl e \<Rightarrow> (Inl (TokenRandom e), db)
      | Inr buf \<Rightarrow>
          let raw = hex_encode buf;
              row = \<lparr>k_id = must_new_uuid uuid_bytes, k_display_name = display_name,
                     k_hash = hex_encode (sha raw), k_prefix = take 8 raw, k_revoked = False,
                     k_created_at = 0, k_revoked_at = None\<rparr>
          in case sql_exec (insert_token row) db of
               (Inl e, db1) \<Rightarrow> (Inl (TokenStore e), db1)
             | (Inr _, db1) \<Rightarrow> (Inr (raw, row), db1))"

definition read_token :: "token_row \<Rightarrow> token_row" where
  "read_token k = k\<lparr>k_revoked_at := None\<rparr>"

definition lookup_token :: "(string \<Rightarrow> string) \<Rightarrow> string \<Rightarrow> db \<Rightarrow> (store_error + token_row) \<times> db" where
  "lookup_token sha raw db =
     (case sql_query_row Raw (\<lambda>db. map_option read_token (lookup k_hash (hex_encode (sha raw)) (db_tokens db))) db of
        (Inl e, db1) \<Rightarrow> (Inl e, db1)
      | (Inr k, db1) \<Rightarrow> (if k_revoked k then Inl ErrNotFound else Inr k, db1))"

definition list_tokens :: "db \<Rightarrow> (store_error option \<times> token_row list) \<times> db" where
  "list_tokens =
     sql_query (\<lambda>db. map read_token (sort_key k_created_at (filter (\<lambda>k. \<not> k_revoked k) (db_tokens db))))"

definition revoke_token_stmt :: "string \<Rightarrow> stmt" where
  "revoke_token_stmt tid db =
     Inr (matching (\<lambda>k. k_id k = tid \<and> \<not> k_revoked k) (db_tokens db),
          db\<lparr>db_tokens := update_rows (\<lambda>k. k_id k = tid \<and> \<not> k_revoked k)
               (\<lambda>k. k\<lparr>k_revoked := True, k_revoked_at := Some (stamp db)\<rparr>) (db_tokens db)\<rparr>)"

definition revoke_token :: "string \<Rightarrow> db \<Rightarrow> (store_error + unit) \<times> db" where
  "revoke_token tid = update_exec Raw (revoke_token_stmt tid)"

section \<open>Credentials, settings and keys\<close>

definition upsert_tsdb_stmt :: "tsdb_creds \<Rightarrow> stmt" where
  "upsert_tsdb_stmt c db =
     (if \<not> has_key c_tenant_id (c_tenant_id c) (db_tsdb db) \<and> \<not> has_key st_id (c_tenant_id c) (db_tenants db)
      then Inl ForeignKeyFailed
      else Inr (1, db\<lparr>db_tsdb := upsert c_tenant_id c
        (\<lambda>old. old\<lparr>c_superuser_pass := c_superuser_pass c, c_ingest_pass := c_ingest_pass c\<rparr>) (db_tsdb db)\<rparr>))"

definition upsert_tsdb_creds :: "tsdb_creds \<Rightarrow> db \<Rightarrow> (store_error + unit) \<times> db" where
  "upsert_tsdb_creds c = raw_exec (upsert_tsdb_stmt c)"

definition get_tsdb_creds :: "string \<Rightarrow> db \<Rightarrow> (store_error + tsdb_creds) \<times> db" where
  "get_tsdb_creds tenant = sql_query_row Raw (\<lambda>db. lookup c_tenant_id tenant (db_tsdb db))"

definition get_setting :: "string \<Rightarrow> db \<Rightarrow> (store_error + string) \<times> db" where
  "get_setting key = sql_query_row Raw (\<lambda>db. map_option snd (lookup fst key (db_settings db)))"

definition set_setting_stmt :: "string \<Rightarrow> string \<Rightarrow> stmt" where
  "set_setting_stmt key val db =
     Inr (1, db\<lparr>db_settings := upsert fst (key, val) (\<lambda>old. (fst old, val)) (db_settings db)\<rparr>)"

definition set_setting :: "string \<Rightarrow> string \<Rightarrow> db \<Rightarrow> (store_error + unit) \<times> db" where
  "set_setting key val = raw_exec (set_setting_stmt key val)"

definition upsert_emqx_stmt :: "emqx_api_key \<Rightarrow> stmt" where
  "upsert_emqx_stmt k db =
     (if \<not> has_key e_site_id (e_site_id k) (db_emqx db) \<and> \<not> has_key s_id (e_site_id k) (db_sites db)
      then Inl ForeignKeyFailed
      else Inr (1, db\<lparr>db_emqx := upsert e_site_id k
        (\<lambda>old. old\<lparr>e_key_id := e_key_id k, e_key_secret := e_key_secret k\<rparr>) (db_emqx db)\<rparr>))"

definition upsert_emqx_key :: "emqx_api_key \<Rightarrow> db \<Rightarrow> (store_error + unit) \<times> db" where
  "upsert_emqx_key k = raw_exec (upsert_emqx_stmt k)"

definition get_emqx_key :: "string \<Rightarrow> db \<Rightarrow> (store_error + emqx_api_key) \<times> db" where
  "get_emqx_key site = sql_query_row Raw (\<lambda>db. lookup e_site_id site (db_emqx db))"

section \<open>Authorities and certificates\<close>

definition store_ca_stmt :: "ca_cert_row \<Rightarrow> stmt" where
  "store_ca_stmt a db =
     (if \<not> has_key a_site_id (a_site_id a) (db_cas db) \<and> \<not> has_key s_id (a_site_id a) (db_sites db)
      then Inl ForeignKeyFailed
      else let nb = trunc_seconds (a_not_before a); na = trunc_seconds (a_not_after a)
           in Inr (1, db\<lparr>db_cas := upsert a_site_id
                (a\<lparr>a_not_before := nb, a_not_after := na, a_created_at := stamp db\<rparr>)
                (\<lambda>old. a\<lparr>a_not_before := nb, a_not_after := na, a_created_at := a_created_at old\<rparr>) (db_cas db)\<rparr>))"

definition store_ca_cert :: "ca_cert_row \<Rightarrow> db \<Rightarrow> (store_error + unit) \<times> db" where
  "store_ca_cert a = wrap_exec ''store CA'' (store_ca_stmt a)"

definition get_ca_cert :: "string \<Rightarrow> db \<Rightarrow> (store_error + ca_cert_row) \<times> db" where
  "get_ca_cert site = sql_query_row (Wrapped ''get CA'') (\<lambda>db. lookup a_site_id site (db_cas db))"

definition insert_cert :: "cert_row \<Rightarrow> stmt" where
  "insert_cert r db =
     (if has_key r_id (r_id r) (db_certs db) then Inl (UniqueFailed ''certs.id'')
      else if has_key r_fingerprint (r_fingerprint r) (db_certs db) then Inl (UniqueFailed ''certs.fingerprint'')
      else if \<not> has_key s_id (r_site_id r) (db_sites db) then Inl ForeignKeyFailed
      else Inr (1, db\<lparr>db_certs := db_certs db @
        [r\<lparr>r_not_before := trunc_seconds (r_not_before r), r_not_after := trunc_seconds (r_not_after r),
           r_revoked := False, r_revoked_at := None, r_created_at := stamp db\<rparr>]\<rparr>))"

definition store_cert :: "string \<Rightarrow> cert_row \<Rightarrow> db \<Rightarrow> (store_error + unit) \<times> db" where
  "store_cert uuid_bytes r =
     insert_exec ''store cert'' (insert_cert (if r_id r = '''' then r\<lparr>r_id := must_new_uuid uuid_bytes\<rparr> else r))"

definition read_cert :: "cert_row \<Rightarrow> cert_row" where
  "read_cert r = r\<lparr>r_revoked_at := None\<rparr>"

definition get_cert_by_fingerprint :: "string \<Rightarrow> db \<Rightarrow> (store_error + cert_row) \<times> db" where
  "get_cert_by_fingerprint fp =
     sql_query_row (Wrapped ''get cert by fingerprint'') (\<lambda>db. map_option read_cert (lookup r_fingerprint fp (db_certs db)))"

definition list_certs_by_site :: "string \<Rightarrow> string \<Rightarrow> db \<Rightarrow> (store_error option \<times> cert_row list) \<times> db" where
  "list_certs_by_site site kind =
     sql_query (\<lambda>db. map read_cert (sort_key (\<lambda>r. - r_created_at r)
       (filter (\<lambda>r. r_site_id r = site \<and> \<not> r_revoked r \<and> (kind \<noteq> '''' \<longrightarrow> r_kind r = kind)) (db_certs db))))"

definition revoke_cert_stmt :: "string \<Rightarrow> stmt" where
  "revoke_cert_stmt fp db =
     Inr (matching (\<lambda>r. r_fingerprint r = fp \<and> \<not> r_revoked r) (db_certs db),
          db\<lparr>db_certs := update_rows (\<lambda>r. r_fingerprint r = fp \<and> \<not> r_revoked r)
               (\<lambda>r. r\<lparr>r_revoked := True, r_revoked_at := Some (stamp db)\<rparr>) (db_certs db)\<rparr>)"

definition revoke_cert :: "string \<Rightarrow> db \<Rightarrow> (store_error + unit) \<times> db" where
  "revoke_cert fp = update_exec (Wrapped ''revoke cert'') (revoke_cert_stmt fp)"

text \<open>RFC 3339 texts in UTC with four-digit years compare as the instants they denote.\<close>

definition list_expiring_certs :: "int \<Rightarrow> db \<Rightarrow> (store_error option \<times> cert_row list) \<times> db" where
  "list_expiring_certs within_days =
     sql_query (\<lambda>db. map read_cert (sort_key r_not_after
       (filter (\<lambda>r. \<not> r_revoked r \<and> r_not_after r \<le> trunc_seconds (add_date 0 within_days (db_now db))) (db_certs db))))"

end
