(* ===== verification/StoreInv.thy ===== *)
theory StoreInv
  imports Store
begin

text \<open>
  The registry's invariant, the operations as a step relation and what follows: consistency of
  every reachable database, atomic purges, the filter on the project tag, token revocation, and
  the key-value contracts that the other components rely on.
\<close>

section \<open>The invariant\<close>

text \<open>Keys are unique, references resolve, and an absent project tag is stored as \<^verbatim>\<open>NULL\<close> only.\<close>

definition db_keys_ok :: "db \<Rightarrow> bool" where
  "db_keys_ok db \<longleftrightarrow>
     distinct (map st_id (db_tenants db)) \<and> distinct (map s_id (db_sites db)) \<and>
     distinct (map d_project_id (db_desired db)) \<and> distinct (map hash_key (db_hashes db)) \<and>
     distinct (map fst (db_settings db)) \<and>
     distinct (map k_id (db_tokens db)) \<and> distinct (map k_hash (db_tokens db)) \<and>
     distinct (map a_site_id (db_cas db)) \<and>
     distinct (map r_id (db_certs db)) \<and> distinct (map r_fingerprint (db_certs db)) \<and>
     distinct (map e_site_id (db_emqx db)) \<and> distinct (map c_tenant_id (db_tsdb db))"

definition db_refs_ok :: "db \<Rightarrow> bool" where
  "db_refs_ok db \<longleftrightarrow>
     s_tenant_id ` set (db_sites db) \<subseteq> st_id ` set (db_tenants db) \<and>
     a_site_id ` set (db_cas db) \<subseteq> s_id ` set (db_sites db) \<and>
     r_site_id ` set (db_certs db) \<subseteq> s_id ` set (db_sites db) \<and>
     e_site_id ` set (db_emqx db) \<subseteq> s_id ` set (db_sites db) \<and>
     c_tenant_id ` set (db_tsdb db) \<subseteq> st_id ` set (db_tenants db)"

definition db_events_ok :: "db \<Rightarrow> bool" where
  "db_events_ok db \<longleftrightarrow> distinct (map ev_id (db_events db)) \<and> (\<forall>e \<in> set (db_events db). ev_id e < db_next_event db)"

definition db_tags_ok :: "db \<Rightarrow> bool" where
  "db_tags_ok db \<longleftrightarrow> (\<forall>x \<in> set (db_tenants db). fst x \<noteq> Some '''' \<and> t_project_id (snd x) = '''')"

definition db_inv :: "db \<Rightarrow> bool" where
  "db_inv db \<longleftrightarrow> db_keys_ok db \<and> db_refs_ok db \<and> db_events_ok db \<and> db_tags_ok db"

lemmas db_inv_defs = db_inv_def db_keys_ok_def db_refs_ok_def db_events_ok_def db_tags_ok_def

lemma empty_db_inv [inv_intros]: "db_inv (empty_db now)"
  by (simp add: db_inv_defs empty_db_def)

lemma db_inv_faults [simp]: "db_inv (db\<lparr>db_faults := fs\<rparr>) = db_inv db"
  by (simp add: db_inv_defs)

lemma db_inv_now [simp]: "db_inv (db\<lparr>db_now := t\<rparr>) = db_inv db"
  by (simp add: db_inv_defs)

section \<open>Statements that keep an invariant\<close>

text \<open>
  A predicate on databases that the pending faults do not influence, and that a statement keeps
  when it succeeds, is kept by the calls built from the statement, whatever faults strike.
\<close>

locale db_predicate =
  fixes P :: "db \<Rightarrow> bool"
  assumes P_faults: "P (db\<lparr>db_faults := fs\<rparr>) = P db"
begin

definition keeps :: "stmt \<Rightarrow> bool" where
  "keeps st \<longleftrightarrow> (\<forall>db n db'. P db \<longrightarrow> st db = Inr (n, db') \<longrightarrow> P db')"

lemma sql_point_P: "sql_point db = (r, db') \<Longrightarrow> P db' = P db"
  by (auto simp: sql_point_def P_faults split: list.splits)

lemma sql_exec_P: "keeps st \<Longrightarrow> P db \<Longrightarrow> P (snd (sql_exec st db))"
  using sql_point_P[of db]
  by (auto simp: sql_exec_def keeps_def split: prod.splits option.splits sum.splits)

lemma raw_exec_P: "keeps st \<Longrightarrow> P db \<Longrightarrow> P (snd (raw_exec st db))"
  using sql_exec_P[of st db] by (auto simp: raw_exec_def split: prod.splits sum.splits)

lemma wrap_exec_P: "keeps st \<Longrightarrow> P db \<Longrightarrow> P (snd (wrap_exec w st db))"
  using sql_exec_P[of st db] by (auto simp: wrap_exec_def split: prod.splits sum.splits)

lemma insert_exec_P: "keeps st \<Longrightarrow> P db \<Longrightarrow> P (snd (insert_exec w st db))"
  using sql_exec_P[of st db] by (auto simp: insert_exec_def split: prod.splits sum.splits)

lemma update_exec_P: "keeps st \<Longrightarrow> P db \<Longrightarrow> P (snd (update_exec w st db))"
  using sql_exec_P[of st db] by (auto simp: update_exec_def split: prod.splits sum.splits)

lemma run_stmts_P: "\<forall>(w, st) \<in> set sts. keeps st \<Longrightarrow> P db \<Longrightarrow> P (snd (run_stmts sts db))"
proof (induction sts db rule: run_stmts.induct)
  case (2 w st sts db)
  then show ?case using sql_exec_P[of st db] by (auto split: prod.splits sum.splits)
qed simp

lemma with_tx_P:
  assumes "\<forall>(w, st) \<in> set sts. keeps st" "P db"
  shows "P (snd (with_tx what sts db))"
proof -
  have "sql_point db = (r, db1) \<Longrightarrow> P (snd (run_stmts sts db1))" for r db1
    using run_stmts_P[OF assms(1)] sql_point_P assms(2) by blast
  then show ?thesis
    using assms(2) sql_point_P
    by (auto simp: with_tx_def rollback_def P_faults split: prod.splits option.splits)
qed

lemma sql_query_P: "P (snd (sql_query q db)) = P db"
  using sql_point_P[of db] by (auto simp: sql_query_def split: prod.splits option.splits)

lemma sql_query_row_P: "P (snd (sql_query_row w q db)) = P db"
  using sql_point_P[of db] by (auto simp: sql_query_row_def split: prod.splits option.splits)

lemmas calls_P = raw_exec_P wrap_exec_P insert_exec_P update_exec_P with_tx_P

end

interpretation dbi: db_predicate db_inv
  by unfold_locales simp

section \<open>Every statement keeps the invariant\<close>

lemma ball_update_rows: "(\<forall>x \<in> set (update_rows sel f rows). Q x) \<longleftrightarrow> (\<forall>x \<in> set rows. Q (if sel x then f x else x))"
  by (simp only: set_update_rows ball_simps)

lemma refs_filter:
  "f ` set xs \<subseteq> g ` set ys \<Longrightarrow>
     f ` set (filter (\<lambda>x. f x \<notin> set (map g (filter sel ys))) xs) \<subseteq> g ` set (filter (\<lambda>y. \<not> sel y) ys)"
  by auto

lemma refs_filter_key:
  "f ` set xs \<subseteq> g ` set ys \<Longrightarrow> f ` set (filter (\<lambda>x. f x \<noteq> k) xs) \<subseteq> g ` set (filter (\<lambda>y. g y \<noteq> k) ys)"
  by auto

lemma refs_filter_unused:
  "f ` set xs \<subseteq> g ` set ys \<Longrightarrow> k \<notin> f ` set xs \<Longrightarrow> f ` set xs \<subseteq> g ` set (filter (\<lambda>y. g y \<noteq> k) ys)"
  by (auto simp: image_iff subset_iff) metis

lemma insert_tenant_keeps [inv_intros]: "dbi.keeps (insert_tenant t)"
  by (auto simp: dbi.keeps_def insert_tenant_def db_inv_defs has_key_iff nullable_str_def
      split: if_splits)

lemma update_tenant_keeps [inv_intros]:
  assumes "\<And>x. st_id (f x) = st_id x"
    and "\<And>x. fst x \<noteq> Some '''' \<and> t_project_id (snd x) = '''' \<Longrightarrow> fst (f x) \<noteq> Some '''' \<and> t_project_id (snd (f x)) = ''''"
  shows "dbi.keeps (update_tenant_stmt tid f)"
  using assms
  by (auto simp: dbi.keeps_def update_tenant_stmt_def db_inv_defs row_simps ball_update_rows Let_def)

lemma delete_desired_keeps [inv_intros]: "dbi.keeps (delete_desired_stmt sel)"
  by (auto simp: dbi.keeps_def delete_desired_stmt_def db_inv_defs)

lemma delete_sites_keeps [inv_intros]: "dbi.keeps (delete_sites_stmt sel)"
  unfolding dbi.keeps_def
proof (intro allI impI)
  fix db n db'
  assume i: "db_inv db" and d: "delete_sites_stmt sel db = Inr (n, db')"
  have e: "db' = (let gone = map s_id (filter sel (db_sites db)) in
      db\<lparr>db_sites := filter (\<lambda>s. \<not> sel s) (db_sites db),
         db_cas := filter (\<lambda>a. a_site_id a \<notin> set gone) (db_cas db),
         db_certs := filter (\<lambda>r. r_site_id r \<notin> set gone) (db_certs db),
         db_emqx := filter (\<lambda>e. e_site_id e \<notin> set gone) (db_emqx db)\<rparr>)"
    using d by (simp add: delete_sites_stmt_def Let_def)
  have "s_tenant_id ` set (filter (\<lambda>s. \<not> sel s) (db_sites db)) \<subseteq> st_id ` set (db_tenants db)"
    using i by (auto simp: db_inv_def db_refs_ok_def)
  then have "db_refs_ok db'"
    using i refs_filter[of a_site_id "db_cas db" s_id "db_sites db" sel]
      refs_filter[of r_site_id "db_certs db" s_id "db_sites db" sel]
      refs_filter[of e_site_id "db_emqx db" s_id "db_sites db" sel]
    unfolding db_inv_def db_refs_ok_def e Let_def
    by (simp del: set_map set_filter)
  moreover have "db_keys_ok db' \<and> db_events_ok db' \<and> db_tags_ok db'"
    using i unfolding e by (auto simp: db_inv_defs Let_def)
  ultimately show "db_inv db'" by (simp add: db_inv_def)
qed

lemma delete_tenant_keeps [inv_intros]: "dbi.keeps (delete_tenant_stmt tid)"
  unfolding dbi.keeps_def
proof (intro allI impI)
  fix db n db'
  assume i: "db_inv db" and d: "delete_tenant_stmt tid db = Inr (n, db')"
  have e: "db' = db\<lparr>db_tenants := filter (\<lambda>x. st_id x \<noteq> tid) (db_tenants db),
      db_tsdb := filter (\<lambda>c. c_tenant_id c \<noteq> tid) (db_tsdb db)\<rparr>"
    using d by (auto simp: delete_tenant_stmt_def split: if_splits)
  have u: "tid \<notin> s_tenant_id ` set (db_sites db)"
    using i d by (auto simp: delete_tenant_stmt_def db_inv_def db_refs_ok_def has_key_iff split: if_splits)
  have "db_keys_ok db' \<and> db_events_ok db' \<and> db_tags_ok db'"
    using i d by (auto simp: delete_tenant_stmt_def db_inv_defs split: if_splits)
  moreover have "db_refs_ok db'"
    using i refs_filter_unused[OF _ u, of st_id "db_tenants db"] refs_filter_key[of c_tenant_id "db_tsdb db" st_id "db_tenants db" tid]
    unfolding db_inv_def db_refs_ok_def e by (simp del: set_filter)
  ultimately show "db_inv db'" by (simp add: db_inv_def)
qed

lemma insert_site_keeps [inv_intros]: "dbi.keeps (insert_site s)"
  by (auto simp: dbi.keeps_def insert_site_def db_inv_defs has_key_iff split: if_splits)

lemma update_site_keeps [inv_intros]:
  assumes "\<And>s. s_id (f s) = s_id s" "\<And>s. s_tenant_id (f s) = s_tenant_id s"
  shows "dbi.keeps (update_site_stmt sid f)"
  using assms by (auto simp: dbi.keeps_def update_site_stmt_def db_inv_defs row_simps)

lemma upsert_desired_keeps [inv_intros]: "dbi.keeps (upsert_desired_stmt d)"
  by (auto simp: dbi.keeps_def upsert_desired_stmt_def db_inv_defs row_simps)

lemma upsert_hash_keeps [inv_intros]: "dbi.keeps (upsert_hash_stmt key h)"
  by (auto simp: dbi.keeps_def upsert_hash_stmt_def db_inv_defs row_simps hash_key_def distinct_upsert[of hash_key])

lemma insert_event_keeps [inv_intros]: "dbi.keeps (insert_event ev)"
  by (fastforce simp: dbi.keeps_def insert_event_def db_inv_defs)

lemma insert_token_keeps [inv_intros]: "dbi.keeps (insert_token k)"
  by (auto simp: dbi.keeps_def insert_token_def db_inv_defs has_key_iff split: if_splits)

lemma revoke_token_keeps [inv_intros]: "dbi.keeps (revoke_token_stmt tid)"
  by (auto simp: dbi.keeps_def revoke_token_stmt_def db_inv_defs row_simps)

lemma upsert_tsdb_keeps [inv_intros]: "dbi.keeps (upsert_tsdb_stmt c)"
  by (auto simp: dbi.keeps_def upsert_tsdb_stmt_def db_inv_defs row_simps split: if_splits)

lemma set_setting_keeps [inv_intros]: "dbi.keeps (set_setting_stmt key val)"
  by (auto simp: dbi.keeps_def set_setting_stmt_def db_inv_defs row_simps)

lemma upsert_emqx_keeps [inv_intros]: "dbi.keeps (upsert_emqx_stmt k)"
  by (auto simp: dbi.keeps_def upsert_emqx_stmt_def db_inv_defs row_simps split: if_splits)

lemma store_ca_keeps [inv_intros]: "dbi.keeps (store_ca_stmt a)"
  by (auto simp: dbi.keeps_def store_ca_stmt_def db_inv_defs Let_def row_simps split: if_splits)

lemma insert_cert_keeps [inv_intros]: "dbi.keeps (insert_cert r)"
  by (auto simp: dbi.keeps_def insert_cert_def db_inv_defs has_key_iff split: if_splits)

lemma revoke_cert_keeps [inv_intros]: "dbi.keeps (revoke_cert_stmt fp)"
  by (auto simp: dbi.keeps_def revoke_cert_stmt_def db_inv_defs row_simps)

section \<open>The operations as steps\<close>

text \<open>
  One rule per operation that writes, with any arguments and any pending faults; \<open>Env\<close> lets
  time pass and changes what the environment has in store.
\<close>

inductive db_step :: "db \<Rightarrow> db \<Rightarrow> bool" where
  Env: "db_step db (db\<lparr>db_now := t, db_faults := fs\<rparr>)"
| CreateTenant: "db_step db (snd (create_tenant t db))"
| UpdateTenantProjectID: "db_step db (snd (update_tenant_project_id tid p db))"
| UpdateTenantStatus: "db_step db (snd (update_tenant_status tid st db))"
| UpdateTenantRetention: "db_step db (snd (update_tenant_retention tid r db))"
| DeleteTenant: "db_step db (snd (delete_tenant tid purge db))"
| CreateSite: "db_step db (snd (create_site s db))"
| UpdateSite: "db_step db (snd (update_site sid codec dir db))"
| UpdateSiteStatus: "db_step db (snd (update_site_status sid st db))"
| DeleteSite: "db_step db (snd (delete_site sid purge db))"
| UpsertDesired: "db_step db (snd (upsert_desired_state d db))"
| UpsertHash: "db_step db (snd (upsert_file_hash key h db))"
| Emit: "db_step db (snd (emit ev db))"
| CreateToken: "db_step db (snd (create_token sha rnd uuid name db))"
| RevokeToken: "db_step db (snd (revoke_token kid db))"
| UpsertCreds: "db_step db (snd (upsert_tsdb_creds c db))"
| SetSetting: "db_step db (snd (set_setting key val db))"
| UpsertKey: "db_step db (snd (upsert_emqx_key k db))"
| StoreCA: "db_step db (snd (store_ca_cert a db))"
| StoreCert: "db_step db (snd (store_cert uuid r db))"
| RevokeCert: "db_step db (snd (revoke_cert fp db))"

lemma create_token_inv [inv_intros]: "db_inv db \<Longrightarrow> db_inv (snd (create_token sha rnd uuid name db))"
  using dbi.sql_exec_P[OF insert_token_keeps]
  by (auto simp: create_token_def Let_def split: sum.splits prod.splits) (metis snd_conv)+

lemma emit_inv [inv_intros]: "db_inv db \<Longrightarrow> db_inv (snd (emit ev db))"
  using dbi.sql_exec_P[OF insert_event_keeps, of db ev]
  by (auto simp: emit_def split: sum.splits prod.splits)

lemma delete_tenant_inv [inv_intros]: "db_inv db \<Longrightarrow> db_inv (snd (delete_tenant tid purge db))"
  by (auto simp: delete_tenant_def intro!: dbi.calls_P inv_intros)

lemma delete_site_inv [inv_intros]: "db_inv db \<Longrightarrow> db_inv (snd (delete_site sid purge db))"
  by (auto simp: delete_site_def intro!: dbi.calls_P inv_intros)

lemmas write_ops = create_tenant_def update_tenant_project_id_def update_tenant_status_def
  update_tenant_retention_def create_site_def update_site_def update_site_status_def
  upsert_desired_state_def upsert_file_hash_def revoke_token_def upsert_tsdb_creds_def
  set_setting_def upsert_emqx_key_def store_ca_cert_def store_cert_def revoke_cert_def

lemma write_inv [inv_intros]:
  assumes "db_inv db"
  shows "db_inv (snd (create_tenant t db))" "db_inv (snd (update_tenant_project_id tid p db))"
    "db_inv (snd (update_tenant_status tid st db))" "db_inv (snd (update_tenant_retention tid r db))"
    "db_inv (snd (create_site s db))" "db_inv (snd (update_site sid codec dir db))"
    "db_inv (snd (update_site_status sid st db))" "db_inv (snd (upsert_desired_state d db))"
    "db_inv (snd (upsert_file_hash key h db))" "db_inv (snd (revoke_token kid db))"
    "db_inv (snd (upsert_tsdb_creds c db))" "db_inv (snd (set_setting k v db))"
    "db_inv (snd (upsert_emqx_key ek db))" "db_inv (snd (store_ca_cert a db))"
    "db_inv (snd (store_cert uuid ce db))" "db_inv (snd (revoke_cert fp db))"
  using assms
  by (auto simp: write_ops Let_def nullable_str_def intro!: dbi.calls_P inv_intros)

lemma db_step_inv: "db_step db db' \<Longrightarrow> db_inv db \<Longrightarrow> db_inv db'"
  by (cases rule: db_step.cases) (auto intro: inv_intros)

lemma db_steps_inv: "db_step\<^sup>*\<^sup>* db db' \<Longrightarrow> db_inv db \<Longrightarrow> db_inv db'"
  by (induction rule: rtranclp_induct) (auto intro: db_step_inv)

text \<open>
  C6. The registry is consistent whatever happens: from an empty database no sequence of
  operations, with any arguments, any database failures at any point and any passage of time,
  reaches a state in which two rows of a table share a key, a site, certificate, authority, key
  or credential refers to a row that is gone, an audit event reuses an identifier, or an empty
  project tag is stored as text instead of \<^verbatim>\<open>NULL\<close>.
\<close>

theorem reachable_registry_consistent:
  assumes "db_step\<^sup>*\<^sup>* (empty_db now) db"
  shows "db_inv db"
  using assms empty_db_inv by (rule db_steps_inv)

definition example_tenant :: tenant_row where
  "example_tenant = \<lparr>t_id = ''tnt_a'', t_name = ''a'', t_domain = ''a.example.org'', t_retention = ''7d'',
     t_schema_version = 1, t_status = '''', t_project_id = ''proj'', t_created_at = 0, t_updated_at = 0\<rparr>"

theorem reachable_registry_consistent_witness:
  "db_inv (snd (delete_tenant ''tnt_a'' True (snd (create_tenant example_tenant (empty_db 0)))))"
proof -
  let ?d1 = "snd (create_tenant example_tenant (empty_db 0))"
  have "db_step (empty_db 0) ?d1" by (rule db_step.CreateTenant)
  moreover have "db_step ?d1 (snd (delete_tenant ''tnt_a'' True ?d1))" by (rule db_step.DeleteTenant)
  ultimately have "db_step\<^sup>*\<^sup>* (empty_db 0) (snd (delete_tenant ''tnt_a'' True ?d1))" by simp
  then show ?thesis by (rule reachable_registry_consistent)
qed

section \<open>Calls without a fault\<close>

lemma sql_point_quiet [simp]: "db_faults db = [] \<Longrightarrow> sql_point db = (None, db)"
  by (simp add: sql_point_def)

lemma sql_exec_quiet:
  "db_faults db = [] \<Longrightarrow> sql_exec st db = (case st db of Inl e \<Rightarrow> (Inl e, db) | Inr (n, db') \<Rightarrow> (Inr n, db'))"
  by (simp add: sql_exec_def)

lemma sql_query_quiet: "db_faults db = [] \<Longrightarrow> sql_query q db = ((None, q db), db)"
  by (simp add: sql_query_def)

lemma sql_query_row_quiet:
  "db_faults db = [] \<Longrightarrow> sql_query_row w q db = (case q db of None \<Rightarrow> Inl ErrNotFound | Some r \<Rightarrow> Inr r, db)"
  by (simp add: sql_query_row_def)

lemmas quiet = sql_exec_quiet sql_query_quiet sql_query_row_quiet

lemma is_sqlite_duplicate_iff [simp]:
  "is_sqlite_duplicate (UniqueFailed col)" "\<not> is_sqlite_duplicate ForeignKeyFailed"
proof -
  have "''constraint failed: UNIQUE constraint failed: '' @ col
      = ''constraint failed: '' @ ''UNIQUE constraint failed'' @ '': '' @ col" by simp
  then show "is_sqlite_duplicate (UniqueFailed col)"
    unfolding is_sqlite_duplicate_def sql_error_text_def str_contains_iff sql_error.case by blast
  show "\<not> is_sqlite_duplicate ForeignKeyFailed"
    by (simp add: is_sqlite_duplicate_def sql_error_text_def has_prefix_def)
qed

section \<open>Properties of the tenant table\<close>

text \<open>
  A tenant that was created is read back as it was given, with status \<^verbatim>\<open>active\<close>, the
  project tag intact (the empty tag through \<^verbatim>\<open>NULL\<close> and \<^verbatim>\<open>COALESCE\<close>) and both times the
  stamp of the insertion; creating it again reports a duplicate and changes nothing.
\<close>

lemma create_get_tenant:
  assumes "db_faults db = []" "t_id t \<notin> st_id ` set (db_tenants db)"
  shows "\<exists>db'. create_tenant t db = (Inr (), db') \<and>
    get_tenant (t_id t) db' =
      (Inr (t\<lparr>t_status := ''active'', t_created_at := stamp db, t_updated_at := stamp db\<rparr>), db') \<and>
    create_tenant t db' = (Inl ErrDuplicate, db') \<and>
    (\<forall>k. k \<noteq> t_id t \<longrightarrow> fst (get_tenant k db') = fst (get_tenant k db))"
proof -
  have n: "lookup st_id (t_id t) (db_tenants db) = None" using assms(2) by (simp add: row_simps)
  show ?thesis
    using assms n
    by (auto simp: create_tenant_def insert_exec_def insert_tenant_def get_tenant_def quiet has_key_iff
        lookup_append read_tenant_def nullable_str_def coalesce_def split: option.splits)
qed

lemma create_get_tenant_witness:
  "\<exists>db'. create_tenant example_tenant (empty_db 5000001) = (Inr (), db') \<and>
     fst (get_tenant ''tnt_a'' db') = Inr (example_tenant\<lparr>t_status := ''active'', t_created_at := 5000000, t_updated_at := 5000000\<rparr>)"
  using create_get_tenant[of "empty_db 5000001" example_tenant]
  by (auto simp: empty_db_def example_tenant_def stamp_def trunc_millis_def)

text \<open>
  Filtering by project is exact: for every consistent registry the filtered listing is the
  full listing restricted to the tenants whose tag is the one asked for, in the same order; the
  empty tag selects the untagged tenants.
\<close>

lemma filtered_listing_exact:
  assumes "db_inv db" "db_faults db = []"
  shows "list_tenants_filtered (Some p) db =
    ((None, filter (\<lambda>t. t_project_id t = p) (snd (fst (list_tenants db)))), db)
    \<and> list_tenants_filtered None db = list_tenants db"
proof -
  have "filter (\<lambda>t. t_project_id t = p) (map read_tenant xs) =
      map read_tenant (filter (\<lambda>x. if p = '''' then fst x = None \<or> fst x = Some '''' else fst x = Some p) xs)"
    if "set xs \<subseteq> set (db_tenants db)" for xs
    using that assms(1)
    by (induction xs) (auto simp: read_tenant_def coalesce_def db_inv_def db_tags_ok_def split: option.splits)
  from this[of "sort_key st_id (db_tenants db)"] show ?thesis
    using assms(2)
    by (auto simp: list_tenants_filtered_def list_tenants_def list_tenants_query_def quiet filter_sort)
qed

lemma filtered_listing_exact_witness:
  "snd (fst (list_tenants_filtered (Some ''proj'') (snd (create_tenant example_tenant (empty_db 0)))))
     = [example_tenant\<lparr>t_status := ''active''\<rparr>]"
proof -
  let ?d = "snd (create_tenant example_tenant (empty_db 0))"
  have "db_inv ?d" by (intro inv_intros)
  moreover have f: "db_faults ?d = []" "db_tenants ?d = [(Some ''proj'', example_tenant\<lparr>t_status := ''active'', t_project_id := ''''\<rparr>)]"
    by (simp_all add: create_tenant_def insert_exec_def insert_tenant_def quiet empty_db_def has_key_iff
        example_tenant_def nullable_str_def stamp_def trunc_millis_def)
  ultimately have "fst (list_tenants_filtered (Some ''proj'') ?d)
      = (None, filter (\<lambda>t. t_project_id t = ''proj'') (snd (fst (list_tenants ?d))))"
    using filtered_listing_exact[of ?d "''proj''"] by simp
  then show ?thesis
    by (simp add: list_tenants_def list_tenants_query_def quiet f read_tenant_def coalesce_def) (simp add: example_tenant_def)
qed

section \<open>Purges\<close>

definition same_data :: "db \<Rightarrow> db \<Rightarrow> bool" where
  "same_data a b \<longleftrightarrow> a = b\<lparr>db_faults := db_faults a\<rparr>"

lemma sql_point_same: "sql_point db = (r, db') \<Longrightarrow> same_data db' db"
  by (auto simp: sql_point_def same_data_def split: list.splits)

lemma same_data_trans: "same_data a b \<Longrightarrow> same_data b c \<Longrightarrow> same_data a c"
  unfolding same_data_def by (metis db.surjective db.update_convs(14) db.simps(14))

lemma same_data_rollback: "same_data before db \<Longrightarrow> same_data (rollback before after) db"
  unfolding same_data_def rollback_def by (metis db.surjective db.update_convs(14) db.simps(14))

lemma with_tx_atomic:
  assumes "with_tx what sts db = (Inl e, db')"
  shows "same_data db' db"
  using assms by (auto simp: with_tx_def split: prod.splits option.splits dest!: sql_point_same intro!: same_data_rollback)

lemma sql_exec_Inr: "sql_exec st db = (Inr n, db') \<Longrightarrow> \<exists>fs. st (db\<lparr>db_faults := fs\<rparr>) = Inr (n, db')"
  unfolding sql_exec_def sql_point_def
  by (auto split: prod.splits option.splits sum.splits list.splits) (metis db.surjective db.update_convs(14))+

text \<open>What is left of a registry after everything of a tenant, or of a site, is gone.\<close>

definition without_sites :: "(site_row \<Rightarrow> bool) \<Rightarrow> db \<Rightarrow> db" where
  "without_sites sel db =
     (let gone = s_id ` set (filter sel (db_sites db))
      in db\<lparr>db_sites := filter (\<lambda>s. \<not> sel s) (db_sites db),
            db_cas := filter (\<lambda>a. a_site_id a \<notin> gone) (db_cas db),
            db_certs := filter (\<lambda>r. r_site_id r \<notin> gone) (db_certs db),
            db_emqx := filter (\<lambda>e. e_site_id e \<notin> gone) (db_emqx db)\<rparr>)"

definition without_tenant :: "string \<Rightarrow> db \<Rightarrow> db" where
  "without_tenant tid db =
     (without_sites (\<lambda>s. s_tenant_id s = tid)
        (db\<lparr>db_desired := filter (\<lambda>d. d_tenant_id d \<noteq> tid \<and> d_project_id d \<noteq> tid @ ''-tsdb'') (db_desired db)\<rparr>))
       \<lparr>db_tenants := filter (\<lambda>x. st_id x \<noteq> tid) (db_tenants db),
        db_tsdb := filter (\<lambda>c. c_tenant_id c \<noteq> tid) (db_tsdb db)\<rparr>"

definition without_site :: "string \<Rightarrow> db \<Rightarrow> db" where
  "without_site sid db =
     without_sites (\<lambda>s. s_id s = sid) (db\<lparr>db_desired := filter (\<lambda>d. d_site_id d \<noteq> sid) (db_desired db)\<rparr>)"

lemma with_tx_Inr:
  assumes "with_tx what sts db = (Inr u, db')"
  obtains fs db1 where "run_stmts sts (db\<lparr>db_faults := fs\<rparr>) = (None, db1)" "same_data db' db1"
proof -
  have p: "sql_point d = (r, d') \<Longrightarrow> \<exists>fs. d' = d\<lparr>db_faults := fs\<rparr>" for d r d'
    by (cases "db_faults d") (auto simp: sql_point_def intro: exI[of _ "db_faults d"])
  obtain d1 d2 where 1: "sql_point db = (None, d1)" "run_stmts sts d1 = (None, d2)" "sql_point d2 = (None, db')"
    using assms by (auto simp: with_tx_def split: prod.splits option.splits)
  with p[OF 1(1)] show ?thesis using that sql_point_same by blast
qed

lemma run_stmts_Inr:
  assumes "run_stmts ((w, st) # sts) db = (None, db')"
  obtains n fs db1 where "st (db\<lparr>db_faults := fs\<rparr>) = Inr (n, db1)" "run_stmts sts db1 = (None, db')"
  using assms by (auto split: prod.splits sum.splits dest: sql_exec_Inr)

lemma purge_tenant_effect:
  assumes "delete_tenant tid True db = (Inr u, db')"
  shows "same_data db' (without_tenant tid db)"
proof -
  have "with_tx ''begin tx''
          [(''delete desired_state'', delete_desired_stmt (\<lambda>d. d_tenant_id d = tid)),
           (''delete tsdb desired_state'', delete_desired_stmt (\<lambda>d. d_project_id d = tid @ ''-tsdb'')),
           (''delete sites'', delete_sites_stmt (\<lambda>s. s_tenant_id s = tid)),
           (''delete tenant'', delete_tenant_stmt tid)] db = (Inr u, db')"
    using assms by (simp add: delete_tenant_def)
  then show ?thesis
    by (elim with_tx_Inr run_stmts_Inr)
      (auto simp: delete_desired_stmt_def delete_sites_stmt_def delete_tenant_stmt_def without_tenant_def
        without_sites_def same_data_def Let_def conj_commute split: if_splits)
qed

lemma purge_site_effect:
  assumes "delete_site sid True db = (Inr u, db')"
  shows "same_data db' (without_site sid db)"
proof -
  have "with_tx ''begin tx''
          [(''delete desired_state'', delete_desired_stmt (\<lambda>d. d_site_id d = sid)),
           (''delete site'', delete_sites_stmt (\<lambda>s. s_id s = sid))] db = (Inr u, db')"
    using assms by (simp add: delete_site_def)
  then show ?thesis
    by (elim with_tx_Inr run_stmts_Inr)
      (auto simp: delete_desired_stmt_def delete_sites_stmt_def without_sites_def without_site_def same_data_def Let_def)
qed

lemma purge_tenant_quiet:
  assumes "db_faults db = []"
  shows "fst (delete_tenant tid True db) = Inr ()"
  using assms
  by (auto simp: delete_tenant_def with_tx_def quiet delete_desired_stmt_def delete_sites_stmt_def
      delete_tenant_stmt_def Let_def has_key_iff)

lemma without_tenant_gone:
  assumes "db_inv db" "same_data db' (without_tenant tid db)"
  shows "tid \<notin> st_id ` set (db_tenants db')" "tid \<notin> s_tenant_id ` set (db_sites db')"
    "tid \<notin> c_tenant_id ` set (db_tsdb db')" "tid \<notin> d_tenant_id ` set (db_desired db')"
    "{a \<in> set (db_cas db'). \<exists>s \<in> set (db_sites db). s_id s = a_site_id a \<and> s_tenant_id s = tid} = {}"
    "{r \<in> set (db_certs db'). \<exists>s \<in> set (db_sites db). s_id s = r_site_id r \<and> s_tenant_id s = tid} = {}"
proof -
  have e: "db_tenants db' = db_tenants (without_tenant tid db)" "db_sites db' = db_sites (without_tenant tid db)"
    "db_tsdb db' = db_tsdb (without_tenant tid db)" "db_desired db' = db_desired (without_tenant tid db)"
    "db_cas db' = db_cas (without_tenant tid db)" "db_certs db' = db_certs (without_tenant tid db)"
    using assms(2) by (metis same_data_def db.ext_inject db.surjective db.update_convs(14))+
  show "tid \<notin> st_id ` set (db_tenants db')" "tid \<notin> s_tenant_id ` set (db_sites db')"
    "tid \<notin> c_tenant_id ` set (db_tsdb db')" "tid \<notin> d_tenant_id ` set (db_desired db')"
    by (auto simp: e without_tenant_def without_sites_def Let_def)
  show "{a \<in> set (db_cas db'). \<exists>s \<in> set (db_sites db). s_id s = a_site_id a \<and> s_tenant_id s = tid} = {}"
    "{r \<in> set (db_certs db'). \<exists>s \<in> set (db_sites db). s_id s = r_site_id r \<and> s_tenant_id s = tid} = {}"
    by (fastforce simp: e without_tenant_def without_sites_def Let_def image_iff)+
qed

text \<open>
  C7. A purge is all or nothing: \<^verbatim>\<open>DeleteTenant\<close> with \<^verbatim>\<open>purge\<close> either reports an error and leaves
  every table as it was, whichever of its six database calls failed, or removes exactly the
  tenant, its sites with their authorities, certificates and API keys, its credentials and its
  desired states, and keeps every other row; without a failure it succeeds, so the
  \<^verbatim>\<open>RESTRICT\<close> reference of the sites is never violated.
\<close>

theorem purge_all_or_nothing:
  "(case delete_tenant tid True db of
      (Inl e, db') \<Rightarrow> same_data db' db
    | (Inr _, db') \<Rightarrow> same_data db' (without_tenant tid db))
   \<and> (db_faults db = [] \<longrightarrow> fst (delete_tenant tid True db) = Inr ())"
  using purge_tenant_effect[of tid db] purge_tenant_quiet[of db tid] with_tx_atomic[of "''begin tx''" _ db]
  by (cases "delete_tenant tid True db") (auto simp: delete_tenant_def split: sum.splits)

theorem purge_all_or_nothing_witness:
  "fst (delete_tenant ''tnt_a'' True (snd (create_tenant example_tenant (empty_db 0)))) = Inr ()"
  using purge_all_or_nothing[of "snd (create_tenant example_tenant (empty_db 0))" "''tnt_a''"]
  by (simp add: create_tenant_def insert_exec_def insert_tenant_def quiet empty_db_def has_key_iff)

section \<open>Tokens\<close>

text \<open>
  The token with a given hash has a given identifier and, where asked for, is revoked.  No
  operation takes a token out of the table or back to life.
\<close>

definition token_entry :: "string \<Rightarrow> string \<Rightarrow> bool \<Rightarrow> db \<Rightarrow> bool" where
  "token_entry i h r db \<longleftrightarrow> 
     (case lookup k_hash h (db_tokens db) of None \<Rightarrow> False | Some k \<Rightarrow> k_id k = i \<and> (r \<longrightarrow> k_revoked k))"

interpretation tok: db_predicate "token_entry i h r" for i h r
  by unfold_locales (simp add: token_entry_def)

lemma same_tokens_keeps:
  assumes "\<And>db n db'. st db = Inr (n, db') \<Longrightarrow> db_tokens db' = db_tokens db"
  shows "tok.keeps i h r st"
  using assms by (fastforce simp: tok.keeps_def token_entry_def)

lemma insert_token_keeps_entry: "tok.keeps i h r (insert_token k)"
  by (auto simp: tok.keeps_def insert_token_def token_entry_def lookup_append split: if_splits option.splits)

lemma revoke_token_keeps_entry: "tok.keeps i h r (revoke_token_stmt tid)"
  by (auto simp: tok.keeps_def revoke_token_stmt_def token_entry_def lookup_update_rows split: option.splits)

lemmas stmts = insert_tenant_def update_tenant_stmt_def delete_desired_stmt_def delete_sites_stmt_def
  delete_tenant_stmt_def insert_site_def update_site_stmt_def upsert_desired_stmt_def upsert_hash_stmt_def
  insert_event_def upsert_tsdb_stmt_def set_setting_stmt_def upsert_emqx_stmt_def store_ca_stmt_def
  insert_cert_def revoke_cert_stmt_def

lemma other_stmts_keep_entry:
  "tok.keeps i h r (insert_tenant t)" "tok.keeps i h r (update_tenant_stmt tid f)" "tok.keeps i h r (delete_desired_stmt sd)"
  "tok.keeps i h r (delete_sites_stmt ss)" "tok.keeps i h r (delete_tenant_stmt tid)" "tok.keeps i h r (insert_site s)"
  "tok.keeps i h r (update_site_stmt sid g)" "tok.keeps i h r (upsert_desired_stmt d)" "tok.keeps i h r (upsert_hash_stmt hk hv)"
  "tok.keeps i h r (insert_event ev)" "tok.keeps i h r (upsert_tsdb_stmt c)" "tok.keeps i h r (set_setting_stmt sk sv)"
  "tok.keeps i h r (upsert_emqx_stmt ek)" "tok.keeps i h r (store_ca_stmt a)" "tok.keeps i h r (insert_cert ce)"
  "tok.keeps i h r (revoke_cert_stmt fp)"
  by (rule same_tokens_keeps, force simp: stmts Let_def split: if_splits)+

lemmas keep_entry = insert_token_keeps_entry revoke_token_keeps_entry other_stmts_keep_entry

lemma step_keeps_entry:
  assumes "db_step db db'" "token_entry i h r db"
  shows "token_entry i h r db'"
  using assms
proof (cases rule: db_step.cases)
  case (CreateToken sha rnd uuid name)
  then show ?thesis
    using assms(2) tok.sql_exec_P[OF insert_token_keeps_entry]
    by (auto simp: create_token_def Let_def split: sum.splits prod.splits) (metis snd_conv)+
next
  case (Emit ev)
  then show ?thesis
    using assms(2) tok.sql_exec_P[OF other_stmts_keep_entry(10), of i h r db ev]
    by (auto simp: emit_def split: sum.splits prod.splits)
next
  case (Env t fs)
  then show ?thesis using assms(2) by (simp add: token_entry_def)
qed (use assms(2) in \<open>auto simp: write_ops delete_tenant_def delete_site_def Let_def
       intro!: tok.calls_P keep_entry\<close>)

lemma steps_keep_entry: "db_step\<^sup>*\<^sup>* db db' \<Longrightarrow> token_entry i h r db \<Longrightarrow> token_entry i h r db'"
  by (induction rule: rtranclp_induct) (auto intro: step_keeps_entry)

lemma revoke_token_revokes:
  assumes "db_inv db" "token_entry i h False db" "revoke_token i db = (Inr (), db')"
  shows "token_entry i h True db'"
proof -
  obtain n fs where r: "revoke_token_stmt i (db\<lparr>db_faults := fs\<rparr>) = Inr (n, db')"
    using assms(3) by (auto simp: revoke_token_def update_exec_def split: prod.splits sum.splits if_splits dest!: sql_exec_Inr)
  then show ?thesis
    using assms(2) by (auto simp: token_entry_def revoke_token_stmt_def lookup_update_rows split: option.splits)
qed

lemma create_token_ok:
  assumes "create_token sha rnd uuid name db = (Inr (raw, row), db')"
  shows "lookup k_hash (hex_encode (sha raw)) (db_tokens db') = Some (row\<lparr>k_created_at := stamp db'\<rparr>)"
    "\<not> k_revoked row" "k_revoked_at row = None" "k_prefix row = take 8 raw" "k_hash row = hex_encode (sha raw)"
proof -
  obtain n fs where s: "insert_token row (db\<lparr>db_faults := fs\<rparr>) = Inr (n, db')" "k_hash row = hex_encode (sha raw)"
      "\<not> k_revoked row" "k_revoked_at row = None" "k_prefix row = take 8 raw"
    using assms by (auto simp: create_token_def Let_def split: sum.splits prod.splits dest!: sql_exec_Inr)
  then have "lookup k_hash (k_hash row) (db_tokens db) = None"
    by (simp add: insert_token_def row_simps split: if_splits)
  with s show "lookup k_hash (hex_encode (sha raw)) (db_tokens db') = Some (row\<lparr>k_created_at := stamp db'\<rparr>)"
    "\<not> k_revoked row" "k_revoked_at row = None" "k_prefix row = take 8 raw" "k_hash row = hex_encode (sha raw)"
    by (auto simp: insert_token_def lookup_append stamp_def split: if_splits)
qed

lemma revoked_not_found: "token_entry i (hex_encode (sha raw)) True db \<Longrightarrow> fst (lookup_token sha raw db) \<noteq> Inr k"
  using tok.sql_point_P[of db _ _ i "hex_encode (sha raw)" True]
  by (auto simp: token_entry_def lookup_token_def sql_query_row_def read_token_def split: prod.splits option.splits)

text \<open>
  C8. A fresh token authenticates until it is revoked and never again: after \<^verbatim>\<open>CreateToken\<close> the
  raw token is found, and the row keeps no more of it than its hash and first eight characters;
  once \<^verbatim>\<open>RevokeToken\<close> has succeeded, at whatever later time, no sequence of operations, failures
  and new tokens makes \<^verbatim>\<open>LookupToken\<close> return a row for it.
\<close>

theorem token_lifecycle:
  assumes "db_inv db" "create_token sha rnd uuid name db = (Inr (raw, row), db1)"
  shows "(db_faults db1 = [] \<longrightarrow> fst (lookup_token sha raw db1) = Inr (row\<lparr>k_created_at := stamp db1\<rparr>)) \<and>
    k_prefix row = take 8 raw \<and> k_hash row = hex_encode (sha raw) \<and>
    (\<forall>db2 db3 db4 k. db_step\<^sup>*\<^sup>* db1 db2 \<longrightarrow> revoke_token (k_id row) db2 = (Inr (), db3) \<longrightarrow>
       db_step\<^sup>*\<^sup>* db3 db4 \<longrightarrow> fst (lookup_token sha raw db4) \<noteq> Inr k)"
proof (intro conjI allI impI)
  note c = create_token_ok[OF assms(2)]
  show "k_prefix row = take 8 raw" "k_hash row = hex_encode (sha raw)" by (rule c)+
  show "fst (lookup_token sha raw db1) = Inr (row\<lparr>k_created_at := stamp db1\<rparr>)" if "db_faults db1 = []"
    using that c by (simp add: lookup_token_def quiet read_token_def)
  fix db2 db3 db4 k
  assume s: "db_step\<^sup>*\<^sup>* db1 db2" "revoke_token (k_id row) db2 = (Inr (), db3)" "db_step\<^sup>*\<^sup>* db3 db4"
  have "db_inv db1" using create_token_inv[OF assms(1), of sha rnd uuid name] assms(2) by simp
  moreover have "token_entry (k_id row) (hex_encode (sha raw)) False db2"
    by (rule steps_keep_entry[OF s(1)]) (simp add: token_entry_def c(1))
  ultimately have "token_entry (k_id row) (hex_encode (sha raw)) True db3"
    using s(1,2) by (blast intro: revoke_token_revokes db_steps_inv)
  then have "token_entry (k_id row) (hex_encode (sha raw)) True db4" by (rule steps_keep_entry[OF s(3)])
  then show "fst (lookup_token sha raw db4) \<noteq> Inr k" by (rule revoked_not_found)
qed

text \<open>A token in an otherwise empty registry; the identity stands for the digest.\<close>

definition example_token :: "(token_error + (string \<times> token_row)) \<times> db" where
  "example_token = create_token (\<lambda>s. s) (Inr (replicate 32 (CHR ''A''))) (replicate 16 (CHR ''B'')) ''ops'' (empty_db 0)"

lemma example_token:
  obtains raw row db1 where "example_token = (Inr (raw, row), db1)" "db_faults db1 = []"
    "\<exists>db2. revoke_token (k_id row) db1 = (Inr (), db2)"
  by (simp add: example_token_def create_token_def Let_def quiet insert_token_def empty_db_def has_key_iff
      revoke_token_def update_exec_def revoke_token_stmt_def matching_def)

theorem token_lifecycle_witness:
  "\<exists>raw row db1 db2. example_token = (Inr (raw, row), db1) \<and>
     (\<exists>k. fst (lookup_token (\<lambda>s. s) raw db1) = Inr k) \<and>
     revoke_token (k_id row) db1 = (Inr (), db2) \<and> (\<forall>k. fst (lookup_token (\<lambda>s. s) raw db2) \<noteq> Inr k)"
proof -
  obtain raw row db1 db2 where e: "example_token = (Inr (raw, row), db1)" "db_faults db1 = []"
      "revoke_token (k_id row) db1 = (Inr (), db2)"
    by (rule example_token) blast
  then show ?thesis
    using token_lifecycle[OF empty_db_inv e(1)[unfolded example_token_def]] by blast
qed

section \<open>Key-value contracts\<close>

text \<open>
  What the reconciler and the provisioning code rely on: a table seen as a partial map
  \<open>peek\<close>, read by \<open>get\<close> and written by \<open>put\<close>, where a failing call changes nothing.
\<close>

locale kv_store =
  fixes get :: "'k \<Rightarrow> db \<Rightarrow> (store_error + 'v) \<times> db"
    and put :: "'k \<Rightarrow> 'v \<Rightarrow> db \<Rightarrow> (store_error + unit) \<times> db"
    and peek :: "db \<Rightarrow> 'k \<Rightarrow> 'v option"
  assumes get_found: "get k db = (Inr v, db') \<Longrightarrow> peek db k = Some v"
    and get_missing: "get k db = (Inl ErrNotFound, db') \<Longrightarrow> peek db k = None"
    and get_same: "get k db = (r, db') \<Longrightarrow> peek db' = peek db"
    and get_quiet: "db_faults db = [] \<Longrightarrow> get k db = (case peek db k of None \<Rightarrow> Inl ErrNotFound | Some v \<Rightarrow> Inr v, db)"
    and put_ok: "put k v db = (Inr u, db') \<Longrightarrow> peek db' = (peek db)(k \<mapsto> v)"
    and put_failed: "put k v db = (Inl e, db') \<Longrightarrow> peek db' = peek db"
    and put_quiet: "put k v db = (w, db') \<Longrightarrow> db_faults db = [] \<Longrightarrow> db_faults db' = []"
begin

lemma read_your_write: "put k v db = (Inr u, db') \<Longrightarrow> db_faults db' = [] \<Longrightarrow> get k db' = (Inr v, db')"
  by (simp add: get_quiet put_ok)

lemma other_keys: "put k v db = (r, db') \<Longrightarrow> k' \<noteq> k \<Longrightarrow> peek db' k' = peek db k'"
  by (cases r) (auto simp: put_ok put_failed)

text \<open>Writes in sequence: the map ends up with every successful write, last one winning.\<close>

fun put_all :: "('k \<times> 'v) list \<Rightarrow> db \<Rightarrow> ('k \<times> 'v) list \<times> db" where
  "put_all [] db = ([], db)"
| "put_all ((k, v) # kvs) db =
     (case put k v db of
        (Inl e, db1) \<Rightarrow> put_all kvs db1
      | (Inr _, db1) \<Rightarrow> let (done, db2) = put_all kvs db1 in ((k, v) # done, db2))"

lemma put_all_peek: "put_all kvs db = (done, db') \<Longrightarrow> peek db' = fold (\<lambda>(k, v) m. m(k \<mapsto> v)) done (peek db)"
  by (induction kvs db arbitrary: "done" db' rule: put_all.induct)
    (auto simp: put_ok put_failed split: prod.splits sum.splits)

lemma untouched_keys:
  assumes "put_all kvs db = (done, db')" "k \<notin> fst ` set kvs"
  shows "peek db' k = peek db k"
  using assms
  by (induction kvs db arbitrary: "done" db' rule: put_all.induct)
    (auto simp: put_ok put_failed split: prod.splits sum.splits)

end

lemma raw_exec_cases:
  assumes "raw_exec st db = (r, db')"
  obtains (ok) n fs where "r = Inr ()" "st (db\<lparr>db_faults := fs\<rparr>) = Inr (n, db')"
  | (fail) e fs where "r = Inl (Raw e)" "db' = db\<lparr>db_faults := fs\<rparr>"
proof (cases "sql_exec st db")
  case (Pair r1 db1)
  have p: "sql_point db = (f, d) \<Longrightarrow> \<exists>fs. d = db\<lparr>db_faults := fs\<rparr>" for f d
    by (cases "db_faults db") (auto simp: sql_point_def intro: exI[of _ "db_faults db"])
  show ?thesis
  proof (cases r1)
    case (Inl e)
    then show ?thesis using assms Pair p fail
      by (auto simp: raw_exec_def sql_exec_def split: prod.splits option.splits sum.splits)
  next
    case (Inr n)
    then show ?thesis using assms Pair ok sql_exec_Inr[of st db n db1] by (auto simp: raw_exec_def)
  qed
qed

lemma sql_point_field: "sql_point db = (f, d) \<Longrightarrow> \<exists>fs. d = db\<lparr>db_faults := fs\<rparr>"
  by (cases "db_faults db") (auto simp: sql_point_def intro: exI[of _ "db_faults db"])

lemma query_row_found:
  assumes "sql_query_row w q db = (Inr v, db')" "\<And>fs. q (db\<lparr>db_faults := fs\<rparr>) = q db"
  shows "q db = Some v"
  using assms sql_point_field[of db]
  by (auto simp: sql_query_row_def split: prod.splits option.splits)

lemma query_row_missing:
  assumes "sql_query_row w q db = (Inl ErrNotFound, db')" "\<And>fs. q (db\<lparr>db_faults := fs\<rparr>) = q db"
    and "\<And>e. w e \<noteq> ErrNotFound"
  shows "q db = None"
  using assms sql_point_field[of db]
  by (auto simp: sql_query_row_def split: prod.splits option.splits)

lemma query_row_state: "sql_query_row w q db = (r, db') \<Longrightarrow> \<exists>fs. db' = db\<lparr>db_faults := fs\<rparr>"
  using sql_point_field[of db]
  by (auto simp: sql_query_row_def split: prod.splits option.splits)

interpretation hashes: kv_store get_file_hash upsert_file_hash
    "\<lambda>db k. map_option f_content_hash (lookup hash_key k (db_hashes db))"
proof (unfold_locales, goal_cases)
  case (1 k db v db')
  show ?case by (rule query_row_found[OF 1[unfolded get_file_hash_def]]) simp
next
  case (2 k db db')
  show ?case by (rule query_row_missing[OF 2[unfolded get_file_hash_def]]) simp_all
next
  case (3 k db r db')
  then show ?case using query_row_state[of Raw] by (fastforce simp: get_file_hash_def)
next
  case (4 db k)
  then show ?case by (simp add: get_file_hash_def quiet)
next
  case (5 k v db u db')
  then show ?case unfolding upsert_file_hash_def
    by (elim raw_exec_cases) (auto simp: upsert_hash_stmt_def lookup_upsert hash_key_def fun_eq_iff split: option.splits)
next
  case (6 k v db e db')
  then show ?case unfolding upsert_file_hash_def by (elim raw_exec_cases) auto
next
  case (7 k v db r db')
  then show ?case by (auto simp: upsert_file_hash_def raw_exec_def quiet upsert_hash_stmt_def)
qed

interpretation combined: kv_store get_combined_hash upsert_combined_hash
    "\<lambda>db p. map_option f_content_hash (lookup hash_key (p, ''_combined'') (db_hashes db))"
  by (unfold_locales; unfold get_combined_hash_def upsert_combined_hash_def)
    (fact hashes.get_found hashes.get_missing hashes.get_same
    | blast dest: hashes.get_found hashes.get_missing hashes.put_quiet
    | (drule hashes.get_same hashes.put_ok hashes.put_failed; simp add: fun_eq_iff)
    | simp add: hashes.get_quiet)+

interpretation settings: kv_store get_setting set_setting "\<lambda>db k. map_option snd (lookup fst k (db_settings db))"
proof (unfold_locales, goal_cases)
  case (1 k db v db')
  show ?case by (rule query_row_found[OF 1[unfolded get_setting_def]]) simp
next
  case (2 k db db')
  show ?case by (rule query_row_missing[OF 2[unfolded get_setting_def]]) simp_all
next
  case (3 k db r db')
  then show ?case using query_row_state[of Raw] by (fastforce simp: get_setting_def)
next
  case (4 db k)
  then show ?case by (simp add: get_setting_def quiet)
next
  case (5 k v db u db')
  then show ?case unfolding set_setting_def
    by (elim raw_exec_cases) (auto simp: set_setting_stmt_def lookup_upsert fun_eq_iff split: option.splits)
next
  case (6 k v db e db')
  then show ?case unfolding set_setting_def by (elim raw_exec_cases) auto
next
  case (7 k v db r db')
  then show ?case by (auto simp: set_setting_def raw_exec_def quiet set_setting_stmt_def)
qed

section \<open>Desired state\<close>

text \<open>
  \<^verbatim>\<open>UpsertDesiredState\<close> on a project that has a row replaces its state and hash and keeps the
  row's tenant and site, whatever the caller passes for them; on a new project it stores the
  row as given.  Other projects keep their rows, and a failing call changes nothing.
\<close>

lemma upsert_desired_state_keeps_owner:
  assumes "upsert_desired_state d db = (r, db')"
  shows "case r of
      Inl e \<Rightarrow> db_desired db' = db_desired db
    | Inr _ \<Rightarrow>
        (\<forall>p. lookup d_project_id p (db_desired db') =
          (if p = d_project_id d then
             Some (case lookup d_project_id p (db_desired db) of
                 None \<Rightarrow> d\<lparr>d_updated_at := stamp db\<rparr>
               | Some old \<Rightarrow> old\<lparr>d_state := d_state d, d_config_hash := d_config_hash d, d_updated_at := stamp db\<rparr>)
           else lookup d_project_id p (db_desired db)))"
  using assms unfolding upsert_desired_state_def
  by (elim raw_exec_cases) (auto simp: upsert_desired_stmt_def lookup_upsert stamp_def split: option.splits)

definition example_desired :: desired_state_row where
  "example_desired = \<lparr>d_project_id = ''p'', d_tenant_id = ''tnt_a'', d_site_id = ''ste_x'', d_state = ''running'',
     d_config_hash = ''h1'', d_updated_at = 0\<rparr>"

lemma upsert_desired_state_keeps_owner_witness:
  "\<exists>db' d. upsert_desired_state (example_desired\<lparr>d_tenant_id := '''', d_state := ''stopped''\<rparr>)
       ((empty_db 0)\<lparr>db_desired := [example_desired]\<rparr>) = (Inr (), db') \<and>
     lookup d_project_id ''p'' (db_desired db') = Some d \<and> d_tenant_id d = ''tnt_a'' \<and> d_state d = ''stopped''"
proof -
  let ?d = "example_desired\<lparr>d_tenant_id := '''', d_state := ''stopped''\<rparr>" and ?db = "(empty_db 0)\<lparr>db_desired := [example_desired]\<rparr>"
  obtain db' where "upsert_desired_state ?d ?db = (Inr (), db')"
    by (simp add: upsert_desired_state_def raw_exec_def quiet empty_db_def upsert_desired_stmt_def)
  from upsert_desired_state_keeps_owner[OF this] this show ?thesis
    by (auto simp: example_desired_def empty_db_def lookup_def)
qed

section \<open>The audit log\<close>

lemma sql_point_events: "sql_point db = (r, db') \<Longrightarrow> db_events db' = db_events db"
  using sql_point_field by fastforce

interpretation sink: emitter emit db_events
  "\<lambda>db. (db_tenants db, db_sites db, db_desired db, db_hashes db, db_settings db, db_tokens db)"
  by unfold_locales
    (auto simp: emit_def sql_exec_def insert_event_def same_event_def split: prod.splits option.splits sum.splits
      dest!: sql_point_field)

lemma take_reaches: "x \<in> set ys \<Longrightarrow> x \<notin> set (take n ys) \<Longrightarrow> length (take n ys) = n"
  by (cases "n < length ys") auto

text \<open>
  The audit listing shows what it says: without a failure it returns events of the log only,
  all of the kinds that the pattern admits, newest first and at most \<open>limit\<close> of them, and it
  leaves out an admissible event only if the limit is reached.
\<close>

lemma audit_listing_correct:
  assumes "db_inv db" "db_faults db = []" "0 \<le> limit"
    and "list_audit_events prefix limit db = ((None, out), db')"
  shows "set out \<subseteq> {e \<in> set (db_events db). prefix = '''' \<or> like_match (prefix @ ''%'') (ev_kind e)} \<and>
    sorted_wrt (\<lambda>a b. ev_created_at b \<le> ev_created_at a) out \<and> distinct (map ev_id out) \<and>
    int (length out) \<le> limit \<and>
    (\<forall>e \<in> set (db_events db) - set out. (prefix = '''' \<or> like_match (prefix @ ''%'') (ev_kind e)) \<longrightarrow> int (length out) = limit)"
proof -
  let ?sel = "if prefix \<noteq> '''' then filter (\<lambda>e. like_match (prefix @ ''%'') (ev_kind e)) (db_events db) else db_events db"
  let ?key = "\<lambda>e. (- ev_created_at e, - ev_id e)"
  have o: "out = take (nat limit) (sort_key ?key ?sel)"
    using assms(2-4) by (auto simp: list_audit_events_def quiet Let_def)
  have "sorted (map ?key out)"
    unfolding o take_map[symmetric] by (intro sorted_wrt_take sorted_sort_key)
  then have s: "sorted_wrt (\<lambda>a b. ev_created_at b \<le> ev_created_at a) out"
    unfolding sorted_map by (rule sorted_wrt_mono_rel[rotated]) (auto simp: less_eq_prod_def)
  have d: "distinct (map ev_id out)"
  proof -
    have "distinct (map ev_id ?sel)" using assms(1) by (auto simp: db_inv_def db_events_ok_def)
    then have "distinct (map ev_id (sort_key ?key ?sel))" by (simp add: distinct_map)
    then show ?thesis unfolding o take_map[symmetric] by (rule distinct_take)
  qed
  have "set out \<subseteq> set ?sel" unfolding o using set_take_subset[of "nat limit" "sort_key ?key ?sel"] by (simp only: set_sort)
  moreover have "\<forall>e \<in> set ?sel - set out. int (length out) = limit"
  proof
    fix e assume e: "e \<in> set ?sel - set out"
    then have "length out = nat limit" unfolding o by (intro take_reaches[of e]) auto
    then show "int (length out) = limit" using assms(3) by simp
  qed
  moreover have "int (length out) \<le> limit" using assms(3) unfolding o by auto
  moreover have "set ?sel = {e \<in> set (db_events db). prefix = '''' \<or> like_match (prefix @ ''%'') (ev_kind e)}"
    by auto
  ultimately show ?thesis using s d by auto
qed

definition example_log :: db where
  "example_log = snd (emit (new_event kind_site_create ''tnt_a'' ''ste_x'' '''' True '''')
     (snd (emit (new_event kind_tenant_create ''tnt_a'' '''' '''' True '''') (empty_db 0))))"

lemma audit_listing_correct_witness:
  "\<exists>out db'. list_audit_events ''Tenant'' 10 example_log = ((None, out), db') \<and> length out \<le> 10"
proof -
  have i: "db_inv example_log" unfolding example_log_def by (intro inv_intros)
  have f: "db_faults example_log = []"
    by (simp add: example_log_def emit_def quiet insert_event_def empty_db_def)
  obtain out db' where l: "list_audit_events ''Tenant'' 10 example_log = ((None, out), db')"
    by (simp add: list_audit_events_def quiet f)
  have "int (length out) \<le> 10" using audit_listing_correct[OF i f _ l] by simp
  then show ?thesis using l by auto
qed

end
