(* ===== verification/Render.thy ===== *)
theory Render
  imports FileSys Config
begin

text \<open>
  Package \<^verbatim>\<open>internal/render\<close>.  The embedded templates are the list of their paths in the order
  of \<^verbatim>\<open>fs.WalkDir\<close>; reading, parsing and executing one (package \<^verbatim>\<open>text/template\<close> on the
  \<^verbatim>\<open>.tmpl\<close> files) and SHA-256 are arguments: \<open>exec path ctx\<close> gives the output or the error.
\<close>

section \<open>The context of a rendering\<close>

record tenant_ctx =
  tx_id :: string
  tx_name :: string
  tx_domain :: string
  tx_retention :: string
  tx_chunk_time_interval :: string
  tx_compression_on :: bool
  tx_schema_version :: int

record site_ctx =
  sx_id :: string
  sx_tenant_id :: string
  sx_broker_kind :: string
  sx_throughput :: string
  sx_direction :: string
  sx_payload_codec :: string
  sx_ingest_replicas :: int
  sx_batch_size :: int
  sx_flush_interval_ms :: int
  sx_use_shared_subscription :: bool
  sx_mqtt_topic_filter :: string
  sx_sni_hostname :: string
  sx_sans :: "string list"
  sx_schema_version :: int

record shared_ctx =
  sh_acme_enabled :: bool
  sh_domain :: string

record creds_ctx =
  cc_superuser_name :: string
  cc_superuser_pass :: string
  cc_ingest_name :: string
  cc_ingest_pass :: string
  cc_emqx_key_id :: string
  cc_emqx_key_secret :: string

record pki_ctx =
  pc_ca_path :: string
  pc_cert_path :: string
  pc_key_path :: string

record render_context =
  rx_tenant :: tenant_ctx
  rx_site :: "site_ctx option"
  rx_shared :: "shared_ctx option"
  rx_creds :: "creds_ctx option"
  rx_pki :: "pki_ctx option"

record render_result =
  rr_rel_path :: string
  rr_content :: string
  rr_hash :: string

datatype render_error = SiteContextNil | DirMissing string | TemplateFailed string string | RenderIO string io_error

section \<open>Rendering a directory\<close>

text \<open>The files under \<^verbatim>\<open>templates/\<close>, in walk order.\<close>

definition templates :: "string list" where
  "templates =
     [''shared/docker-compose.yml.tmpl'', ''shared/traefik/dynamic/site-mqtt.yml.tmpl'',
      ''shared/traefik/static.yml.tmpl'',
      ''site/emqx/acl.conf.tmpl'', ''site/emqx/api_keys.bootstrap.tmpl'', ''site/emqx/deploy/acl.conf.tmpl'',
      ''site/emqx/deploy/api_keys.bootstrap.tmpl'', ''site/emqx/deploy/emqx.conf.tmpl'',
      ''site/emqx/docker-compose.yml.tmpl'', ''site/emqx/emqx.conf.tmpl'',
      ''site/ingest/docker-compose.yml.tmpl'',
      ''site/mosquitto/acl.conf.tmpl'', ''site/mosquitto/deploy/acl.conf.tmpl'',
      ''site/mosquitto/deploy/mosquitto.conf.tmpl'', ''site/mosquitto/docker-compose.yml.tmpl'',
      ''site/mosquitto/mosquitto.conf.tmpl'',
      ''tenant/tsdb/docker-compose.yml.tmpl'', ''tenant/tsdb/init.sql.tmpl'', ''tenant/tsdb/postgresql.conf.tmpl'']"

type_synonym template_engine = "string \<Rightarrow> render_context \<Rightarrow> string + string"

definition blank :: "char \<Rightarrow> bool" where
  "blank c \<longleftrightarrow> c \<in> {CHR '' '', CHR 0x09, CHR 0x0A, CHR 0x0B, CHR 0x0C, CHR 0x0D}"

definition rel_path :: "string \<Rightarrow> string \<Rightarrow> string" where
  "rel_path dir path =
     (let p = trim_prefix path (dir @ ''/'') in if has_suffix p ''.tmpl'' then take (length p - 5) p else p)"

fun render_files ::
  "template_engine \<Rightarrow> (string \<Rightarrow> string) \<Rightarrow> string \<Rightarrow> render_context \<Rightarrow> string list \<Rightarrow> render_error + render_result list"
where
  "render_files exec sha dir ctx [] = Inr []"
| "render_files exec sha dir ctx (path # paths) =
     (if \<not> has_suffix path ''.tmpl'' then render_files exec sha dir ctx paths
      else case exec path ctx of
        Inl e \<Rightarrow> Inl (TemplateFailed path e)
      | Inr content \<Rightarrow>
          (case render_files exec sha dir ctx paths of
             Inl e \<Rightarrow> Inl e
           | Inr rs \<Rightarrow>
               if list_all blank content then Inr rs
               else Inr (\<lparr>rr_rel_path = rel_path dir path, rr_content = content,
                          rr_hash = hex_encode (sha content)\<rparr> # rs)))"

definition render_dir ::
  "template_engine \<Rightarrow> (string \<Rightarrow> string) \<Rightarrow> string \<Rightarrow> render_context \<Rightarrow> render_error + render_result list"
where
  "render_dir exec sha dir ctx =
     (let paths = filter (\<lambda>p. has_prefix p (dir @ ''/'')) templates
      in if paths = [] then Inl (DirMissing dir) else render_files exec sha dir ctx paths)"

definition render_shared where "render_shared exec sha ctx = render_dir exec sha ''shared'' ctx"

definition render_tenant_tsdb where "render_tenant_tsdb exec sha ctx = render_dir exec sha ''tenant/tsdb'' ctx"

definition render_site ::
  "template_engine \<Rightarrow> (string \<Rightarrow> string) \<Rightarrow> render_context \<Rightarrow> render_error + render_result list"
where
  "render_site exec sha ctx =
     (case rx_site ctx of
        None \<Rightarrow> Inl SiteContextNil
      | Some s \<Rightarrow> render_dir exec sha (''site/'' @ sx_broker_kind s) ctx)"

definition render_traefik_dynamic_for_site ::
  "template_engine \<Rightarrow> (string \<Rightarrow> string) \<Rightarrow> render_context \<Rightarrow> render_error + render_result list"
where
  "render_traefik_dynamic_for_site exec sha ctx =
     (case rx_site ctx of
        None \<Rightarrow> Inl SiteContextNil
      | Some s \<Rightarrow>
          (case render_dir exec sha ''shared/traefik/dynamic'' ctx of
             Inl e \<Rightarrow> Inl e
           | Inr rs \<Rightarrow>
               let prefix = sx_tenant_id s @ ''-'' @ sx_id s @ ''-''
               in Inr (map (\<lambda>r. r\<lparr>rr_rel_path := prefix @ path_base (rr_rel_path r)\<rparr>) rs)))"

definition render_traefik_dynamic where
  "render_traefik_dynamic exec sha ctx = render_dir exec sha ''shared/traefik/dynamic'' ctx"

section \<open>Writing the results\<close>

fun write_results :: "string \<Rightarrow> render_result list \<Rightarrow> fs \<Rightarrow> (render_error + unit) \<times> fs" where
  "write_results base [] s = (Inr (), s)"
| "write_results base (r # rs) s =
     (let dst = path_join [base, rr_rel_path r]; tmp = dst @ ''.tmp''
      in case os_mkdir_all (path_dir dst) s of
           (Inl e, s1) \<Rightarrow> (Inl (RenderIO ''mkdir'' e), s1)
         | (Inr _, s1) \<Rightarrow>
             (case os_write_file tmp (RawBytes (rr_content r)) s1 of
                (Inl e, s2) \<Rightarrow> (Inl (RenderIO ''write temp'' e), s2)
              | (Inr _, s2) \<Rightarrow>
                  (case os_rename tmp dst s2 of
                     (Inl e, s3) \<Rightarrow> (Inl (RenderIO ''rename'' e), s3)
                   | (Inr _, s3) \<Rightarrow> write_results base rs s3)))"

section \<open>Template functions\<close>

definition tmpl_indent :: "int \<Rightarrow> string \<Rightarrow> string option" where
  "tmpl_indent n s =
     (if n < 0 then None
      else let pad = replicate (nat n) (CHR '' '') in Some (pad @ join_with (CHR 0x0A # pad) (split_on (CHR 0x0A) s)))"

definition tmpl_seq :: "int \<Rightarrow> int list option" where
  "tmpl_seq n = (if n < 0 then None else Some [0..n - 1])"

section \<open>Atomic replacement\<close>

abbreviation dst_of :: "string \<Rightarrow> render_result \<Rightarrow> string" where
  "dst_of base r \<equiv> path_join [base, rr_rel_path r]"

text \<open>The destinations do not collide with each other or with a temporary name.\<close>

definition disjoint_results :: "string \<Rightarrow> render_result list \<Rightarrow> bool" where
  "disjoint_results base rs \<longleftrightarrow> distinct (map (dst_of base) rs) \<and>
     list_all (\<lambda>r. list_all (\<lambda>r'. dst_of base r \<noteq> dst_of base r' @ ''.tmp'') rs) rs"

text \<open>One file: either its destination is untouched, or it has been replaced.\<close>

lemma write_results_Cons:
  assumes "write_results base (r # rs) s = (res, s')"
  obtains (stop) e where "res = Inl e" "\<And>q. q \<noteq> dst_of base r @ ''.tmp'' \<Longrightarrow> fs_files s' q = fs_files s q"
  | (go) s1 where "write_results base rs s1 = (res, s')"
      "fs_files s1 = (fs_files s)(dst_of base r @ ''.tmp'' := None, dst_of base r \<mapsto> RawBytes (rr_content r))"
  using assms
  by (auto simp: Let_def os_defs split: prod.splits sum.splits option.splits list.splits if_splits)

lemma write_results_frame:
  assumes "write_results base rs s = (res, s')"
    and "\<And>r. r \<in> set rs \<Longrightarrow> q \<noteq> dst_of base r \<and> q \<noteq> dst_of base r @ ''.tmp''"
  shows "fs_files s' q = fs_files s q"
  using assms
proof (induction rs arbitrary: s)
  case (Cons r rs)
  from Cons.prems(1) show ?case
  proof (cases rule: write_results_Cons)
    case stop
    then show ?thesis using Cons.prems(2)[of r] by auto
  next
    case (go s1)
    then have "fs_files s' q = fs_files s1 q" using Cons by auto
    then show ?thesis using go(2) Cons.prems(2)[of r] by auto
  qed
qed simp

lemma write_results_each:
  assumes "write_results base rs s = (res, s')" "disjoint_results base rs" "r \<in> set rs"
  shows "fs_files s' (dst_of base r) \<in> {fs_files s (dst_of base r), Some (RawBytes (rr_content r))} \<and>
    (res = Inr () \<longrightarrow> fs_files s' (dst_of base r) = Some (RawBytes (rr_content r)))"
  using assms
proof (induction rs arbitrary: s)
  case (Cons a rs)
  from Cons.prems(1) show ?case
  proof (cases rule: write_results_Cons)
    case stop
    then show ?thesis using Cons.prems(2,3) by (auto simp: disjoint_results_def list_all_iff)
  next
    case (go s1)
    have d: "disjoint_results base rs" using Cons.prems(2) by (auto simp: disjoint_results_def list_all_iff)
    show ?thesis
    proof (cases "r \<in> set rs")
      case True
      have "dst_of base r \<in> dst_of base ` set rs" using True by (rule imageI)
      moreover have "dst_of base a \<notin> dst_of base ` set rs" using Cons.prems(2) by (simp add: disjoint_results_def)
      ultimately have "dst_of base r \<noteq> dst_of base a" by metis
      then have "fs_files s1 (dst_of base r) = fs_files s (dst_of base r)"
        using Cons.prems(2) True go(2) by (auto simp: disjoint_results_def list_all_iff)
      then show ?thesis using Cons.IH[OF go(1) d True] by simp
    next
      case False
      then have r: "r = a" using Cons.prems(3) by simp
      have "fs_files s' (dst_of base a) = fs_files s1 (dst_of base a)"
        using write_results_frame[OF go(1), of "dst_of base a"] Cons.prems(2)
        by (auto simp: disjoint_results_def list_all_iff image_iff)
      then show ?thesis using go(2) r by simp
    qed
  qed
qed simp

lemma write_results_quiet:
  "fs_faults s = [] \<Longrightarrow> \<exists>s'. write_results base rs s = (Inr (), s') \<and> fs_faults s' = []"
proof (induction rs arbitrary: s)
  case (Cons r rs)
  then show ?case by (simp add: Let_def os_defs)
qed simp

text \<open>
  C9. Rendered files are replaced atomically: however \<^verbatim>\<open>WriteResults\<close> ends, each destination
  holds in full either what it held before or its new content, all of them the new content when
  the call succeeds (which it does without an I/O failure), and no other file changes except
  temporary ones.
\<close>

theorem write_results_atomic:
  assumes "write_results base rs s = (res, s')" "disjoint_results base rs"
  shows "(\<forall>r \<in> set rs. fs_files s' (dst_of base r) \<in> {fs_files s (dst_of base r), Some (RawBytes (rr_content r))} \<and>
      (res = Inr () \<longrightarrow> fs_files s' (dst_of base r) = Some (RawBytes (rr_content r)))) \<and>
    (\<forall>q. q \<notin> dst_of base ` set rs \<union> (\<lambda>r. dst_of base r @ ''.tmp'') ` set rs \<longrightarrow> fs_files s' q = fs_files s q) \<and>
    (fs_faults s = [] \<longrightarrow> res = Inr ())"
proof (intro conjI ballI allI impI)
  fix r assume "r \<in> set rs"
  from write_results_each[OF assms this]
  show "fs_files s' (dst_of base r) \<in> {fs_files s (dst_of base r), Some (RawBytes (rr_content r))}"
    "res = Inr () \<Longrightarrow> fs_files s' (dst_of base r) = Some (RawBytes (rr_content r))" by auto
next
  fix q assume "q \<notin> dst_of base ` set rs \<union> (\<lambda>r. dst_of base r @ ''.tmp'') ` set rs"
  then show "fs_files s' q = fs_files s q" by (intro write_results_frame[OF assms(1)]) auto
next
  assume "fs_faults s = []"
  then show "res = Inr ()" using write_results_quiet[of s base rs] assms(1) by auto
qed

definition example_results :: "render_result list" where
  "example_results =
     [\<lparr>rr_rel_path = ''docker-compose.yml'', rr_content = ''services:'', rr_hash = ''00''\<rparr>,
      \<lparr>rr_rel_path = ''deploy/acl.conf'', rr_content = ''deny all'', rr_hash = ''01''\<rparr>]"

text \<open>The second write fails half-way: the first file is new, the second is the old one.\<close>

definition example_write_fs :: fs where
  "example_write_fs = \<lparr>fs_files = [''/d/deploy/acl.conf'' \<mapsto> RawBytes ''allow all''],
     fs_faults = [None, None, None, None, Some \<lparr>fault_error = ''no space'', fault_leftover = Some (RawBytes ''de'')\<rparr>]\<rparr>"

theorem write_results_atomic_witness:
  "\<exists>e s'. write_results ''/d'' example_results example_write_fs = (Inl e, s') \<and>
     fs_files s' ''/d/deploy/acl.conf'' \<in> {Some (RawBytes ''allow all''), Some (RawBytes ''deny all'')}"
proof -
  have d: "path_join [''/d'', ''docker-compose.yml''] = ''/d/docker-compose.yml''"
    "path_join [''/d'', ''deploy/acl.conf''] = ''/d/deploy/acl.conf''"
    by (simp_all add: path_join_def path_clean_def has_prefix_def Let_def)
  have j: "disjoint_results ''/d'' example_results"
    by (simp add: disjoint_results_def example_results_def d)
  obtain e s' where w: "write_results ''/d'' example_results example_write_fs = (Inl e, s')"
    by (simp add: example_results_def example_write_fs_def os_defs Let_def)
  show ?thesis
    using w write_results_atomic[OF w j] by (auto simp: example_results_def d example_write_fs_def)
qed

section \<open>Names in the shared directory\<close>

lemma traefik_rel_paths:
  assumes "render_traefik_dynamic_for_site exec sha ctx = Inr rs" "rx_site ctx = Some s" "r \<in> set rs"
  shows "rr_rel_path r = sx_tenant_id s @ ''-'' @ sx_id s @ ''-site-mqtt.yml''"
  using assms
  by (auto simp: render_traefik_dynamic_for_site_def render_dir_def templates_def has_prefix_def Let_def
      has_suffix_def rel_path_def trim_prefix_def path_base_def split: sum.splits if_splits)

text \<open>
  The files of two sites coexist: when two sites with valid identifiers differ in tenant or
  site, no file that \<^verbatim>\<open>RenderTraefikDynamicForSite\<close> renders for one has the name of a file it
  renders for the other, so writing one configuration never overwrites the other.
\<close>

lemma traefik_names_disjoint:
  assumes "render_traefik_dynamic_for_site exec sha ctx = Inr rs" "rx_site ctx = Some s"
    and "render_traefik_dynamic_for_site exec sha ctx' = Inr rs'" "rx_site ctx' = Some s'"
    and "rx_match tenant_id_pattern (sx_tenant_id s)" "rx_match tenant_id_pattern (sx_tenant_id s')"
    and "rx_match site_id_pattern (sx_id s)" "rx_match site_id_pattern (sx_id s')"
    and "sx_tenant_id s \<noteq> sx_tenant_id s' \<or> sx_id s \<noteq> sx_id s'"
  shows "rr_rel_path ` set rs \<inter> rr_rel_path ` set rs' = {}"
proof (rule ccontr)
  assume "rr_rel_path ` set rs \<inter> rr_rel_path ` set rs' \<noteq> {}"
  then obtain r r' where r: "r \<in> set rs" "r' \<in> set rs'" "rr_rel_path r = rr_rel_path r'" by auto
  obtain a b a' b' where w: "sx_tenant_id s = ''tnt_'' @ a" "sx_id s = ''ste_'' @ b"
      "sx_tenant_id s' = ''tnt_'' @ a'" "sx_id s' = ''ste_'' @ b'"
      "slug_ok a" "slug_ok b" "slug_ok a'" "slug_ok b'"
    using assms(5-8) by (auto simp: tenant_id_pattern_iff site_id_pattern_iff tenant_id_from_slug_def site_id_from_slug_def)
  have "(a @ ''-ste'') @ CHR ''_'' # b @ ''-site-mqtt.yml'' = (a' @ ''-ste'') @ CHR ''_'' # b' @ ''-site-mqtt.yml''"
    using traefik_rel_paths[OF assms(1,2) r(1)] traefik_rel_paths[OF assms(3,4) r(2)] r(3) by (simp add: w)
  then have "a @ ''-ste'' = a' @ ''-ste'' \<and> b @ ''-site-mqtt.yml'' = b' @ ''-site-mqtt.yml''"
    by (rule split_at_char[rotated 2]) (use w slug_ok_no_underscore in auto)
  then show False using w assms(9) by simp
qed

definition example_site_ctx :: "string \<Rightarrow> string \<Rightarrow> site_ctx" where
  "example_site_ctx tenant site =
     \<lparr>sx_id = site, sx_tenant_id = tenant, sx_broker_kind = ''emqx'', sx_throughput = ''low'',
      sx_direction = ''uni'', sx_payload_codec = ''json'', sx_ingest_replicas = 1, sx_batch_size = 1,
      sx_flush_interval_ms = 1, sx_use_shared_subscription = False, sx_mqtt_topic_filter = '''',
      sx_sni_hostname = '''', sx_sans = [], sx_schema_version = 1\<rparr>"

definition example_ctx :: "string \<Rightarrow> string \<Rightarrow> render_context" where
  "example_ctx tenant site =
     \<lparr>rx_tenant = \<lparr>tx_id = tenant, tx_name = '''', tx_domain = ''x.org'', tx_retention = ''7d'',
        tx_chunk_time_interval = '''', tx_compression_on = False, tx_schema_version = 1\<rparr>,
      rx_site = Some (example_site_ctx tenant site), rx_shared = None, rx_creds = None, rx_pki = None\<rparr>"

lemma example_ctx_site: "rx_site (example_ctx a b) = Some (example_site_ctx a b)"
  "sx_tenant_id (example_site_ctx a b) = a" "sx_id (example_site_ctx a b) = b"
  by (simp_all add: example_ctx_def example_site_ctx_def)

lemma example_traefik:
  "render_traefik_dynamic_for_site (\<lambda>p c. Inr ''tcp:'') (\<lambda>s. []) (example_ctx a b)
     = Inr [\<lparr>rr_rel_path = a @ ''-'' @ b @ ''-site-mqtt.yml'', rr_content = ''tcp:'', rr_hash = ''''\<rparr>]"
  by (simp add: render_traefik_dynamic_for_site_def example_ctx_site render_dir_def templates_def has_prefix_def
      Let_def has_suffix_def rel_path_def trim_prefix_def path_base_def blank_def hex_encode_def)

lemma traefik_names_disjoint_witness:
  "rr_rel_path ` set [\<lparr>rr_rel_path = ''tnt_a-ste_x-site-mqtt.yml'', rr_content = ''tcp:'', rr_hash = ''''\<rparr>]
     \<inter> rr_rel_path ` set [\<lparr>rr_rel_path = ''tnt_a-ste_y-site-mqtt.yml'', rr_content = ''tcp:'', rr_hash = ''''\<rparr>] = {}"
proof -
  have "slug_ok ''a''" "slug_ok ''x''" "slug_ok ''y''" by (simp_all add: slug_ok_def is_lower_def)
  then have m: "rx_match tenant_id_pattern ''tnt_a''" "rx_match site_id_pattern ''ste_x''" "rx_match site_id_pattern ''ste_y''"
    by (simp_all add: tenant_id_pattern_iff site_id_pattern_iff tenant_id_from_slug_def site_id_from_slug_def)
  show ?thesis
    using traefik_names_disjoint[OF example_traefik[of "''tnt_a''" "''ste_x''"] example_ctx_site(1)
        example_traefik[of "''tnt_a''" "''ste_y''"] example_ctx_site(1), unfolded example_ctx_site(2,3), OF m(1,1,2,3)]
    by simp
qed

end
