(* ===== verification/Provision.thy ===== *)
theory Provision
  imports Render StoreInv "HOL-Library.Multiset"
begin

text \<open>
  \<^verbatim>\<open>internal/daemon/provision.go\<close>: credentials, render contexts, the combined hash, and the two
  procedures that render a compose project, write its files and record its desired state.  They
  run on the registry and the file system together; random bytes, the template engine and
  SHA-256 are arguments.
\<close>

datatype provision_error =
    FromStore string store_error
  | FromRender string render_error
  | FromIO string io_error

definition random_hex :: "string \<Rightarrow> string" where
  "random_hex bytes = hex_encode bytes"

section \<open>Credentials\<close>

text \<open>
  The two random passwords of a tenant.  A read that fails for any reason, not only because the
  row is missing, makes new ones.
\<close>

definition ensure_tsdb_creds :: "string \<times> string \<Rightarrow> string \<Rightarrow> db \<Rightarrow> (provision_error + tsdb_creds) \<times> db" where
  "ensure_tsdb_creds rnd tenant db =
     (case get_tsdb_creds tenant db of
        (Inr c, db1) \<Rightarrow> (Inr c, db1)
      | (Inl _, db1) \<Rightarrow>
          let c = \<lparr>c_tenant_id = tenant, c_superuser_name = ''controlai_admin'',
                   c_superuser_pass = random_hex (fst rnd), c_ingest_name = ''controlai_ingest'',
                   c_ingest_pass = random_hex (snd rnd)\<rparr>
          in case upsert_tsdb_creds c db1 of
               (Inl e, db2) \<Rightarrow> (Inl (FromStore ''store TSDB creds'' e), db2)
             | (Inr _, db2) \<Rightarrow> (Inr c, db2))"

definition ensure_emqx_key :: "string \<Rightarrow> string \<Rightarrow> db \<Rightarrow> (provision_error + emqx_api_key) \<times> db" where
  "ensure_emqx_key rnd site db =
     (case get_emqx_key site db of
        (Inr k, db1) \<Rightarrow> (Inr k, db1)
      | (Inl _, db1) \<Rightarrow>
          let k = \<lparr>e_site_id = site, e_key_id = ''controlai-'' @ site, e_key_secret = random_hex rnd\<rparr>
          in case upsert_emqx_key k db1 of
               (Inl e, db2) \<Rightarrow> (Inl (FromStore ''store EMQX key'' e), db2)
             | (Inr _, db2) \<Rightarrow> (Inr k, db2))"

section \<open>Render contexts\<close>

definition creds_of :: "tsdb_creds \<Rightarrow> creds_ctx" where
  "creds_of c =
     \<lparr>cc_superuser_name = c_superuser_name c, cc_superuser_pass = c_superuser_pass c,
      cc_ingest_name = c_ingest_name c, cc_ingest_pass = c_ingest_pass c,
      cc_emqx_key_id = '''', cc_emqx_key_secret = ''''\<rparr>"

definition build_tenant_render_ctx ::
  "string \<times> string \<Rightarrow> string \<Rightarrow> db \<Rightarrow> (provision_error + render_context) \<times> db"
where
  "build_tenant_render_ctx rnd tenant db =
     (case get_tenant tenant db of
        (Inl e, db1) \<Rightarrow> (Inl (FromStore ''get tenant'' e), db1)
      | (Inr t, db1) \<Rightarrow>
          (case ensure_tsdb_creds rnd tenant db1 of
             (Inl e, db2) \<Rightarrow> (Inl e, db2)
           | (Inr c, db2) \<Rightarrow>
               (Inr \<lparr>rx_tenant = \<lparr>tx_id = t_id t, tx_name = t_name t, tx_domain = t_domain t,
                        tx_retention = t_retention t,
                        tx_chunk_time_interval = chunk_time_interval (t_retention t),
                        tx_compression_on = compression_enabled (t_retention t),
                        tx_schema_version = t_schema_version t\<rparr>,
                     rx_site = None, rx_shared = None, rx_creds = Some (creds_of c), rx_pki = None\<rparr>, db2)))"

definition site_cfg_of :: "site_row \<Rightarrow> site_cfg" where
  "site_cfg_of s =
     \<lparr>sc_schema_version = 0, sc_id = s_id s, sc_tenant_id = s_tenant_id s,
      sc_broker = \<lparr>bc_kind = s_broker_kind s, bc_san_aliases = []\<rparr>,
      sc_ingest = \<lparr>ic_direction = s_direction s\<rparr>, sc_throughput = s_throughput s,
      sc_payload_codec = s_payload_codec s, sc_leaf_ttl_days = 0\<rparr>"

definition sni_hostname :: "string \<Rightarrow> string \<Rightarrow> string \<Rightarrow> string" where
  "sni_hostname site tenant domain = site @ ''.'' @ tenant @ ''.'' @ domain"

definition cert_dir :: "string \<Rightarrow> string \<Rightarrow> string \<Rightarrow> string" where
  "cert_dir data_dir tenant site =
     path_join [data_dir, ''tenants'', tenant, ''sites'', site, ''deploy'', ''certs'', ''active'']"

definition site_ctx_of :: "site_row \<Rightarrow> string \<Rightarrow> site_ctx" where
  "site_ctx_of s sni =
     (let cfg = site_cfg_of s
      in \<lparr>sx_id = s_id s, sx_tenant_id = s_tenant_id s, sx_broker_kind = s_broker_kind s,
          sx_throughput = s_throughput s, sx_direction = s_direction s, sx_payload_codec = s_payload_codec s,
          sx_ingest_replicas = ingest_replicas cfg, sx_batch_size = batch_size cfg,
          sx_flush_interval_ms = flush_interval_ms cfg,
          sx_use_shared_subscription = use_shared_subscription cfg,
          sx_mqtt_topic_filter = mqtt_topic_filter cfg, sx_sni_hostname = sni, sx_sans = [sni],
          sx_schema_version = s_schema_version s\<rparr>)"

text \<open>The random source gives two passwords and one API secret.\<close>

definition build_site_render_ctx ::
  "(string \<times> string) \<times> string \<Rightarrow> string \<Rightarrow> string \<Rightarrow> db \<Rightarrow> (provision_error + render_context) \<times> db"
where
  "build_site_render_ctx rnd site data_dir db =
     (case get_site site db of
        (Inl e, db1) \<Rightarrow> (Inl (FromStore ''get site'' e), db1)
      | (Inr s, db1) \<Rightarrow>
          (case get_tenant (s_tenant_id s) db1 of
             (Inl e, db2) \<Rightarrow> (Inl (FromStore ''get tenant'' e), db2)
           | (Inr t, db2) \<Rightarrow>
               (case ensure_tsdb_creds (fst rnd) (s_tenant_id s) db2 of
                  (Inl e, db3) \<Rightarrow> (Inl e, db3)
                | (Inr c, db3) \<Rightarrow>
                    let sni = sni_hostname (s_id s) (s_tenant_id s) (t_domain t);
                        dir = cert_dir data_dir (s_tenant_id s) (s_id s);
                        ctx = \<lparr>rx_tenant = \<lparr>tx_id = t_id t, tx_name = t_name t, tx_domain = t_domain t,
                                 tx_retention = '''', tx_chunk_time_interval = '''',
                                 tx_compression_on = False, tx_schema_version = 0\<rparr>,
                               rx_site = Some (site_ctx_of s sni), rx_shared = None,
                               rx_creds = Some (creds_of c),
                               rx_pki = Some \<lparr>pc_ca_path = path_join [dir, ''ca.crt''],
                                 pc_cert_path = path_join [dir, ''server.crt''],
                                 pc_key_path = path_join [dir, ''server.key'']\<rparr>\<rparr>
                    in if s_broker_kind s = ''emqx'' then
                         (case ensure_emqx_key (snd rnd) (s_id s) db3 of
                            (Inl e, db4) \<Rightarrow> (Inl e, db4)
                          | (Inr k, db4) \<Rightarrow>
                              (Inr (ctx\<lparr>rx_creds := Some ((creds_of c)\<lparr>cc_emqx_key_id := e_key_id k,
                                   cc_emqx_key_secret := e_key_secret k\<rparr>)\<rparr>), db4))
                       else (Inr ctx, db3))))"

section \<open>The combined hash\<close>

text \<open>The lines fed to the digest, in the order of the relative paths.\<close>

definition combined_input :: "render_result list \<Rightarrow> string" where
  "combined_input rs =
     concat (map (\<lambda>r. rr_rel_path r @ '':'' @ rr_hash r @ [CHR 0x0A]) (sort_key rr_rel_path rs))"

definition compute_combined_hash :: "(string \<Rightarrow> string) \<Rightarrow> render_result list \<Rightarrow> string" where
  "compute_combined_hash sha rs = hex_encode (sha (combined_input rs))"

section \<open>Rendering a project\<close>

definition tsdb_project :: "string \<Rightarrow> string" where
  "tsdb_project tenant = tenant @ ''-tsdb''"

definition site_project :: "string \<Rightarrow> string \<Rightarrow> string" where
  "site_project tenant site = tenant @ ''-'' @ site"

definition render_and_write_tsdb ::
  "template_engine \<Rightarrow> (string \<Rightarrow> string) \<Rightarrow> string \<times> string \<Rightarrow> string \<Rightarrow> string \<Rightarrow> db \<Rightarrow> fs \<Rightarrow>
     (provision_error + string) \<times> db \<times> fs"
where
  "render_and_write_tsdb exec sha rnd tenant data_dir db s =
     (case build_tenant_render_ctx rnd tenant db of
        (Inl e, db1) \<Rightarrow> (Inl e, db1, s)
      | (Inr ctx, db1) \<Rightarrow>
          (case render_tenant_tsdb exec sha ctx of
             Inl e \<Rightarrow> (Inl (FromRender ''render TSDB'' e), db1, s)
           | Inr rs \<Rightarrow>
               let out_dir = path_join [data_dir, ''tenants'', tenant, ''tsdb'']
               in (case os_mkdir_all out_dir s of
                     (Inl e, s1) \<Rightarrow> (Inl (FromIO ''mkdir'' e), db1, s1)
                   | (Inr _, s1) \<Rightarrow>
                       (case write_results out_dir rs s1 of
                          (Inl e, s2) \<Rightarrow> (Inl (FromRender ''write TSDB files'' e), db1, s2)
                        | (Inr _, s2) \<Rightarrow>
                            let combined = compute_combined_hash sha rs;
                                (_, db2) = upsert_desired_state
                                  \<lparr>d_project_id = tsdb_project tenant, d_tenant_id = tenant, d_site_id = '''',
                                   d_state = ''running'', d_config_hash = combined, d_updated_at = 0\<rparr> db1
                            in (Inr combined, db2, s2)))))"

definition render_and_write_site ::
  "template_engine \<Rightarrow> (string \<Rightarrow> string) \<Rightarrow> (string \<times> string) \<times> string \<Rightarrow> string \<Rightarrow> string \<Rightarrow> db \<Rightarrow> fs \<Rightarrow>
     (provision_error + string) \<times> db \<times> fs"
where
  "render_and_write_site exec sha rnd site data_dir db s =
     (case get_site site db of
        (Inl e, db1) \<Rightarrow> (Inl (FromStore ''get site'' e), db1, s)
      | (Inr row, db1) \<Rightarrow>
          (case build_site_render_ctx rnd site data_dir db1 of
             (Inl e, db2) \<Rightarrow> (Inl e, db2, s)
           | (Inr ctx, db2) \<Rightarrow>
               (case render_site exec sha ctx of
                  Inl e \<Rightarrow> (Inl (FromRender ''render site'' e), db2, s)
                | Inr rs \<Rightarrow>
                    let out_dir = path_join [data_dir, ''tenants'', s_tenant_id row, ''sites'', site];
                        dynamic_dir = path_join [data_dir, ''shared'', ''traefik'', ''dynamic'']
                    in (case os_mkdir_all out_dir s of
                          (Inl e, s1) \<Rightarrow> (Inl (FromIO ''mkdir'' e), db2, s1)
                        | (Inr _, s1) \<Rightarrow>
                            (case write_results out_dir rs s1 of
                               (Inl e, s2) \<Rightarrow> (Inl (FromRender ''write site files'' e), db2, s2)
                             | (Inr _, s2) \<Rightarrow>
                                 (case os_mkdir_all dynamic_dir s2 of
                                    (Inl e, s3) \<Rightarrow> (Inl (FromIO ''mkdir traefik dynamic'' e), db2, s3)
                                  | (Inr _, s3) \<Rightarrow>
                                      (case render_traefik_dynamic_for_site exec sha ctx of
                                         Inl e \<Rightarrow> (Inl (FromRender ''render traefik dynamic'' e), db2, s3)
                                       | Inr dyn \<Rightarrow>
                                           (case write_results dynamic_dir dyn s3 of
                                              (Inl e, s4) \<Rightarrow> (Inl (FromRender ''write traefik dynamic'' e), db2, s4)
                                            | (Inr _, s4) \<Rightarrow>
                                                let combined = compute_combined_hash sha rs;
                                                    (_, db3) = upsert_desired_state
                                                      \<lparr>d_project_id = site_project (s_tenant_id row) site,
                                                       d_tenant_id = s_tenant_id row, d_site_id = site,
                                                       d_state = ''running'', d_config_hash = combined,
                                                       d_updated_at = 0\<rparr> db2
                                                in (Inr combined, db3, s4)))))))))"

section \<open>Reads\<close>

text \<open>A read only consumes what the environment has in store.\<close>

lemma query_state: "sql_query q db = (r, db') \<Longrightarrow> \<exists>fs. db' = db\<lparr>db_faults := fs\<rparr>"
  using sql_point_field[of db] by (auto simp: sql_query_def split: prod.splits option.splits)

lemma get_state:
  "get_tenant k db = (rt, db') \<Longrightarrow> \<exists>fs. db' = db\<lparr>db_faults := fs\<rparr>"
  "get_site k db = (rs, db') \<Longrightarrow> \<exists>fs. db' = db\<lparr>db_faults := fs\<rparr>"
  "get_desired_state k db = (rd, db') \<Longrightarrow> \<exists>fs. db' = db\<lparr>db_faults := fs\<rparr>"
  "get_tsdb_creds k db = (rc, db') \<Longrightarrow> \<exists>fs. db' = db\<lparr>db_faults := fs\<rparr>"
  "get_emqx_key k db = (re, db') \<Longrightarrow> \<exists>fs. db' = db\<lparr>db_faults := fs\<rparr>"
  "get_ca_cert k db = (ra, db') \<Longrightarrow> \<exists>fs. db' = db\<lparr>db_faults := fs\<rparr>"
  "get_cert_by_fingerprint k db = (rr, db') \<Longrightarrow> \<exists>fs. db' = db\<lparr>db_faults := fs\<rparr>"
  "get_combined_hash k db = (rh, db') \<Longrightarrow> \<exists>fs. db' = db\<lparr>db_faults := fs\<rparr>"
  "list_desired_states db = (ld, db') \<Longrightarrow> \<exists>fs. db' = db\<lparr>db_faults := fs\<rparr>"
  "list_all_sites db = (ls, db') \<Longrightarrow> \<exists>fs. db' = db\<lparr>db_faults := fs\<rparr>"
  "list_sites_by_tenant k db = (ls, db') \<Longrightarrow> \<exists>fs. db' = db\<lparr>db_faults := fs\<rparr>"
  "list_tenants db = (lt, db') \<Longrightarrow> \<exists>fs. db' = db\<lparr>db_faults := fs\<rparr>"
  "list_tenants_filtered p db = (lt, db') \<Longrightarrow> \<exists>fs. db' = db\<lparr>db_faults := fs\<rparr>"
  by (auto simp: get_tenant_def get_site_def get_desired_state_def get_tsdb_creds_def get_emqx_key_def
      get_ca_cert_def get_cert_by_fingerprint_def get_combined_hash_def get_file_hash_def list_desired_states_def
      list_all_sites_def list_sites_by_tenant_def list_tenants_filtered_def list_tenants_def list_tenants_query_def
      split: option.splits if_splits dest: query_row_state query_state)

lemma write_runs [inv_dests]:
  "db_inv db \<Longrightarrow> upsert_tsdb_creds c db = (r, db') \<Longrightarrow> db_inv db'"
  "db_inv db \<Longrightarrow> upsert_emqx_key ek db = (r, db') \<Longrightarrow> db_inv db'"
  "db_inv db \<Longrightarrow> upsert_desired_state d db = (r, db') \<Longrightarrow> db_inv db'"
  "db_inv db \<Longrightarrow> upsert_combined_hash p h db = (r, db') \<Longrightarrow> db_inv db'"
  "db_inv db \<Longrightarrow> emit ev db = (ro, db') \<Longrightarrow> db_inv db'"
  "db_inv db \<Longrightarrow> create_tenant t db = (r, db') \<Longrightarrow> db_inv db'"
  "db_inv db \<Longrightarrow> update_tenant_project_id i p db = (r, db') \<Longrightarrow> db_inv db'"
  "db_inv db \<Longrightarrow> update_tenant_status i p db = (r, db') \<Longrightarrow> db_inv db'"
  "db_inv db \<Longrightarrow> update_tenant_retention i p db = (r, db') \<Longrightarrow> db_inv db'"
  "db_inv db \<Longrightarrow> delete_tenant i purge db = (r, db') \<Longrightarrow> db_inv db'"
  "db_inv db \<Longrightarrow> create_site s db = (r, db') \<Longrightarrow> db_inv db'"
  "db_inv db \<Longrightarrow> update_site i p h db = (r, db') \<Longrightarrow> db_inv db'"
  "db_inv db \<Longrightarrow> update_site_status i p db = (r, db') \<Longrightarrow> db_inv db'"
  "db_inv db \<Longrightarrow> delete_site i purge db = (r, db') \<Longrightarrow> db_inv db'"
  "db_inv db \<Longrightarrow> store_ca_cert a db = (r, db') \<Longrightarrow> db_inv db'"
  "db_inv db \<Longrightarrow> store_cert u ce db = (r, db') \<Longrightarrow> db_inv db'"
  "db_inv db \<Longrightarrow> revoke_cert i db = (r, db') \<Longrightarrow> db_inv db'"
  using write_inv emit_inv delete_tenant_inv delete_site_inv unfolding upsert_combined_hash_def
  by (metis snd_conv)+

lemma get_runs [inv_dests]:
  "db_inv db \<Longrightarrow> get_tenant k db = (rt, db') \<Longrightarrow> db_inv db'"
  "db_inv db \<Longrightarrow> get_site k db = (rs, db') \<Longrightarrow> db_inv db'"
  "db_inv db \<Longrightarrow> get_desired_state k db = (rd, db') \<Longrightarrow> db_inv db'"
  "db_inv db \<Longrightarrow> get_tsdb_creds k db = (rc, db') \<Longrightarrow> db_inv db'"
  "db_inv db \<Longrightarrow> get_emqx_key k db = (re, db') \<Longrightarrow> db_inv db'"
  "db_inv db \<Longrightarrow> get_ca_cert k db = (ra, db') \<Longrightarrow> db_inv db'"
  "db_inv db \<Longrightarrow> get_cert_by_fingerprint k db = (rr, db') \<Longrightarrow> db_inv db'"
  "db_inv db \<Longrightarrow> get_combined_hash k db = (rh, db') \<Longrightarrow> db_inv db'"
  "db_inv db \<Longrightarrow> list_desired_states db = (ld, db') \<Longrightarrow> db_inv db'"
  "db_inv db \<Longrightarrow> list_all_sites db = (ls, db') \<Longrightarrow> db_inv db'"
  "db_inv db \<Longrightarrow> list_sites_by_tenant k db = (ls, db') \<Longrightarrow> db_inv db'"
  "db_inv db \<Longrightarrow> list_tenants db = (lt, db') \<Longrightarrow> db_inv db'"
  "db_inv db \<Longrightarrow> list_tenants_filtered p db = (lt, db') \<Longrightarrow> db_inv db'"
  using get_state db_inv_faults by metis+

section \<open>The invariant\<close>

lemma ensure_tsdb_creds_inv [inv_dests]: "db_inv db \<Longrightarrow> ensure_tsdb_creds rnd tenant db = (r, db') \<Longrightarrow> db_inv db'"
  by (auto simp: ensure_tsdb_creds_def Let_def split: prod.splits sum.splits; (assumption | drule (1) inv_dests)+)

lemma ensure_emqx_key_inv [inv_dests]: "db_inv db \<Longrightarrow> ensure_emqx_key rnd site db = (r, db') \<Longrightarrow> db_inv db'"
  by (auto simp: ensure_emqx_key_def Let_def split: prod.splits sum.splits; (assumption | drule (1) inv_dests)+)

lemma build_tenant_render_ctx_inv [inv_dests]:
  "db_inv db \<Longrightarrow> build_tenant_render_ctx rnd tenant db = (r, db') \<Longrightarrow> db_inv db'"
  by (auto simp: build_tenant_render_ctx_def split: prod.splits sum.splits; (assumption | drule (1) inv_dests)+)

lemma build_site_render_ctx_inv [inv_dests]:
  "db_inv db \<Longrightarrow> build_site_render_ctx rnd site dir db = (r, db') \<Longrightarrow> db_inv db'"
  by (auto simp: build_site_render_ctx_def Let_def split: prod.splits sum.splits if_splits; (assumption | drule (1) inv_dests)+)

lemma render_and_write_tsdb_inv [inv_dests]:
  "db_inv db \<Longrightarrow> render_and_write_tsdb exec sha rnd tenant dir db s = (r, db', s') \<Longrightarrow> db_inv db'"
  by (auto simp: render_and_write_tsdb_def Let_def split: prod.splits sum.splits; (assumption | drule (1) inv_dests)+)

lemma render_and_write_site_inv [inv_dests]:
  "db_inv db \<Longrightarrow> render_and_write_site exec sha rnd site dir db s = (r, db', s') \<Longrightarrow> db_inv db'"
  by (auto simp: render_and_write_site_def Let_def split: prod.splits sum.splits; (assumption | drule (1) inv_dests)+)

section \<open>The combined hash\<close>

lemma sort_by_distinct_keys:
  assumes "mset xs = mset ys" "distinct (map k xs)"
  shows "sort_key k xs = sort_key k ys"
proof (rule sort_key_inj_key_eq)
  show "mset xs = mset (sort_key k ys)" using assms(1) by simp
  show "inj_on k (set xs)" using assms(2) by (simp add: distinct_map)
qed simp

definition hash_line :: "string \<times> string \<Rightarrow> string" where
  "hash_line ph = fst ph @ CHR '':'' # snd ph @ [CHR 0x0A]"

lemma hash_line_pair: "hash_line (p, h) = p @ CHR '':'' # h @ [CHR 0x0A]"
  by (simp add: hash_line_def)

lemma hash_lines_inj:
  assumes "\<forall>(p, h) \<in> set as \<union> set bs. CHR '':'' \<notin> set p \<and> CHR 0x0A \<notin> set h"
    and "concat (map hash_line as) = concat (map hash_line bs)"
  shows "as = bs"
  using assms
proof (induction as arbitrary: bs)
  case Nil
  then show ?case by (cases bs) (auto simp: hash_line_def)
next
  case (Cons a as)
  obtain p h where a: "a = (p, h)" by (cases a)
  from Cons.prems(2) obtain b bs' where b: "bs = b # bs'" by (cases bs) (auto simp: hash_line_def)
  obtain p' h' where b': "b = (p', h')" by (cases b)
  have "p @ CHR '':'' # (h @ CHR 0x0A # concat (map hash_line as)) = p' @ CHR '':'' # (h' @ CHR 0x0A # concat (map hash_line bs'))"
    using Cons.prems(2) by (simp add: a b b' hash_line_pair)
  then have "p = p' \<and> h @ CHR 0x0A # concat (map hash_line as) = h' @ CHR 0x0A # concat (map hash_line bs')"
    by (rule split_at_char[rotated 2]) (use Cons.prems(1) a b b' in auto)
  moreover from this have "h = h' \<and> concat (map hash_line as) = concat (map hash_line bs')"
    by (intro split_at_char) (use Cons.prems(1) a b b' in auto)
  ultimately show ?case using Cons.IH[of bs'] Cons.prems(1) by (auto simp: a b b')
qed

lemma combined_input_lines:
  "combined_input rs = concat (map hash_line (map (\<lambda>r. (rr_rel_path r, rr_hash r)) (sort_key rr_rel_path rs)))"
  by (simp add: combined_input_def hash_line_def comp_def)

text \<open>
  C10. The combined hash is a fingerprint of the set of rendered files: it does not depend on the
  order in which they were rendered, and two renderings with the same combined hash have the
  same relative paths with the same file hashes, provided no path contains a colon, no file hash
  a line feed, and SHA-256 does not collide on the two inputs.
\<close>

theorem combined_hash_is_fingerprint:
  assumes "distinct (map rr_rel_path xs)"
  shows "(mset xs = mset ys \<longrightarrow> compute_combined_hash sha xs = compute_combined_hash sha ys) \<and>
    ((\<forall>r \<in> set xs \<union> set ys. CHR '':'' \<notin> set (rr_rel_path r) \<and> CHR 0x0A \<notin> set (rr_hash r)) \<longrightarrow>
     (sha (combined_input xs) = sha (combined_input ys) \<longrightarrow> combined_input xs = combined_input ys) \<longrightarrow>
     compute_combined_hash sha xs = compute_combined_hash sha ys \<longrightarrow>
     (\<lambda>r. (rr_rel_path r, rr_hash r)) ` set xs = (\<lambda>r. (rr_rel_path r, rr_hash r)) ` set ys)"
proof (intro conjI impI)
  assume "mset xs = mset ys"
  then have "combined_input xs = combined_input ys"
    unfolding combined_input_def by (simp only: sort_by_distinct_keys[OF _ assms])
  then show "compute_combined_hash sha xs = compute_combined_hash sha ys"
    by (simp only: compute_combined_hash_def)
next
  let ?ph = "\<lambda>r. (rr_rel_path r, rr_hash r)"
  assume n: "\<forall>r \<in> set xs \<union> set ys. CHR '':'' \<notin> set (rr_rel_path r) \<and> CHR 0x0A \<notin> set (rr_hash r)"
    and s: "sha (combined_input xs) = sha (combined_input ys) \<longrightarrow> combined_input xs = combined_input ys"
    and h: "compute_combined_hash sha xs = compute_combined_hash sha ys"
  have "combined_input xs = combined_input ys"
    using s h by (auto simp: compute_combined_hash_def dest: hex_encode_inj)
  then have "map ?ph (sort_key rr_rel_path xs) = map ?ph (sort_key rr_rel_path ys)"
    unfolding combined_input_lines by (rule hash_lines_inj[rotated]) (use n in auto)
  then have "?ph ` set (sort_key rr_rel_path xs) = ?ph ` set (sort_key rr_rel_path ys)"
    by (metis list.set_map)
  then show "?ph ` set xs = ?ph ` set ys" by simp
qed

theorem combined_hash_is_fingerprint_witness:
  "compute_combined_hash (\<lambda>s. s) example_results = compute_combined_hash (\<lambda>s. s) (rev example_results)"
  using combined_hash_is_fingerprint[of example_results "rev example_results" "\<lambda>s. s"]
  by (simp add: example_results_def)

section \<open>Project names\<close>

text \<open>
  Compose projects never collide: the project names of two valid sites are equal only for the
  same tenant and site, those of two tenants' databases only for the same tenant, and no site's
  project has the name of a database project.
\<close>

lemma project_names_unique:
  assumes "rx_match tenant_id_pattern t" "rx_match tenant_id_pattern t'"
    and "rx_match site_id_pattern s" "rx_match site_id_pattern s'"
  shows "(site_project t s = site_project t' s' \<longleftrightarrow> t = t' \<and> s = s') \<and>
    (tsdb_project t = tsdb_project t' \<longleftrightarrow> t = t') \<and> site_project t s \<noteq> tsdb_project t'"
proof -
  obtain a b a' b' where w: "t = ''tnt_'' @ a" "s = ''ste_'' @ b" "t' = ''tnt_'' @ a'" "s' = ''ste_'' @ b'"
      "slug_ok a" "slug_ok b" "slug_ok a'" "slug_ok b'"
    using assms by (auto simp: tenant_id_pattern_iff site_id_pattern_iff tenant_id_from_slug_def site_id_from_slug_def)
  note u = w(5-8)[THEN slug_ok_no_underscore]
  have "t = t' \<and> s = s'" if "site_project t s = site_project t' s'"
  proof -
    have "(a @ ''-ste'') @ CHR ''_'' # b = (a' @ ''-ste'') @ CHR ''_'' # b'"
      using that by (simp add: site_project_def w)
    then have "a @ ''-ste'' = a' @ ''-ste'' \<and> b = b'"
      by (rule split_at_char[rotated 2]) (use u in auto)
    then show ?thesis by (simp add: w)
  qed
  moreover have "site_project t s \<noteq> tsdb_project t'"
  proof
    assume "site_project t s = tsdb_project t'"
    then have "(a @ ''-ste'') @ CHR ''_'' # b = a' @ ''-tsdb''" by (simp add: site_project_def tsdb_project_def w)
    moreover have "CHR ''_'' \<notin> set (a' @ ''-tsdb'')" using u by simp
    ultimately show False by (metis in_set_conv_decomp)
  qed
  ultimately show ?thesis by (auto simp: tsdb_project_def)
qed

lemma project_names_unique_witness:
  "site_project ''tnt_a'' ''ste_x'' \<noteq> tsdb_project ''tnt_b''"
proof -
  have "slug_ok ''a''" "slug_ok ''x''" "slug_ok ''b''" by (simp_all add: slug_ok_def is_lower_def)
  then have "rx_match tenant_id_pattern ''tnt_a''" "rx_match site_id_pattern ''ste_x''" "rx_match tenant_id_pattern ''tnt_b''"
    by (simp_all add: tenant_id_pattern_iff site_id_pattern_iff tenant_id_from_slug_def site_id_from_slug_def)
  from project_names_unique[OF this(1,3,2,2)] show ?thesis by blast
qed

section \<open>Stored credentials\<close>

text \<open>
  C11. Existing database credentials are kept by an undisturbed \<^verbatim>\<open>ensureTSDBCreds\<close>, but a single
  failing read is enough to replace them: the error is taken for a missing row, new passwords
  are generated and the upsert overwrites the ones the running database was created with.
\<close>

theorem read_error_replaces_credentials:
  assumes "lookup c_tenant_id tenant (db_tsdb db) = Some c"
  shows "(db_faults db = [] \<longrightarrow> ensure_tsdb_creds rnd tenant db = (Inr c, db)) \<and>
    (db_faults db = [Some f] \<longrightarrow>
      (\<exists>c' db'. ensure_tsdb_creds rnd tenant db = (Inr c', db') \<and>
         lookup c_tenant_id tenant (db_tsdb db') =
           Some (c\<lparr>c_superuser_pass := random_hex (fst rnd), c_ingest_pass := random_hex (snd rnd)\<rparr>)))"
proof (intro conjI impI)
  assume "db_faults db = []"
  then show "ensure_tsdb_creds rnd tenant db = (Inr c, db)"
    using assms by (simp add: ensure_tsdb_creds_def get_tsdb_creds_def quiet)
next
  assume "db_faults db = [Some f]"
  then have g: "get_tsdb_creds tenant db = (Inl (Raw (SqlIO (sf_message f))), db\<lparr>db_faults := []\<rparr>)"
    by (simp add: get_tsdb_creds_def sql_query_row_def sql_point_def)
  have "has_key c_tenant_id tenant (db_tsdb db)"
    using assms lookup_None[of c_tenant_id tenant "db_tsdb db"] by (auto simp: has_key_iff)
  then show "\<exists>c' db'. ensure_tsdb_creds rnd tenant db = (Inr c', db') \<and>
       lookup c_tenant_id tenant (db_tsdb db') =
         Some (c\<lparr>c_superuser_pass := random_hex (fst rnd), c_ingest_pass := random_hex (snd rnd)\<rparr>)"
    using assms by (simp add: ensure_tsdb_creds_def g upsert_tsdb_creds_def raw_exec_def quiet upsert_tsdb_stmt_def
        Let_def lookup_upsert)
qed

definition example_creds :: tsdb_creds where
  "example_creds = \<lparr>c_tenant_id = ''tnt_a'', c_superuser_name = ''controlai_admin'', c_superuser_pass = ''in use'',
     c_ingest_name = ''controlai_ingest'', c_ingest_pass = ''in use too''\<rparr>"

theorem read_error_replaces_credentials_witness:
  "\<exists>c db'. ensure_tsdb_creds (''A'', ''B'') ''tnt_a''
       ((empty_db 0)\<lparr>db_tsdb := [example_creds], db_faults := [Some \<lparr>sf_message = ''interrupted'', sf_rows = 0\<rparr>]\<rparr>) = (Inr c, db')
     \<and> lookup c_tenant_id ''tnt_a'' (db_tsdb db') = Some (example_creds\<lparr>c_superuser_pass := random_hex ''A'', c_ingest_pass := random_hex ''B''\<rparr>)"
  using read_error_replaces_credentials[of "''tnt_a''"
      "(empty_db 0)\<lparr>db_tsdb := [example_creds], db_faults := [Some \<lparr>sf_message = ''interrupted'', sf_rows = 0\<rparr>]\<rparr>"
      example_creds "(''A'', ''B'')" "\<lparr>sf_message = ''interrupted'', sf_rows = 0\<rparr>"]
  by (simp add: lookup_def) (simp add: example_creds_def)

end
