(* ===== verification/Runner.thy ===== *)
theory Runner
  imports Prelude
begin

text \<open>
  Package \<^verbatim>\<open>internal/runner\<close>: the command lines of \<^verbatim>\<open>docker compose\<close> and the locking around them
  (\<^verbatim>\<open>compose.go\<close>), and the read path over the Docker SDK (\<^verbatim>\<open>docker.go\<close>).  The SDK is a record of
  functions, running a command is an argument of the components that do it.
\<close>

section \<open>The read path\<close>

record container_summary =
  cs_id :: string
  cs_name :: string
  cs_project_id :: string
  cs_state :: string
  cs_health_status :: string

text \<open>A container as the SDK describes it.\<close>

record api_container =
  ac_id :: string
  ac_names :: "string list"
  ac_labels :: "string \<Rightarrow> string option"
  ac_state :: string
  ac_status :: string

text \<open>The inner loop compares each position; Go's \<^verbatim>\<open>s == sub\<close> is the first disjunct.\<close>

definition contains_str :: "string \<Rightarrow> string \<Rightarrow> bool" where
  "contains_str s sub \<longleftrightarrow> length sub \<le> length s \<and>
     (s = sub \<or> list_ex (\<lambda>i. take (length sub) (drop i s) = sub) [0..<length s - length sub + 1])"

definition parse_health_status :: "string \<Rightarrow> string" where
  "parse_health_status status =
     (if length status = 0 then ''''
      else if contains_str status ''healthy'' \<and> \<not> contains_str status ''unhealthy'' then ''healthy''
      else if contains_str status ''unhealthy'' then ''unhealthy''
      else '''')"

definition project_label :: string where "project_label = ''com.docker.compose.project''"

definition label_of :: "api_container \<Rightarrow> string \<Rightarrow> string" where
  "label_of c l = (case ac_labels c l of None \<Rightarrow> '''' | Some v \<Rightarrow> v)"

definition summary_of :: "bool \<Rightarrow> api_container \<Rightarrow> container_summary" where
  "summary_of health c =
     \<lparr>cs_id = ac_id c, cs_name = (case ac_names c of [] \<Rightarrow> '''' | n # _ \<Rightarrow> n),
      cs_project_id = label_of c project_label, cs_state = ac_state c,
      cs_health_status =
        (if health \<and> ac_status c \<noteq> '''' \<and> ac_state c = ''running'' then parse_health_status (ac_status c) else '''')\<rparr>"

text \<open>\<open>list_api f\<close> is the SDK's \<^verbatim>\<open>ContainerList\<close> with all states and the label filter \<open>f\<close>.\<close>

definition list_by_project ::
  "(string \<Rightarrow> string + api_container list) \<Rightarrow> string \<Rightarrow> string + container_summary list"
where
  "list_by_project list_api project =
     (case list_api (project_label @ ''='' @ project) of
        Inl e \<Rightarrow> Inl e
      | Inr cs \<Rightarrow> Inr (map (summary_of True) cs))"

definition list_all_controlai_containers ::
  "(string \<Rightarrow> string + api_container list) \<Rightarrow> string + container_summary list"
where
  "list_all_controlai_containers list_api =
     (case list_api ''controlai.tenant'' of
        Inl e \<Rightarrow> Inl e
      | Inr cs \<Rightarrow> Inr (map (summary_of False) cs))"

text \<open>\<open>inspect\<close> gives the health of the container's state, if it has a state with health.\<close>

definition inspect_health :: "(string \<Rightarrow> string + string option) \<Rightarrow> string \<Rightarrow> string + string" where
  "inspect_health inspect c =
     (case inspect c of Inl e \<Rightarrow> Inl e | Inr None \<Rightarrow> Inr '''' | Inr (Some h) \<Rightarrow> Inr h)"

section \<open>Commands\<close>

definition compose_cmd :: "string \<Rightarrow> string \<Rightarrow> string list \<Rightarrow> string list" where
  "compose_cmd project file args = [''compose'', ''-p'', project, ''-f'', file] @ args"

definition up_cmd :: "string \<Rightarrow> string \<Rightarrow> string list \<Rightarrow> string list" where
  "up_cmd project file services = compose_cmd project file ([''up'', ''-d'', ''--no-deps''] @ services)"

definition down_cmd :: "string \<Rightarrow> string \<Rightarrow> string list" where
  "down_cmd project file = compose_cmd project file [''down'']"

definition restart_cmd :: "string \<Rightarrow> string \<Rightarrow> string list \<Rightarrow> string list" where
  "restart_cmd project file services = compose_cmd project file (''restart'' # services)"

record ps_service =
  ps_name :: string
  ps_state :: string

definition space :: "char \<Rightarrow> bool" where
  "space c \<longleftrightarrow> c \<in> {CHR '' '', CHR 0x09, CHR 0x0A, CHR 0x0B, CHR 0x0C, CHR 0x0D}"

definition trim_space :: "string \<Rightarrow> string" where
  "trim_space s = rev (dropWhile space (rev (dropWhile space s)))"

text \<open>The lines of \<^verbatim>\<open>ps --format json\<close>; \<open>unmarshal\<close> is \<^verbatim>\<open>json.Unmarshal\<close> into a service.\<close>

definition parse_ps :: "(string \<Rightarrow> ps_service option) \<Rightarrow> string \<Rightarrow> ps_service list" where
  "parse_ps unmarshal out =
     List.map_filter (\<lambda>line. if line = '''' then None else unmarshal line)
       (split_on (CHR 0x0A) (trim_space out))"

text \<open>\<open>exec\<close> runs \<^verbatim>\<open>docker\<close> with the arguments and gives its standard output or the error.\<close>

definition ps_services ::
  "(string list \<Rightarrow> string + string) \<Rightarrow> (string \<Rightarrow> ps_service option) \<Rightarrow> string \<Rightarrow> string \<Rightarrow> string + ps_service list"
where
  "ps_services exec unmarshal project file =
     (case exec (compose_cmd project file [''ps'', ''--format'', ''json'']) of
        Inl e \<Rightarrow> Inl e
      | Inr out \<Rightarrow> Inr (parse_ps unmarshal out))"

section \<open>Concurrent calls of runCompose\<close>

text \<open>
  Each goroutine that calls \<^verbatim>\<open>runCompose\<close> goes through the phases of the function: it waits for
  the mutex of its project, then for a unit of the global semaphore, runs the command, gives
  the unit back and unlocks (the deferred calls, in reverse order).  A context that ends while
  the goroutine waits for the semaphore makes it unlock and return.
\<close>

definition max_concurrent_compose :: nat where "max_concurrent_compose = 15"

datatype phase = Idle | WantMutex string | WantSem string | Running string | Unlocking string

record sched =
  sd_phase :: "nat \<Rightarrow> phase"
  sd_locked :: "string \<Rightarrow> bool"
  sd_weight :: nat

datatype act = Call | Lock | Acquire | Cancel | Finish | Unlock

definition initial_sched :: sched where
  "initial_sched = \<lparr>sd_phase = (\<lambda>t. Idle), sd_locked = (\<lambda>p. False), sd_weight = 0\<rparr>"

definition set_phase :: "nat \<Rightarrow> phase \<Rightarrow> sched \<Rightarrow> sched" where
  "set_phase t ph s = s\<lparr>sd_phase := (sd_phase s)(t := ph)\<rparr>"

inductive compose_step :: "act \<Rightarrow> nat \<Rightarrow> sched \<Rightarrow> sched \<Rightarrow> bool" where
  Call: "sd_phase s t = Idle \<Longrightarrow> compose_step Call t s (set_phase t (WantMutex p) s)"
| Lock: "sd_phase s t = WantMutex p \<Longrightarrow> \<not> sd_locked s p \<Longrightarrow>
    compose_step Lock t s ((set_phase t (WantSem p) s)\<lparr>sd_locked := (sd_locked s)(p := True)\<rparr>)"
| Acquire: "sd_phase s t = WantSem p \<Longrightarrow> sd_weight s < max_concurrent_compose \<Longrightarrow>
    compose_step Acquire t s ((set_phase t (Running p) s)\<lparr>sd_weight := sd_weight s + 1\<rparr>)"
| Cancel: "sd_phase s t = WantSem p \<Longrightarrow> compose_step Cancel t s (set_phase t (Unlocking p) s)"
| Finish: "sd_phase s t = Running p \<Longrightarrow>
    compose_step Finish t s ((set_phase t (Unlocking p) s)\<lparr>sd_weight := sd_weight s - 1\<rparr>)"
| Unlock: "sd_phase s t = Unlocking p \<Longrightarrow>
    compose_step Unlock t s ((set_phase t Idle s)\<lparr>sd_locked := (sd_locked s)(p := False)\<rparr>)"

inductive_cases compose_stepE: "compose_step a t s s'"

definition any_step :: "sched \<Rightarrow> sched \<Rightarrow> bool" where
  "any_step s s' \<longleftrightarrow> (\<exists>a t. compose_step a t s s')"

section \<open>The invariant of the locks\<close>

fun holds :: "string \<Rightarrow> phase \<Rightarrow> bool" where
  "holds p (WantSem q) = (p = q)"
| "holds p (Running q) = (p = q)"
| "holds p (Unlocking q) = (p = q)"
| "holds p _ = False"

fun is_running :: "phase \<Rightarrow> bool" where
  "is_running (Running p) = True"
| "is_running _ = False"

definition running :: "sched \<Rightarrow> nat set" where
  "running s = {t. is_running (sd_phase s t)}"

definition sched_inv :: "sched \<Rightarrow> bool" where
  "sched_inv s \<longleftrightarrow> finite (running s) \<and> card (running s) = sd_weight s \<and> sd_weight s \<le> max_concurrent_compose \<and>
     (\<forall>p. sd_locked s p \<longleftrightarrow> (\<exists>t. holds p (sd_phase s t))) \<and>
     (\<forall>p t t'. holds p (sd_phase s t) \<longrightarrow> holds p (sd_phase s t') \<longrightarrow> t = t')"

lemma holds_unique:
  "holds p ph \<Longrightarrow> holds q ph \<Longrightarrow> p = q"
  by (cases ph) auto

lemma sched_inv_initial: "sched_inv initial_sched"
  by (simp add: sched_inv_def initial_sched_def running_def)

lemma running_upd: "running (s\<lparr>sd_phase := (sd_phase s)(t := ph)\<rparr>) = (if is_running ph then insert t (running s) else running s - {t})"
  by (auto simp: running_def)

lemma running_fields [simp]: "running (s\<lparr>sd_locked := l\<rparr>) = running s" "running (s\<lparr>sd_weight := w\<rparr>) = running s"
  by (simp_all add: running_def)

lemma compose_step_inv:
  assumes "compose_step a t s s'" "sched_inv s"
  shows "sched_inv s'"
proof -
  from assms(2) have i: "finite (running s)" "card (running s) = sd_weight s" "sd_weight s \<le> max_concurrent_compose"
      "\<And>p. sd_locked s p \<longleftrightarrow> (\<exists>t. holds p (sd_phase s t))"
      "\<And>p t t'. holds p (sd_phase s t) \<Longrightarrow> holds p (sd_phase s t') \<Longrightarrow> t = t'"
    by (auto simp: sched_inv_def)
  have r: "t \<in> running s \<longleftrightarrow> is_running (sd_phase s t)" by (simp add: running_def)
  from assms(1) show ?thesis
  proof (cases rule: compose_step.cases)
    case (Call p)
    have "\<And>q. (\<exists>u. holds q (if u = t then WantMutex p else sd_phase s u)) \<longleftrightarrow> (\<exists>u. holds q (sd_phase s u))"
      using Call(3) by (metis holds.simps(4,5))
    then show ?thesis using Call i r by (auto simp: sched_inv_def set_phase_def running_upd)
  next
    case (Lock p)
    then have n: "\<And>u. \<not> holds p (sd_phase s u)" using i(4) by blast
    have "(\<exists>u. holds q (if u = t then WantSem p else sd_phase s u)) \<longleftrightarrow> q = p \<or> (\<exists>u. holds q (sd_phase s u))" for q
      using Lock(3) by (metis holds.simps(1,5))
    then show ?thesis using Lock i(1-3,5) r n i(4) by (auto simp: sched_inv_def set_phase_def running_upd)
  next
    case (Acquire p)
    have h: "holds q (if u = t then Running p else sd_phase s u) = holds q (sd_phase s u)" for q u
      using Acquire(3) by simp
    show ?thesis using Acquire i r by (auto simp: sched_inv_def set_phase_def running_upd h max_concurrent_compose_def)
  next
    case (Cancel p)
    have h: "holds q (if u = t then Unlocking p else sd_phase s u) = holds q (sd_phase s u)" for q u
      using Cancel(3) by simp
    show ?thesis using Cancel i r by (auto simp: sched_inv_def set_phase_def running_upd h)
  next
    case (Finish p)
    have h: "holds q (if u = t then Unlocking p else sd_phase s u) = holds q (sd_phase s u)" for q u
      using Finish(3) by simp
    show ?thesis using Finish i r by (auto simp: sched_inv_def set_phase_def running_upd h)
  next
    case (Unlock p)
    then have n: "holds p (sd_phase s u) \<longleftrightarrow> u = t" for u using i(5)[of p t u] by auto
    have "(\<exists>u. holds q (if u = t then Idle else sd_phase s u)) \<longleftrightarrow> q \<noteq> p \<and> (\<exists>u. holds q (sd_phase s u))" for q
      using n Unlock(3) by (metis holds.simps(3,4))
    then show ?thesis using Unlock i(1-3,5) r i(4) by (auto simp: sched_inv_def set_phase_def running_upd)
  qed
qed

lemma any_steps_inv: "any_step\<^sup>*\<^sup>* initial_sched s \<Longrightarrow> sched_inv s"
  by (induction rule: rtranclp_induct) (auto simp: sched_inv_initial any_step_def intro: compose_step_inv)

section \<open>Properties\<close>

text \<open>
  C12. At every moment of every interleaving of calls and cancellations at most one compose
  command runs per project and at most fifteen run in all, and the count the semaphore keeps is
  the number of commands running.
\<close>

theorem compose_calls_exclusive:
  assumes "any_step\<^sup>*\<^sup>* initial_sched s"
  shows "(sd_phase s t = Running p \<longrightarrow> sd_phase s t' = Running p \<longrightarrow> t = t') \<and>
    finite (running s) \<and> card (running s) = sd_weight s \<and> card (running s) \<le> 15"
proof -
  have "sched_inv s" using assms by (rule any_steps_inv)
  then show ?thesis by (metis holds.simps(2) max_concurrent_compose_def sched_inv_def)
qed

lemma example_sched: "\<exists>s. any_step\<^sup>*\<^sup>* initial_sched s \<and> sd_phase s 0 = Running ''p'' \<and> sd_phase s 1 = WantMutex ''p''"
proof -
  let ?s1 = "set_phase 0 (WantMutex ''p'') initial_sched"
  let ?s2 = "(set_phase 0 (WantSem ''p'') ?s1)\<lparr>sd_locked := (sd_locked ?s1)(''p'' := True)\<rparr>"
  let ?s3 = "(set_phase 0 (Running ''p'') ?s2)\<lparr>sd_weight := sd_weight ?s2 + 1\<rparr>"
  let ?s4 = "set_phase 1 (WantMutex ''p'') ?s3"
  have "any_step initial_sched ?s1" unfolding any_step_def
    by (rule exI, rule exI, rule compose_step.Call) (simp add: initial_sched_def)
  moreover have "any_step ?s1 ?s2" unfolding any_step_def
    by (rule exI, rule exI, rule compose_step.Lock) (simp_all add: initial_sched_def set_phase_def)
  moreover have "any_step ?s2 ?s3" unfolding any_step_def
    by (rule exI, rule exI, rule compose_step.Acquire) (simp_all add: initial_sched_def set_phase_def max_concurrent_compose_def)
  moreover have "any_step ?s3 ?s4" unfolding any_step_def
    by (rule exI, rule exI, rule compose_step.Call) (simp_all add: initial_sched_def set_phase_def)
  ultimately have "any_step\<^sup>*\<^sup>* initial_sched ?s4"
    by (elim converse_rtranclp_into_rtranclp) (rule rtranclp.rtrancl_refl)
  moreover have "sd_phase ?s4 0 = Running ''p''" "sd_phase ?s4 1 = WantMutex ''p''" by (simp_all add: set_phase_def)
  ultimately show ?thesis by blast
qed

theorem compose_calls_exclusive_witness:
  "\<exists>s. any_step\<^sup>*\<^sup>* initial_sched s \<and> sd_phase s 0 = Running ''p'' \<and> sd_phase s 1 = WantMutex ''p'' \<and> card (running s) \<le> 15"
  using example_sched compose_calls_exclusive by blast

definition steps_left :: "phase \<Rightarrow> nat" where
  "steps_left ph = (case ph of Idle \<Rightarrow> 0 | Unlocking _ \<Rightarrow> 1 | Running _ \<Rightarrow> 2 | WantSem _ \<Rightarrow> 3 | WantMutex _ \<Rightarrow> 4)"

definition advances :: "sched \<Rightarrow> bool" where
  "advances s \<longleftrightarrow> (\<exists>a u s'. a \<in> {Lock, Acquire, Finish, Unlock} \<and> compose_step a u s s' \<and>
     steps_left (sd_phase s' u) < steps_left (sd_phase s u) \<and> (\<forall>v. v \<noteq> u \<longrightarrow> sd_phase s' v = sd_phase s v))"

lemma advances_by:
  assumes "compose_step a u s s'" "a \<in> {Lock, Acquire, Finish, Unlock}"
  shows "advances s"
proof -
  have "steps_left (sd_phase s' u) < steps_left (sd_phase s u) \<and> (\<forall>v. v \<noteq> u \<longrightarrow> sd_phase s' v = sd_phase s v)"
    using assms by (cases rule: compose_step.cases) (auto simp: set_phase_def steps_left_def)
  then show ?thesis using assms unfolding advances_def by blast
qed

lemma holder_can_step:
  assumes "sched_inv s" "holds p (sd_phase s t)"
  shows "advances s"
proof (cases "sd_phase s t")
  case (WantSem q)
  show ?thesis
  proof (cases "sd_weight s < max_concurrent_compose")
    case True
    show ?thesis by (rule advances_by[OF compose_step.Acquire[OF WantSem True]]) simp
  next
    case False
    then have "running s \<noteq> {}" using assms(1) by (auto simp: sched_inv_def max_concurrent_compose_def)
    then obtain u where "is_running (sd_phase s u)" by (auto simp: running_def)
    then obtain r where r: "sd_phase s u = Running r" by (cases "sd_phase s u") auto
    show ?thesis by (rule advances_by[OF compose_step.Finish[OF r]]) simp
  qed
next
  case (Running q)
  show ?thesis by (rule advances_by[OF compose_step.Finish[OF Running]]) simp
next
  case (Unlocking q)
  show ?thesis by (rule advances_by[OF compose_step.Unlock[OF Unlocking]]) simp
qed (use assms(2) in auto)

text \<open>
  C13. The two locks cannot deadlock: in every reachable state in which some call is under way,
  some call can take a step, without a new call and without a cancellation, that brings it nearer
  to its return and leaves every other call where it is.
\<close>

theorem compose_calls_progress:
  assumes "any_step\<^sup>*\<^sup>* initial_sched s" "sd_phase s t \<noteq> Idle"
  shows "\<exists>a u s'. a \<in> {Lock, Acquire, Finish, Unlock} \<and> compose_step a u s s' \<and>
     steps_left (sd_phase s' u) < steps_left (sd_phase s u) \<and> (\<forall>v. v \<noteq> u \<longrightarrow> sd_phase s' v = sd_phase s v)"
proof -
  have i: "sched_inv s" using assms(1) by (rule any_steps_inv)
  have "advances s"
  proof (cases "sd_phase s t")
    case (WantMutex p)
    show ?thesis
    proof (cases "sd_locked s p")
      case True
      then obtain u where "holds p (sd_phase s u)" using i by (auto simp: sched_inv_def)
      then show ?thesis by (rule holder_can_step[OF i])
    next
      case False
      show ?thesis by (rule advances_by[OF compose_step.Lock[OF WantMutex False]]) simp
    qed
  qed (use assms(2) holder_can_step[OF i, of _ t] in auto)
  then show ?thesis by (simp add: advances_def)
qed

theorem compose_calls_progress_witness:
  "\<exists>s a u s'. any_step\<^sup>*\<^sup>* initial_sched s \<and> sd_phase s 1 = WantMutex ''p'' \<and> a \<noteq> Cancel \<and> compose_step a u s s'"
proof -
  obtain s where s: "any_step\<^sup>*\<^sup>* initial_sched s" "sd_phase s 1 = WantMutex ''p''" using example_sched by blast
  then show ?thesis using compose_calls_progress[OF s(1), of 1] by auto
qed

section \<open>The health status\<close>

lemma contains_str_iff: "contains_str s sub \<longleftrightarrow> (\<exists>a b. s = a @ sub @ b)"
proof
  assume "contains_str s sub"
  then have "s = sub \<or> (\<exists>i. take (length sub) (drop i s) = sub)"
    unfolding contains_str_def list_ex_iff by blast
  then show "\<exists>a b. s = a @ sub @ b"
    by (metis append_Nil append_Nil2 append_take_drop_id)
next
  assume "\<exists>a b. s = a @ sub @ b"
  then obtain a b where "s = a @ sub @ b" by blast
  then show "contains_str s sub"
    by (auto simp: contains_str_def list_ex_iff intro!: bexI[of _ "length a"])
qed

text \<open>
  The hand-written search is substring search, and the health of a status line is
  \<^verbatim>\<open>unhealthy\<close> exactly when the line contains that word, \<^verbatim>\<open>healthy\<close> exactly when it contains
  only the shorter one.
\<close>

lemma health_status_correct:
  "(contains_str s sub \<longleftrightarrow> str_contains s sub) \<and>
   (parse_health_status s = ''unhealthy'' \<longleftrightarrow> str_contains s ''unhealthy'') \<and>
   (parse_health_status s = ''healthy'' \<longleftrightarrow> str_contains s ''healthy'' \<and> \<not> str_contains s ''unhealthy'')"
  by (auto simp: parse_health_status_def contains_str_iff str_contains_iff)

end
