(* ===== verification/Reconciler.thy ===== *)
theory Reconciler
  imports Provision Pki Runner
begin

text \<open>
  Package \<^verbatim>\<open>internal/recon\<close>: the loop that drives the compose projects to their desired state.
  It works on a world that holds the registry (with the clock), the file system, Docker, the
  backoff table of the reconciler and the list of the commands it has issued.  What Docker does
  is an argument: \<open>env_list\<close> answers the SDK's listing with a label filter, \<open>env_docker\<close> runs the
  \<^verbatim>\<open>docker\<close> command line and gives the error, if any, and the time it took.
\<close>

record project_state =
  ps_failure_count :: int
  ps_next_retry :: "instant option"

record 'd world =
  w_db :: db
  w_fs :: fs
  w_docker :: 'd
  w_states :: "string \<Rightarrow> project_state option"
  w_trace :: "string list list"
  w_last_tick :: "instant option"

record 'd env =
  env_sdk :: bool
  env_list :: "string \<Rightarrow> 'd \<Rightarrow> string + api_container list"
  env_docker :: "string list \<Rightarrow> 'd \<Rightarrow> (string option \<times> nat) \<times> 'd"
  env_exec :: template_engine
  env_sha :: "string \<Rightarrow> string"
  env_fingerprint :: "cert \<Rightarrow> string"
  env_rnd :: "instant \<Rightarrow> string \<Rightarrow> randomness \<times> randomness"
  env_quote :: "string \<Rightarrow> string"
  env_rfc3339 :: "instant \<Rightarrow> string"
  env_data_dir :: string
  env_master_key :: string

datatype recon_error =
    ComposeFailed string "string list" string
  | UnknownState string string

definition on_db :: "(db \<Rightarrow> 'r \<times> db) \<Rightarrow> 'd world \<Rightarrow> 'r \<times> 'd world" where
  "on_db f w = (let (r, db) = f (w_db w) in (r, w\<lparr>w_db := db\<rparr>))"

definition audit :: "event \<Rightarrow> 'd world \<Rightarrow> 'd world" where
  "audit ev w = snd (on_db (emit ev) w)"

text \<open>\<^verbatim>\<open>runCompose\<close> with the locks granted: the command goes out and time passes.\<close>

definition run_compose :: "'d env \<Rightarrow> string \<Rightarrow> string \<Rightarrow> string list \<Rightarrow> 'd world \<Rightarrow> recon_error option \<times> 'd world" where
  "run_compose env project file args w =
     (let cmd = compose_cmd project file args;
          ((err, elapsed), d) = env_docker env cmd (w_docker w)
      in (map_option (ComposeFailed project args) err,
          w\<lparr>w_docker := d, w_trace := w_trace w @ [cmd],
            w_db := (w_db w)\<lparr>db_now := db_now (w_db w) + int elapsed\<rparr>\<rparr>))"

definition recon_error_text :: "'d env \<Rightarrow> recon_error \<Rightarrow> string" where
  "recon_error_text env e =
     (case e of
        ComposeFailed project args m \<Rightarrow> ''docker compose '' @ project @ '' '' @ join_with '' '' args @ '': '' @ m
      | UnknownState st project \<Rightarrow> ''unknown desired state '' @ env_quote env st @ '' for project '' @ project)"

section \<open>Backoff\<close>

definition backoff_ladder :: "duration list" where
  "backoff_ladder = [30 * second, 1 * minute, 5 * minute, 30 * minute]"

definition backoff_delay :: "int \<Rightarrow> duration" where
  "backoff_delay failures =
     (if failures \<le> 0 then backoff_ladder ! 0
      else let idx = failures - 1;
               idx' = (if idx \<ge> int (length backoff_ladder) then int (length backoff_ladder) - 1 else idx)
           in backoff_ladder ! nat idx')"

section \<open>Paths\<close>

definition compose_file :: "'d env \<Rightarrow> desired_state_row \<Rightarrow> string" where
  "compose_file env d =
     (if d_site_id d \<noteq> '''' then
        path_join [env_data_dir env, ''tenants'', d_tenant_id d, ''sites'', d_site_id d, ''docker-compose.yml'']
      else if d_tenant_id d \<noteq> '''' then
        path_join [env_data_dir env, ''tenants'', d_tenant_id d, ''tsdb'', ''docker-compose.yml'']
      else path_join [env_data_dir env, ''shared'', ''docker-compose.yml''])"

section \<open>The dynamic configuration of Traefik\<close>

text \<open>The caller logs the error and goes on, so only success or failure is kept.\<close>

definition traefik_ctx :: "tenant_row \<Rightarrow> site_row \<Rightarrow> string \<Rightarrow> render_context" where
  "traefik_ctx t s sni =
     \<lparr>rx_tenant = \<lparr>tx_id = t_id t, tx_name = '''', tx_domain = t_domain t, tx_retention = '''',
        tx_chunk_time_interval = '''', tx_compression_on = False, tx_schema_version = 0\<rparr>,
      rx_site = Some \<lparr>sx_id = s_id s, sx_tenant_id = s_tenant_id s, sx_broker_kind = s_broker_kind s,
        sx_throughput = '''', sx_direction = '''', sx_payload_codec = '''', sx_ingest_replicas = 0,
        sx_batch_size = 0, sx_flush_interval_ms = 0, sx_use_shared_subscription = False,
        sx_mqtt_topic_filter = '''', sx_sni_hostname = sni, sx_sans = [], sx_schema_version = 0\<rparr>,
      rx_shared = None, rx_creds = None, rx_pki = None\<rparr>"

definition ensure_traefik_dynamic :: "'d env \<Rightarrow> string \<Rightarrow> string \<Rightarrow> 'd world \<Rightarrow> provision_error option \<times> 'd world" where
  "ensure_traefik_dynamic env tenant site w =
     (case on_db (get_tenant tenant) w of
        (Inl e, w1) \<Rightarrow> (Some (FromStore ''get tenant'' e), w1)
      | (Inr t, w1) \<Rightarrow>
          (case on_db (get_site site) w1 of
             (Inl e, w2) \<Rightarrow> (Some (FromStore ''get site'' e), w2)
           | (Inr s, w2) \<Rightarrow>
               (case render_traefik_dynamic_for_site (env_exec env) (env_sha env)
                       (traefik_ctx t s (sni_hostname site tenant (t_domain t))) of
                  Inl e \<Rightarrow> (Some (FromRender ''render traefik dynamic'' e), w2)
                | Inr rs \<Rightarrow>
                    (case write_results (path_join [env_data_dir env, ''shared'', ''traefik'', ''dynamic'']) rs (w_fs w2) of
                       (Inl e, s') \<Rightarrow> (Some (FromRender ''write traefik dynamic'' e), w2\<lparr>w_fs := s'\<rparr>)
                     | (Inr _, s') \<Rightarrow> (None, w2\<lparr>w_fs := s'\<rparr>)))))"

section \<open>One project\<close>

definition containers_of :: "'d env \<Rightarrow> string \<Rightarrow> 'd world \<Rightarrow> string + container_summary list" where
  "containers_of env project w = list_by_project (\<lambda>f. env_list env f (w_docker w)) project"

definition all_running :: "container_summary list \<Rightarrow> bool" where
  "all_running cs \<longleftrightarrow> list_all (\<lambda>c. cs_state c = ''running'') cs"

definition needs_up :: "'d env \<Rightarrow> desired_state_row \<Rightarrow> 'd world \<Rightarrow> bool \<times> 'd world" where
  "needs_up env d w =
     (if \<not> env_sdk env then (True, w)
      else case containers_of env (d_project_id d) w of
        Inl _ \<Rightarrow> (True, w)
      | Inr cs \<Rightarrow>
          if cs = [] \<or> \<not> all_running cs then (True, w)
          else if d_config_hash d = '''' then (False, w)
          else case on_db (get_combined_hash (d_project_id d)) w of
            (Inr h, w1) \<Rightarrow> (h \<noteq> d_config_hash d, w1)
          | (Inl _, w1) \<Rightarrow> (True, w1))"

definition recon_event :: "desired_state_row \<Rightarrow> kind \<Rightarrow> string \<Rightarrow> bool \<Rightarrow> event" where
  "recon_event d k detail success = new_event k (d_tenant_id d) (d_site_id d) detail success ''''"

definition reconcile_up :: "'d env \<Rightarrow> desired_state_row \<Rightarrow> string \<Rightarrow> 'd world \<Rightarrow> recon_error option \<times> 'd world" where
  "reconcile_up env d file w =
     (let w1 = (if d_site_id d \<noteq> '''' \<and> d_tenant_id d \<noteq> ''''
                then snd (ensure_traefik_dynamic env (d_tenant_id d) (d_site_id d) w) else w)
      in case run_compose env (d_project_id d) file [''up'', ''-d'', ''--no-deps''] w1 of
           (Some e, w2) \<Rightarrow> (Some e, w2)
         | (None, w2) \<Rightarrow>
             let w3 = (if d_config_hash d \<noteq> ''''
                       then snd (on_db (upsert_combined_hash (d_project_id d) (d_config_hash d)) w2) else w2)
             in (None, audit (recon_event d kind_reconciler_success ''{\"action\":\"up\"}'' True) w3))"

definition reconcile_project :: "'d env \<Rightarrow> desired_state_row \<Rightarrow> string \<Rightarrow> 'd world \<Rightarrow> recon_error option \<times> 'd world" where
  "reconcile_project env d file w =
     (if d_state d = ''running'' then
        (case needs_up env d w of
           (False, w1) \<Rightarrow> (None, w1)
         | (True, w1) \<Rightarrow> reconcile_up env d file w1)
      else if d_state d = ''stopped'' then
        (if env_sdk env \<and> containers_of env (d_project_id d) w = Inr [] then (None, w)
         else case run_compose env (d_project_id d) file [''down''] w of
           (Some e, w1) \<Rightarrow> (Some e, w1)
         | (None, w1) \<Rightarrow> (None, audit (recon_event d kind_reconciler_success ''{\"action\":\"down\"}'' True) w1))
      else if d_state d = ''removed'' then run_compose env (d_project_id d) file [''down''] w
      else (Some (UnknownState (d_state d) (d_project_id d)), w))"

section \<open>Trust files of all sites\<close>

definition bool_text :: "bool \<Rightarrow> string" where
  "bool_text b = (if b then ''true'' else ''false'')"

definition trust_site :: "'d env \<Rightarrow> site_row \<Rightarrow> 'd world \<Rightarrow> 'd world" where
  "trust_site env s w =
     (if s_status s \<noteq> ''active'' then w
      else case on_db (get_tenant (s_tenant_id s)) w of
        (Inl _, w1) \<Rightarrow> w1
      | (Inr t, w1) \<Rightarrow>
          (case on_db (get_ca_cert (s_id s)) w1 of
             (Inl _, w2) \<Rightarrow> w2
           | (Inr a, w2) \<Rightarrow>
               let now = db_now (w_db w2);
                   cfg = \<lparr>tf_site_id = s_id s, tf_tenant_id = s_tenant_id s,
                          tf_cert_dir = cert_dir (env_data_dir env) (s_tenant_id s) (s_id s),
                          tf_sni_hostname = sni_hostname (s_id s) (s_tenant_id s) (t_domain t),
                          tf_master_key = env_master_key env, tf_ca_cert_pem = a_cert_pem a,
                          tf_ca_key_enc = a_key_enc a, tf_ca_key_nonce = a_key_nonce a\<rparr>;
                   ((err, res), f) = ensure_trust_files (env_fingerprint env) now (env_rnd env now (s_id s)) cfg (w_fs w2);
                   w3 = w2\<lparr>w_fs := f\<rparr>
               in if err \<noteq> None \<or> \<not> (server_rotated res \<or> ingestor_rotated res) then w3
                  else
                    let w4 = audit (new_event kind_pki_rotate (s_tenant_id s) (s_id s)
                               (''{\"server_rotated\":'' @ bool_text (server_rotated res) @
                                '',\"ingestor_rotated\":'' @ bool_text (ingestor_rotated res) @ ''}'') True '''') w3
                    in if s_broker_kind s = ''emqx'' \<and> server_rotated res then
                         (case run_compose env (site_project (s_tenant_id s) (s_id s))
                                 (path_join [env_data_dir env, ''tenants'', s_tenant_id s, ''sites'', s_id s, ''docker-compose.yml''])
                                 [''restart'', ''broker''] w4 of
                            (Some e, w5) \<Rightarrow>
                              audit (new_event kind_broker_restart (s_tenant_id s) (s_id s)
                                (''{\"err\":'' @ env_quote env (recon_error_text env e) @ ''}'') False '''') w5
                          | (None, w5) \<Rightarrow>
                              audit (new_event kind_broker_restart (s_tenant_id s) (s_id s) ''{}'' True '''') w5)
                       else w4))"

definition ensure_all_trust_files :: "'d env \<Rightarrow> 'd world \<Rightarrow> 'd world" where
  "ensure_all_trust_files env w =
     (case on_db list_all_sites w of
        ((Some _, _), w1) \<Rightarrow> w1
      | ((None, sites), w1) \<Rightarrow> fold (trust_site env) sites w1)"

definition ensure_initial_trust_files :: "'d env \<Rightarrow> 'd world \<Rightarrow> 'd world" where
  "ensure_initial_trust_files env w =
     (if length (env_master_key env) > 0 then ensure_all_trust_files env w else w)"

section \<open>The tick\<close>

definition state_of :: "'d world \<Rightarrow> string \<Rightarrow> project_state" where
  "state_of w pid =
     (case w_states w pid of None \<Rightarrow> \<lparr>ps_failure_count = 0, ps_next_retry = None\<rparr> | Some ps \<Rightarrow> ps)"

definition set_state :: "string \<Rightarrow> project_state \<Rightarrow> 'd world \<Rightarrow> 'd world" where
  "set_state pid ps w = w\<lparr>w_states := (w_states w)(pid \<mapsto> ps)\<rparr>"

definition in_backoff :: "project_state \<Rightarrow> instant \<Rightarrow> bool" where
  "in_backoff ps now = (case ps_next_retry ps of None \<Rightarrow> False | Some t \<Rightarrow> now < t)"

definition tick_project :: "'d env \<Rightarrow> desired_state_row \<Rightarrow> 'd world \<Rightarrow> 'd world" where
  "tick_project env d w =
     (let pid = d_project_id d; ps = state_of w pid; w1 = set_state pid ps w
      in if in_backoff ps (db_now (w_db w1)) then w1
         else case reconcile_project env d (compose_file env d) w1 of
           (Some e, w2) \<Rightarrow>
             let n = ps_failure_count ps + 1; delay = backoff_delay n; retry = db_now (w_db w2) + delay;
                 w3 = set_state pid \<lparr>ps_failure_count = n, ps_next_retry = Some retry\<rparr> w2;
                 w4 = audit (recon_event d kind_reconciler_failure
                        (''{\"err\":'' @ env_quote env (recon_error_text env e) @ '',\"backoff_s\":'' @
                         itoa (delay div second) @ ''}'') False) w3
             in audit (recon_event d kind_reconciler_backoff
                   (''{\"next_retry\":'' @ env_quote env (env_rfc3339 env retry) @ ''}'') True) w4
         | (None, w2) \<Rightarrow> set_state pid \<lparr>ps_failure_count = 0, ps_next_retry = None\<rparr> w2)"

definition tick :: "'d env \<Rightarrow> 'd world \<Rightarrow> 'd world" where
  "tick env w =
     (case on_db list_desired_states w of
        ((Some _, _), w1) \<Rightarrow> w1
      | ((None, ds), w1) \<Rightarrow>
          let w2 = (if length (env_master_key env) > 0 then ensure_all_trust_files env w1 else w1);
              w3 = fold (tick_project env) ds w2
          in w3\<lparr>w_last_tick := Some (db_now (w_db w3))\<rparr>)"

definition trigger :: "'d env \<Rightarrow> 'd world \<Rightarrow> 'd world" where
  "trigger env w = tick env w"

definition is_converged :: "'d env \<Rightarrow> string \<Rightarrow> 'd world \<Rightarrow> string + bool" where
  "is_converged env project w =
     (if \<not> env_sdk env then Inr False
      else case containers_of env project w of
        Inl e \<Rightarrow> Inl e
      | Inr cs \<Rightarrow> Inr (cs \<noteq> [] \<and> all_running cs))"

definition list_by_project_or_nil :: "'d env \<Rightarrow> string \<Rightarrow> 'd world \<Rightarrow> container_summary list" where
  "list_by_project_or_nil env project w =
     (if \<not> env_sdk env then [] else case containers_of env project w of Inl _ \<Rightarrow> [] | Inr cs \<Rightarrow> cs)"

section \<open>The invariant of the world\<close>

definition states_ok :: "'d world \<Rightarrow> bool" where
  "states_ok w \<longleftrightarrow> (\<forall>pid ps. w_states w pid = Some ps \<longrightarrow>
     0 \<le> ps_failure_count ps \<and> (ps_next_retry ps = None \<longleftrightarrow> ps_failure_count ps = 0))"

lemma on_db_runs: "on_db f w = (r, w') \<Longrightarrow> \<exists>db'. f (w_db w) = (r, db') \<and> w' = w\<lparr>w_db := db'\<rparr>"
  by (auto simp: on_db_def split: prod.splits)

lemma audit_fields [simp]:
  "w_fs (audit ev w) = w_fs w" "w_docker (audit ev w) = w_docker w" "w_states (audit ev w) = w_states w"
  "w_trace (audit ev w) = w_trace w" "w_last_tick (audit ev w) = w_last_tick w"
  by (auto simp: audit_def on_db_def split: prod.splits)

lemma audit_inv: "db_inv (w_db w) \<Longrightarrow> db_inv (w_db (audit ev w))"
  using emit_inv[of "w_db w" ev] by (cases "emit ev (w_db w)") (simp add: audit_def on_db_def)

lemma run_compose_fields:
  "run_compose env p f args w = (r, w') \<Longrightarrow> w_fs w' = w_fs w \<and> w_states w' = w_states w \<and>
     w_trace w' = w_trace w @ [compose_cmd p f args] \<and> w_last_tick w' = w_last_tick w"
  by (auto simp: run_compose_def Let_def split: prod.splits)

lemma run_compose_inv: "db_inv (w_db w) \<Longrightarrow> run_compose env p f args w = (r, w') \<Longrightarrow> db_inv (w_db w')"
  by (auto simp: run_compose_def Let_def split: prod.splits)

lemma on_db_fields [simp]:
  "w_fs (snd (on_db f w)) = w_fs w" "w_docker (snd (on_db f w)) = w_docker w" "w_states (snd (on_db f w)) = w_states w"
  "w_trace (snd (on_db f w)) = w_trace w"
  by (simp_all add: on_db_def split: prod.splits)

lemma on_db_result: "on_db f w = (r, w') \<Longrightarrow> w_docker w' = w_docker w \<and> w_trace w' = w_trace w \<and>
    w_states w' = w_states w \<and> w_fs w' = w_fs w"
  by (auto simp: on_db_def split: prod.splits)

lemma ensure_traefik_dynamic_fields:
  "ensure_traefik_dynamic env t s w = (r, w') \<Longrightarrow> w_docker w' = w_docker w \<and> w_trace w' = w_trace w \<and> w_states w' = w_states w"
  by (auto simp: ensure_traefik_dynamic_def split: prod.splits sum.splits dest!: on_db_result)

lemma ensure_traefik_dynamic_fields_snd [simp]:
  "w_docker (snd (ensure_traefik_dynamic env t s w)) = w_docker w"
  "w_trace (snd (ensure_traefik_dynamic env t s w)) = w_trace w"
  "w_states (snd (ensure_traefik_dynamic env t s w)) = w_states w"
  using ensure_traefik_dynamic_fields[of env t s w] by (cases "ensure_traefik_dynamic env t s w"; simp)+

lemma needs_up_fields: "needs_up env d w = (b, w') \<Longrightarrow> w_docker w' = w_docker w \<and> w_trace w' = w_trace w \<and> w_states w' = w_states w"
  by (auto simp: needs_up_def split: prod.splits sum.splits if_splits dest!: on_db_result)

definition up_args :: "string list" where "up_args = [''up'', ''-d'', ''--no-deps'']"

text \<open>An \<open>up\<close> issues exactly its command.\<close>

lemma reconcile_up_trace:
  assumes "reconcile_up env d file w = (r, w')"
  shows "w_trace w' = w_trace w @ [compose_cmd (d_project_id d) file up_args] \<and> w_states w' = w_states w"
proof -
  define w1 where "w1 = (if d_site_id d \<noteq> '''' \<and> d_tenant_id d \<noteq> ''''
      then snd (ensure_traefik_dynamic env (d_tenant_id d) (d_site_id d) w) else w)"
  have 1: "w_trace w1 = w_trace w \<and> w_states w1 = w_states w"
    by (simp add: w1_def)
  obtain e w2 where 2: "run_compose env (d_project_id d) file up_args w1 = (e, w2)" by fastforce
  have "w_trace w' = w_trace w2 \<and> w_states w' = w_states w2"
    using assms 2 by (auto simp: reconcile_up_def Let_def w1_def[symmetric] up_args_def split: option.splits)
  then show ?thesis using 1 run_compose_fields[OF 2] by simp
qed

lemma reconcile_up_docker:
  assumes "reconcile_up env d file w = (r, w')"
  shows "w_docker w' = snd (env_docker env (compose_cmd (d_project_id d) file up_args) (w_docker w))"
    "r = map_option (ComposeFailed (d_project_id d) up_args)
           (fst (fst (env_docker env (compose_cmd (d_project_id d) file up_args) (w_docker w))))"
proof -
  define w1 where "w1 = (if d_site_id d \<noteq> '''' \<and> d_tenant_id d \<noteq> ''''
      then snd (ensure_traefik_dynamic env (d_tenant_id d) (d_site_id d) w) else w)"
  have 1: "w_docker w1 = w_docker w"
    by (simp add: w1_def)
  obtain e w2 where 2: "run_compose env (d_project_id d) file up_args w1 = (e, w2)" by fastforce
  have "w_docker w' = w_docker w2" "r = e"
    using assms 2 by (auto simp: reconcile_up_def Let_def w1_def[symmetric] up_args_def split: option.splits)
  then show "w_docker w' = snd (env_docker env (compose_cmd (d_project_id d) file up_args) (w_docker w))"
    "r = map_option (ComposeFailed (d_project_id d) up_args)
           (fst (fst (env_docker env (compose_cmd (d_project_id d) file up_args) (w_docker w))))"
    using 1 2 by (auto simp: run_compose_def Let_def split: prod.splits)
qed

section \<open>What the reconciler asks Docker to do\<close>

text \<open>One reconciliation issues no command, or one that moves the project to its desired state.\<close>

definition right_command :: "desired_state_row \<Rightarrow> string \<Rightarrow> string list \<Rightarrow> bool" where
  "right_command d file cmd \<longleftrightarrow>
     cmd = compose_cmd (d_project_id d) file up_args \<and> d_state d = ''running'' \<or>
     cmd = compose_cmd (d_project_id d) file [''down''] \<and> d_state d \<in> {''stopped'', ''removed''}"

lemma reconcile_project_trace:
  assumes "reconcile_project env d file w = (r, w')"
  shows "w_trace w' = w_trace w \<or> (\<exists>cmd. right_command d file cmd \<and> w_trace w' = w_trace w @ [cmd])"
proof -
  have f: "run_compose env p f a w1 = (x, w2) \<Longrightarrow> w_trace w2 = w_trace w1 @ [compose_cmd p f a]" for p f a w1 x w2
    by (simp add: run_compose_fields)
  show ?thesis
    using assms
    by (auto simp: reconcile_project_def right_command_def split: if_splits prod.splits option.splits bool.splits
        dest!: f reconcile_up_trace needs_up_fields)
qed

text \<open>
  C14. The reconciler only ever moves a project towards its desired state: one reconciliation
  issues no command or exactly one, for the row's project and compose file; the command is
  \<^verbatim>\<open>up\<close> only if the row says \<^verbatim>\<open>running\<close> and \<^verbatim>\<open>down\<close> only if it says \<^verbatim>\<open>stopped\<close> or \<^verbatim>\<open>removed\<close>, and a
  state the code does not know is an error without a command.
\<close>

theorem reconcile_issues_right_command:
  assumes "reconcile_project env d file w = (r, w')"
  shows "(w_trace w' = w_trace w \<or>
    (\<exists>args. w_trace w' = w_trace w @ [compose_cmd (d_project_id d) file args] \<and>
       (args = up_args \<and> d_state d = ''running'' \<or> args = [''down''] \<and> d_state d \<in> {''stopped'', ''removed''}))) \<and>
    (d_state d \<notin> {''running'', ''stopped'', ''removed''} \<longrightarrow> r \<noteq> None \<and> w' = w)"
  using reconcile_project_trace[OF assms] assms by (auto simp: right_command_def reconcile_project_def)

text \<open>A world for the examples: Docker is the list of projects whose containers run.\<close>

definition example_container :: "string \<Rightarrow> api_container" where
  "example_container p = \<lparr>ac_id = ''c'' @ p, ac_names = [p], ac_labels = [project_label \<mapsto> p], ac_state = ''running'', ac_status = ''Up''\<rparr>"

definition example_env :: "(string list) env" where
  "example_env =
     \<lparr>env_sdk = True,
      env_list = (\<lambda>f ps. Inr (map example_container (filter (\<lambda>p. f = project_label @ ''='' @ p) ps))),
      env_docker = (\<lambda>cmd ps.
        let p = cmd ! 2 in if cmd ! 5 = ''up'' then ((None, 2000000000), p # ps)
          else if cmd ! 5 = ''down'' then ((None, 1000000000), filter (\<lambda>q. q \<noteq> p) ps) else ((Some ''exit status 1'', 0), ps)),
      env_exec = (\<lambda>p c. Inr ''x''), env_sha = (\<lambda>s. s), env_fingerprint = (\<lambda>c. ''fp''),
      env_rnd = (\<lambda>t s. (example_rnd 1, example_rnd 2)), env_quote = (\<lambda>s. s), env_rfc3339 = (\<lambda>t. ''''),
      env_data_dir = ''/data'', env_master_key = ''''\<rparr>"

definition example_world :: "string list \<Rightarrow> (string list) world" where
  "example_world ps = \<lparr>w_db = empty_db 0, w_fs = empty_fs, w_docker = ps, w_states = Map.empty, w_trace = [], w_last_tick = None\<rparr>"

theorem reconcile_issues_right_command_witness:
  "\<exists>r w'. reconcile_project example_env (example_desired\<lparr>d_state := ''paused''\<rparr>) ''/f'' (example_world []) = (r, w') \<and>
     r \<noteq> None \<and> w_trace w' = []"
proof -
  obtain r w' where r: "reconcile_project example_env (example_desired\<lparr>d_state := ''paused''\<rparr>) ''/f'' (example_world []) = (r, w')"
    by fastforce
  show ?thesis using r reconcile_issues_right_command[OF r] by (simp add: example_world_def)
qed

definition settled :: "'d env \<Rightarrow> desired_state_row \<Rightarrow> 'd world \<Rightarrow> bool" where
  "settled env d w \<longleftrightarrow>
     (case containers_of env (d_project_id d) w of
        Inl _ \<Rightarrow> False
      | Inr cs \<Rightarrow> cs \<noteq> [] \<and> (\<forall>c \<in> set cs. cs_state c = ''running'') \<and>
         (d_config_hash d = '''' \<or>
          map_option f_content_hash (lookup hash_key (d_project_id d, ''_combined'') (db_hashes (w_db w))) = Some (d_config_hash d)))"

lemma needs_up_settled:
  assumes "env_sdk env" "db_faults (w_db w) = []"
  shows "needs_up env d w = (\<not> settled env d w, w)"
  using assms
  by (auto simp: needs_up_def settled_def all_running_def list_all_iff on_db_def combined.get_quiet
      split: sum.splits option.splits)

text \<open>
  C15. Drift detection is exact: with the Docker SDK at hand and a readable registry, for a row
  that says \<^verbatim>\<open>running\<close> the reconciler leaves Docker alone exactly when the project's containers
  could be listed, there are some, all of them run, and the row has no hash or the hash recorded
  after the last successful \<^verbatim>\<open>up\<close> is the row's; in every other case it runs \<^verbatim>\<open>up\<close>.
\<close>

theorem running_project_up_iff_drift:
  assumes "env_sdk env" "d_state d = ''running''" "db_faults (w_db w) = []"
    and "reconcile_project env d file w = (r, w')"
  shows "if settled env d w then r = None \<and> w' = w
         else w_trace w' = w_trace w @ [compose_cmd (d_project_id d) file up_args]"
  using assms(2,4)
  by (cases "settled env d w")
    (auto simp: reconcile_project_def needs_up_settled[OF assms(1,3)] dest!: reconcile_up_trace)

theorem running_project_up_iff_drift_witness:
  "\<exists>r w'. reconcile_project example_env example_desired ''/f'' (example_world [''p'']) = (r, w') \<and>
     w_trace w' = [compose_cmd ''p'' ''/f'' up_args]"
proof -
  obtain r w' where r: "reconcile_project example_env example_desired ''/f'' (example_world [''p'']) = (r, w')"
    by fastforce
  have "\<not> settled example_env example_desired (example_world [''p''])"
    by (simp add: settled_def example_desired_def example_world_def empty_db_def lookup_def split: sum.splits)
  then show ?thesis
    using r running_project_up_iff_drift[OF _ _ _ r]
    by (simp add: example_env_def example_world_def empty_db_def) (simp add: example_desired_def)
qed

lemma get_quiet_db:
  "db_faults (w_db w) = [] \<Longrightarrow> on_db (get_tenant k) w = (rt, w') \<Longrightarrow> w_db w' = w_db w"
  "db_faults (w_db w) = [] \<Longrightarrow> on_db (get_site k) w = (rs, w') \<Longrightarrow> w_db w' = w_db w"
  by (auto simp: on_db_def get_tenant_def get_site_def quiet split: option.splits)

lemma traefik_quiet:
  assumes "db_faults (w_db w) = []" "ensure_traefik_dynamic env t s w = (r, w')"
  shows "w_db w' = w_db w"
proof -
  obtain rt w1 where 1: "on_db (get_tenant t) w = (rt, w1)" by fastforce
  obtain rs w2 where 2: "on_db (get_site s) w1 = (rs, w2)" by fastforce
  have e: "w_db w1 = w_db w" "w_db w2 = w_db w"
    using get_quiet_db(1)[OF assms(1) 1] get_quiet_db(2)[OF _ 2] assms(1) by auto
  show ?thesis using assms(2) e by (auto simp: ensure_traefik_dynamic_def 1 2 split: sum.splits prod.splits)
qed

lemma emit_quiet: "db_faults db = [] \<Longrightarrow> emit ev db = (r, db') \<Longrightarrow> db_faults db' = [] \<and> db_hashes db' = db_hashes db"
  by (auto simp: emit_def quiet insert_event_def)

lemma audit_quiet:
  "db_faults (w_db w) = [] \<Longrightarrow> db_faults (w_db (audit ev w)) = [] \<and> db_hashes (w_db (audit ev w)) = db_hashes (w_db w)"
  using emit_quiet[of "w_db w" ev] by (cases "emit ev (w_db w)") (simp add: audit_def on_db_def)

lemma reconcile_up_records:
  assumes "db_faults (w_db w) = []" "d_config_hash d \<noteq> ''''" "reconcile_up env d file w = (None, w')"
  shows "db_faults (w_db w') = [] \<and>
    map_option f_content_hash (lookup hash_key (d_project_id d, ''_combined'') (db_hashes (w_db w'))) = Some (d_config_hash d)"
proof -
  define w1 where "w1 = (if d_site_id d \<noteq> '''' \<and> d_tenant_id d \<noteq> ''''
      then snd (ensure_traefik_dynamic env (d_tenant_id d) (d_site_id d) w) else w)"
  have 1: "db_faults (w_db w1) = []"
    using traefik_quiet[OF assms(1), of env "d_tenant_id d" "d_site_id d"] assms(1)
    by (cases "ensure_traefik_dynamic env (d_tenant_id d) (d_site_id d) w") (simp add: w1_def)
  obtain e w2 where 2: "run_compose env (d_project_id d) file [''up'', ''-d'', ''--no-deps''] w1 = (e, w2)" by fastforce
  have f2: "db_faults (w_db w2) = []" using 1 2 by (auto simp: run_compose_def Let_def split: prod.splits)
  obtain r3 db3 where 3: "upsert_combined_hash (d_project_id d) (d_config_hash d) (w_db w2) = (r3, db3)" by fastforce
  have r3: "r3 = Inr ()"
    using 3 f2 by (auto simp: upsert_combined_hash_def upsert_file_hash_def raw_exec_def quiet upsert_hash_stmt_def)
  have f3: "db_faults db3 = []" using combined.put_quiet[OF 3 f2] .
  have h: "map_option f_content_hash (lookup hash_key (d_project_id d, ''_combined'') (db_hashes db3)) = Some (d_config_hash d)"
    using combined.put_ok[OF 3[unfolded r3]] by (simp add: fun_eq_iff)
  let ?w3 = "w2\<lparr>w_db := db3\<rparr>"
  have w': "w' = audit (recon_event d kind_reconciler_success ''{\"action\":\"up\"}'' True) ?w3"
    using assms(2,3) 2 3 by (auto simp: reconcile_up_def Let_def w1_def[symmetric] on_db_def split: option.splits)
  show ?thesis using audit_quiet[of ?w3] f3 h by (simp add: w')
qed

text \<open>
  C16. An applied configuration stays applied: after an \<^verbatim>\<open>up\<close> that succeeded for a row with a
  hash, with a registry that takes the write, the next reconciliation of the same row issues no
  command as long as the project's containers are listed and all run.
\<close>

theorem reconcile_settles:
  assumes "env_sdk env" "d_state d = ''running''" "d_config_hash d \<noteq> ''''" "db_faults (w_db w) = []"
    and "reconcile_project env d file w = (None, w1)"
    and "containers_of env (d_project_id d) w1 = Inr cs" "cs \<noteq> []" "\<forall>c \<in> set cs. cs_state c = ''running''"
    and "reconcile_project env d file w1 = (r, w2)"
  shows "r = None \<and> w2 = w1"
proof -
  have "settled env d w1 \<and> db_faults (w_db w1) = []"
  proof (cases "settled env d w")
    case True
    then have "w1 = w" using assms(2,5) by (auto simp: reconcile_project_def needs_up_settled[OF assms(1,4)])
    then show ?thesis using True assms(4) by simp
  next
    case False
    then have "reconcile_up env d file w = (None, w1)"
      using assms(2,5) by (auto simp: reconcile_project_def needs_up_settled[OF assms(1,4)])
    from reconcile_up_records[OF assms(4,3) this] show ?thesis
      using assms(6-8) by (auto simp: settled_def)
  qed
  then show ?thesis
    using assms(2,9) by (auto simp: reconcile_project_def needs_up_settled[OF assms(1)])
qed

theorem reconcile_settles_witness:
  "\<exists>w1 r w2. reconcile_project example_env example_desired ''/f'' (example_world []) = (None, w1) \<and>
     reconcile_project example_env example_desired ''/f'' w1 = (r, w2) \<and> r = None \<and> w2 = w1"
proof -
  obtain x w1 where 1: "reconcile_project example_env example_desired ''/f'' (example_world []) = (x, w1)" by fastforce
  have u: "reconcile_up example_env example_desired ''/f'' (example_world []) = (x, w1)"
    using 1 needs_up_settled[of example_env "example_world []" example_desired]
    by (simp add: reconcile_project_def settled_def containers_of_def list_by_project_def example_env_def
        example_world_def empty_db_def) (simp add: example_desired_def)
  have x: "x = None" and d: "w_docker w1 = [''p'']"
    using reconcile_up_docker[OF u]
    by (simp_all add: example_env_def example_desired_def example_world_def compose_cmd_def up_args_def)
  have c: "containers_of example_env ''p'' w1 = Inr [summary_of True (example_container ''p'')]"
    by (simp add: containers_of_def list_by_project_def example_env_def d)
  obtain r w2 where 2: "reconcile_project example_env example_desired ''/f'' w1 = (r, w2)" by fastforce
  have "r = None \<and> w2 = w1"
    by (rule reconcile_settles[OF _ _ _ _ 1[unfolded x] _ _ _ 2])
      (simp_all add: example_desired_def c, simp_all add: example_env_def example_world_def empty_db_def summary_of_def example_container_def)
  then show ?thesis using 1 2 x by blast
qed

end
