(* ===== verification/ReconcilerInv.thy ===== *)
theory ReconcilerInv
  imports Reconciler "HOL-Library.Sublist"
begin

text \<open>
  What holds of every tick of the reconciler: relations between the world before and after that
  all its effects respect (the clock, the consistency of the registry, the history of commands,
  the backoff table), the bounds of the backoff, and the isolation of the projects.
\<close>

section \<open>Backoff\<close>

lemma backoff_delay_cases:
  "backoff_delay n = (if n \<le> 1 then 30 * second else if n = 2 then 1 * minute else if n = 3 then 5 * minute else 30 * minute)"
proof -
  consider "n \<le> 0" | "n = 1" | "n = 2" | "n = 3" | "4 \<le> n" by linarith
  then show ?thesis
  proof cases
    case 5
    then have "nat (if n - 1 \<ge> 4 then 3 else n - 1) = 3" by auto
    then show ?thesis using 5 by (simp add: backoff_delay_def backoff_ladder_def Let_def)
  qed (simp_all add: backoff_delay_def backoff_ladder_def)
qed

text \<open>
  The retry delay follows the ladder: half a minute after the first failure, one and five
  minutes after the second and third, half an hour from the fourth on; it never leaves these
  bounds, never shrinks, and the index into the ladder is always in range.
\<close>

lemma backoff_ladder_bounds:
  "backoff_delay n \<in> set backoff_ladder \<and> 30 * second \<le> backoff_delay n \<and> backoff_delay n \<le> 30 * minute \<and>
   map backoff_delay [1, 2, 3, 4] = backoff_ladder \<and> backoff_delay (4 + int k) = 30 * minute \<and>
   backoff_delay n \<le> backoff_delay (n + int k)"
  by (auto simp: backoff_delay_cases backoff_ladder_def second_def minute_def)

section \<open>Relations every step respects\<close>

text \<open>
  A reflexive and transitive relation on worlds that the basic effects of the reconciler respect
  (a read of the registry, an audit event, the record of an applied hash, a change of files, a
  compose command) is respected by a reconciliation and by the certificate check of all sites;
  if it also ignores the reconciler's own table, by a whole tick.
\<close>

locale world_rel =
  fixes R :: "'d world \<Rightarrow> 'd world \<Rightarrow> bool"
  assumes R_refl: "R w w"
    and R_trans: "R u v \<Longrightarrow> R v w \<Longrightarrow> R u w"
    and R_read: "R w (w\<lparr>w_db := (w_db w)\<lparr>db_faults := fs\<rparr>\<rparr>)"
    and R_audit: "R w (audit ev w)"
    and R_combined: "on_db (upsert_combined_hash p h) w = (r, w') \<Longrightarrow> R w w'"
    and R_files: "R w (w\<lparr>w_fs := f\<rparr>)"
    and R_compose: "run_compose env p file args w = (e, w') \<Longrightarrow> R w w'"
begin

lemma R_on_db:
  "on_db (get_tenant k) w = (rt, w') \<Longrightarrow> R w w'"
  "on_db (get_site k) w = (rs, w') \<Longrightarrow> R w w'"
  "on_db (get_ca_cert k) w = (ra, w') \<Longrightarrow> R w w'"
  "on_db (get_combined_hash k) w = (rh, w') \<Longrightarrow> R w w'"
  "on_db list_all_sites w = (ls, w') \<Longrightarrow> R w w'"
  "on_db list_desired_states w = (ld, w') \<Longrightarrow> R w w'"
  by (auto simp: on_db_def R_read split: prod.splits dest!: get_state)

lemma R_then_files: "R u v \<Longrightarrow> R u (v\<lparr>w_fs := f\<rparr>)"
  using R_trans[OF _ R_files] .

lemma R_then_audit: "R u v \<Longrightarrow> R u (audit ev v)"
  using R_trans[OF _ R_audit] .

lemma R_traefik: "ensure_traefik_dynamic env t s w = (r, w') \<Longrightarrow> R w w'"
  by (auto simp: ensure_traefik_dynamic_def split: prod.splits sum.splits dest!: R_on_db
      intro: R_then_files R_trans)

lemma R_needs_up: "needs_up env d w = (b, w') \<Longrightarrow> R w w'"
  by (auto simp: needs_up_def R_refl split: prod.splits sum.splits if_splits dest!: R_on_db)

lemma R_up:
  assumes "reconcile_up env d file w = (r, w')"
  shows "R w w'"
proof -
  define w1 where "w1 = (if d_site_id d \<noteq> '''' \<and> d_tenant_id d \<noteq> ''''
      then snd (ensure_traefik_dynamic env (d_tenant_id d) (d_site_id d) w) else w)"
  have 1: "R w w1"
    by (simp add: w1_def R_refl R_traefik[OF prod.collapse[symmetric]])
  obtain e w2 where 2: "run_compose env (d_project_id d) file [''up'', ''-d'', ''--no-deps''] w1 = (e, w2)" by fastforce
  have 3: "R w1 w2" using R_compose[OF 2] .
  obtain c w3 where 4: "on_db (upsert_combined_hash (d_project_id d) (d_config_hash d)) w2 = (c, w3)" by fastforce
  have "R w2 w3" using R_combined[OF 4] .
  then have "R w2 w'"
    using assms 2 4 by (auto simp: reconcile_up_def Let_def w1_def[symmetric] R_refl intro: R_then_audit split: option.splits if_splits)
  then show ?thesis using 1 3 R_trans by blast
qed

lemma R_project:
  assumes "reconcile_project env d file w = (r, w')"
  shows "R w w'"
  using assms
  by (auto simp: reconcile_project_def R_refl split: if_splits prod.splits option.splits bool.splits
      dest!: R_compose R_up R_needs_up intro: R_then_audit R_trans)

lemma R_trust_site: "R w (trust_site env s w)"
proof (cases "s_status s = ''active''")
  case True
  obtain rt w1 where 1: "on_db (get_tenant (s_tenant_id s)) w = (rt, w1)" by fastforce
  obtain ra w2 where 2: "on_db (get_ca_cert (s_id s)) w1 = (ra, w2)" by fastforce
  have 3: "R w w1" "R w w2" using R_on_db(1)[OF 1] R_on_db(3)[OF 2] R_trans by blast+
  have 4: "run_compose env p f args v = (e, v') \<Longrightarrow> R w v \<Longrightarrow> R w v'" for p f args v e v'
    using R_compose R_trans by blast
  show ?thesis using True 1 2 3
    by (auto simp: trust_site_def Let_def split: sum.splits prod.splits option.splits
        intro!: R_then_audit R_then_files intro: 4)
qed (simp add: trust_site_def R_refl)

lemma R_fold: "(\<And>x v. x \<in> set xs \<Longrightarrow> R v (f x v)) \<Longrightarrow> R w (fold f xs w)"
proof (induction xs arbitrary: w)
  case (Cons x xs)
  have "R w (f x w)" "R (f x w) (fold f xs (f x w))" using Cons by simp_all
  then show ?case using R_trans by auto
qed (simp add: R_refl)

lemma R_all_trust: "R w (ensure_all_trust_files env w)"
proof -
  obtain r w1 where 1: "on_db list_all_sites w = (r, w1)" by fastforce
  have 2: "R w w1" using R_on_db(5)[OF 1] .
  have "R w1 (fold (trust_site env) sites w1)" for sites by (rule R_fold) (rule R_trust_site)
  then show ?thesis using 1 2 R_trans
    by (auto simp: ensure_all_trust_files_def split: prod.splits option.splits)
qed

end

locale tick_rel = world_rel R for R :: "'d world \<Rightarrow> 'd world \<Rightarrow> bool" +
  assumes R_state: "R w (set_state pid ps w)"
    and R_last: "R w (w\<lparr>w_last_tick := l\<rparr>)"
begin

lemma R_tick_project: "R w (tick_project env d w)"
proof -
  let ?w = "set_state (d_project_id d) (state_of w (d_project_id d)) w"
  obtain r w2 where r: "reconcile_project env d (compose_file env d) ?w = (r, w2)" by fastforce
  have 1: "R w ?w" by (rule R_state)
  have 2: "R w w2" using 1 R_project[OF r] R_trans by blast
  have 3: "R w (set_state p ps w2)" for p ps using 2 R_state R_trans by blast
  show ?thesis using 1 3
    by (auto simp: tick_project_def Let_def r split: option.splits intro!: R_then_audit)
qed

lemma R_tick: "R w (tick env w)"
proof -
  obtain r w1 where 1: "on_db list_desired_states w = (r, w1)" by fastforce
  have 2: "R w w1" using R_on_db(6)[OF 1] .
  have 3: "R w (ensure_all_trust_files env w1)"
    using 2 R_all_trust R_trans by blast
  have 4: "R w (fold (tick_project env) ds v)" if "R w v" for ds v
    using that R_fold[of ds "tick_project env" v, OF R_tick_project] R_trans by blast
  have 5: "R u v \<Longrightarrow> R u (v\<lparr>w_last_tick := l\<rparr>)" for u v l using R_last R_trans by blast
  show ?thesis using 1 2 3 4
    by (auto simp: tick_def Let_def split: prod.splits option.splits intro!: 5)
qed

end

lemma set_state_fields [simp]:
  "w_db (set_state p ps w) = w_db w" "w_states (set_state p ps w) = (w_states w)(p \<mapsto> ps)"
  "w_trace (set_state p ps w) = w_trace w" "w_fs (set_state p ps w) = w_fs w" "w_docker (set_state p ps w) = w_docker w"
  by (simp_all add: set_state_def)

interpretation clk: db_predicate "\<lambda>db. db_now db = t" for t
  by unfold_locales simp

lemma emit_now: "db_now (snd (emit ev db)) = db_now db"
  using clk.sql_exec_P[of "db_now db" "insert_event ev" db]
  by (auto simp: emit_def clk.keeps_def insert_event_def split: prod.splits sum.splits)

lemma upsert_combined_now: "db_now (snd (upsert_combined_hash p h db)) = db_now db"
  unfolding upsert_combined_hash_def upsert_file_hash_def
  by (rule clk.raw_exec_P) (auto simp: clk.keeps_def upsert_hash_stmt_def)

abbreviation clock :: "'d world \<Rightarrow> instant" where "clock w \<equiv> db_now (w_db w)"

lemma audit_clock [simp]: "clock (audit ev w) = clock w"
  using emit_now[of ev "w_db w"] by (cases "emit ev (w_db w)") (simp add: audit_def on_db_def)

lemma combined_clock: "on_db (upsert_combined_hash p h) w = (r, w') \<Longrightarrow> clock w' = clock w"
  using upsert_combined_now[of p h "w_db w"] by (cases "upsert_combined_hash p h (w_db w)") (auto simp: on_db_def)

lemma combined_inv: "on_db (upsert_combined_hash p h) w = (r, w') \<Longrightarrow> db_inv (w_db w) \<Longrightarrow> db_inv (w_db w')"
  by (auto simp: on_db_def split: prod.splits dest: write_runs)

lemma run_compose_clock: "run_compose env p f args w = (r, w') \<Longrightarrow> clock w \<le> clock w'"
  by (auto simp: run_compose_def Let_def split: prod.splits)

text \<open>The clock never runs backwards, the registry stays consistent, commands are only added.\<close>

interpretation onward: tick_rel "\<lambda>v w :: 'd world. clock v \<le> clock w"
  by unfold_locales (auto dest: combined_clock run_compose_clock)

interpretation consistent: tick_rel "\<lambda>v w :: 'd world. db_inv (w_db v) \<longrightarrow> db_inv (w_db w)"
  by unfold_locales (auto dest: combined_inv run_compose_inv intro: audit_inv)

interpretation history: tick_rel "\<lambda>v w :: 'd world. prefix (w_trace v) (w_trace w)"
  by unfold_locales (auto dest: run_compose_fields on_db_result)

text \<open>Only the tick itself writes the backoff table.\<close>

interpretation same_states: world_rel "\<lambda>v w :: 'd world. w_states w = w_states v"
  by unfold_locales (auto dest: run_compose_fields on_db_result)

section \<open>The tick isolates the projects\<close>

text \<open>The backoff record of a project after an attempt that ended at the given time.\<close>

definition next_state :: "project_state \<Rightarrow> recon_error option \<Rightarrow> instant \<Rightarrow> project_state" where
  "next_state ps r now =
     (case r of None \<Rightarrow> \<lparr>ps_failure_count = 0, ps_next_retry = None\<rparr>
      | Some _ \<Rightarrow> \<lparr>ps_failure_count = ps_failure_count ps + 1,
          ps_next_retry = Some (now + backoff_delay (ps_failure_count ps + 1))\<rparr>)"

lemma tick_project_run:
  assumes r: "reconcile_project env d (compose_file env d) (set_state (d_project_id d) (state_of w (d_project_id d)) w) = (r, w2)"
    and nb: "\<not> in_backoff (state_of w (d_project_id d)) (clock w)"
  shows "clock (tick_project env d w) = clock w2"
    "w_states (tick_project env d w) = (w_states w)(d_project_id d \<mapsto> next_state (state_of w (d_project_id d)) r (clock w2))"
proof -
  have s: "w_states w2 = (w_states w)(d_project_id d \<mapsto> state_of w (d_project_id d))"
    using same_states.R_project[OF r] by simp
  show "clock (tick_project env d w) = clock w2"
    using nb by (cases r) (simp_all add: tick_project_def Let_def r)
  show "w_states (tick_project env d w) = (w_states w)(d_project_id d \<mapsto> next_state (state_of w (d_project_id d)) r (clock w2))"
    using nb s by (cases r) (simp_all add: tick_project_def Let_def r next_state_def)
qed

lemma tick_project_waits:
  assumes "in_backoff (state_of w (d_project_id d)) (clock w)"
  shows "tick_project env d w = set_state (d_project_id d) (state_of w (d_project_id d)) w"
  using assms by (simp add: tick_project_def Let_def)

lemma tick_project_others:
  assumes "q \<noteq> d_project_id d"
  shows "w_states (tick_project env d w) q = w_states w q"
proof -
  obtain r w2 where r: "reconcile_project env d (compose_file env d) (set_state (d_project_id d) (state_of w (d_project_id d)) w) = (r, w2)"
    by fastforce
  show ?thesis
    using assms tick_project_run(2)[OF r] tick_project_waits[of w d env]
    by (cases "in_backoff (state_of w (d_project_id d)) (clock w)") simp_all
qed

text \<open>
  What a tick did to one project: it waited, or it was attempted from some world in between and
  its record follows from the outcome.
\<close>

definition took_turn :: "'d env \<Rightarrow> desired_state_row \<Rightarrow> project_state \<Rightarrow> instant \<Rightarrow> instant \<Rightarrow> project_state \<Rightarrow> bool" where
  "took_turn env d ps t0 t1 ps' \<longleftrightarrow>
     (\<exists>wa wb r. t0 \<le> clock wa \<and> clock wa \<le> clock wb \<and> clock wb \<le> t1 \<and>
        (if in_backoff ps (clock wa) then ps' = ps
         else reconcile_project env d (compose_file env d) wa = (r, wb) \<and> ps' = next_state ps r (clock wb)))"

lemma took_turn_project:
  "took_turn env d (state_of w (d_project_id d)) (clock w) (clock (tick_project env d w))
     (state_of (tick_project env d w) (d_project_id d))"
proof -
  let ?ps = "state_of w (d_project_id d)"
  obtain r w2 where r: "reconcile_project env d (compose_file env d) (set_state (d_project_id d) ?ps w) = (r, w2)"
    by fastforce
  have c: "clock w \<le> clock w2" using onward.R_project[OF r] by simp
  show ?thesis
  proof (cases "in_backoff ?ps (clock w)")
    case True
    then show ?thesis
      unfolding took_turn_def by (intro exI[of _ w] exI[of _ r]) (simp add: tick_project_waits state_of_def)
  next
    case False
    then show ?thesis
      unfolding took_turn_def using r c tick_project_run[OF r False]
      by (intro exI[of _ "set_state (d_project_id d) ?ps w"] exI[of _ w2] exI[of _ r]) (simp add: state_of_def)
  qed
qed

lemma took_turn_mono: "took_turn env d ps t0 t1 ps' \<Longrightarrow> t \<le> t0 \<Longrightarrow> t1 \<le> t' \<Longrightarrow> took_turn env d ps t t' ps'"
  unfolding took_turn_def by (meson order_trans)

lemma fold_tick_others:
  "q \<notin> d_project_id ` set ds \<Longrightarrow> w_states (fold (tick_project env) ds w) q = w_states w q"
  by (induction ds arbitrary: w) (auto simp: tick_project_others)

lemma fold_tick_turn:
  assumes "d \<in> set ds" "distinct (map d_project_id ds)"
  shows "took_turn env d (state_of w (d_project_id d)) (clock w) (clock (fold (tick_project env) ds w))
     (state_of (fold (tick_project env) ds w) (d_project_id d))"
proof -
  obtain xs ys where ds: "ds = xs @ d # ys" using assms(1) split_list by fastforce
  let ?w1 = "fold (tick_project env) xs w"
  let ?w2 = "tick_project env d ?w1"
  let ?w3 = "fold (tick_project env) ys ?w2"
  have n: "d_project_id d \<notin> d_project_id ` set xs" "d_project_id d \<notin> d_project_id ` set ys"
    using assms(2) by (auto simp: ds)
  have c: "clock w \<le> clock ?w1" "clock ?w2 \<le> clock ?w3"
    using onward.R_fold[of xs "tick_project env"] onward.R_fold[of ys "tick_project env"] onward.R_tick_project by blast+
  have s: "state_of ?w1 (d_project_id d) = state_of w (d_project_id d)"
    "state_of ?w3 (d_project_id d) = state_of ?w2 (d_project_id d)"
    using n by (simp_all add: state_of_def fold_tick_others)
  show ?thesis
    using took_turn_mono[OF took_turn_project[of env d ?w1] c] s by (simp add: ds)
qed

lemma listed_projects_distinct:
  assumes "db_inv (w_db w)" "on_db list_desired_states w = ((None, ds), w1)"
  shows "distinct (map d_project_id ds)"
  using assms by (auto simp: on_db_def list_desired_states_def sql_query_def db_inv_defs distinct_map
      dest!: sql_point_field split: prod.splits option.splits)

text \<open>
  C17. No project holds up another.  In a tick over a consistent registry every project of the
  desired list gets its turn, whatever became of the others: one whose retry time has not come
  keeps its record, every other one is attempted, a success clears its record and a failure
  counts one more and sets the retry time by the ladder; one that may be tried when the tick
  starts is attempted in any case.  Projects that are not listed keep their records, and the
  registry is consistent at the end.
\<close>

theorem tick_isolates_projects:
  assumes "db_inv (w_db w)" "on_db list_desired_states w = ((None, ds), w1)"
  shows "(\<forall>d \<in> set ds. took_turn env d (state_of w (d_project_id d)) (clock w) (clock (tick env w))
      (state_of (tick env w) (d_project_id d))) \<and>
    (\<forall>ps t. \<not> in_backoff ps (clock w) \<longrightarrow> clock w \<le> t \<longrightarrow> \<not> in_backoff ps t) \<and>
    (\<forall>q. q \<notin> d_project_id ` set ds \<longrightarrow> w_states (tick env w) q = w_states w q) \<and>
    db_inv (w_db (tick env w))"
proof -
  let ?w2 = "if length (env_master_key env) > 0 then ensure_all_trust_files env w1 else w1"
  have t: "clock (tick env w) = clock (fold (tick_project env) ds ?w2)"
      "w_states (tick env w) = w_states (fold (tick_project env) ds ?w2)"
    using assms(2) by (simp_all add: tick_def Let_def)
  have c: "clock w \<le> clock ?w2"
    using onward.R_on_db(6)[OF assms(2)] by (auto intro: order_trans[OF _ onward.R_all_trust])
  have s: "w_states ?w2 = w_states w"
    using same_states.R_on_db(6)[OF assms(2)] same_states.R_all_trust[of env w1] by simp
  have dist: "distinct (map d_project_id ds)"
    using listed_projects_distinct[OF assms] .
  have "took_turn env d (state_of w (d_project_id d)) (clock w) (clock (tick env w))
      (state_of (tick env w) (d_project_id d))" if d: "d \<in> set ds" for d
    using took_turn_mono[OF fold_tick_turn[OF d dist, of env ?w2] c order.refl] s
    by (simp add: t state_of_def)
  moreover have "\<not> in_backoff ps (clock w) \<longrightarrow> clock w \<le> u \<longrightarrow> \<not> in_backoff ps u" for ps u
    by (auto simp: in_backoff_def split: option.splits)
  moreover have "w_states (tick env w) q = w_states w q" if "q \<notin> d_project_id ` set ds" for q
    using fold_tick_others[OF that, of env ?w2] s by (simp add: t)
  ultimately show ?thesis using consistent.R_tick[of _ env] assms(1) by blast
qed

definition two_projects :: "(string list) world" where
  "two_projects = (example_world [])\<lparr>w_db := (empty_db 0)\<lparr>db_desired :=
     [example_desired\<lparr>d_state := ''paused''\<rparr>, example_desired\<lparr>d_project_id := ''tb-tsdb'', d_site_id := ''''\<rparr>]\<rparr>\<rparr>"

theorem tick_isolates_projects_witness:
  "\<exists>ps. state_of (tick example_env two_projects) ''tb-tsdb'' = ps \<and>
     took_turn example_env (example_desired\<lparr>d_project_id := ''tb-tsdb'', d_site_id := ''''\<rparr>)
       \<lparr>ps_failure_count = 0, ps_next_retry = None\<rparr> 0 (clock (tick example_env two_projects)) ps"
proof -
  have i: "db_inv (w_db two_projects)"
    by (simp add: two_projects_def db_inv_defs empty_db_def example_desired_def)
  obtain ds where l: "on_db list_desired_states two_projects = ((None, ds), two_projects)"
    by (simp add: on_db_def list_desired_states_def sql_query_def sql_point_def two_projects_def empty_db_def example_world_def)
  have m: "example_desired\<lparr>d_project_id := ''tb-tsdb'', d_site_id := ''''\<rparr> \<in> set ds"
    using l by (auto simp: on_db_def list_desired_states_def sql_query_def sql_point_def two_projects_def empty_db_def example_world_def)
  show ?thesis using tick_isolates_projects[OF i l, of example_env] m
    by (auto dest!: bspec[where x = "example_desired\<lparr>d_project_id := ''tb-tsdb'', d_site_id := ''''\<rparr>"]
        simp: two_projects_def example_world_def state_of_def empty_db_def)
qed

end
