(* ===== verification/Admission.thy ===== *)
theory Admission
  imports Capacity StoreInv Pki
begin

text \<open>
  Package \<^verbatim>\<open>internal/daemon\<close> (\<^verbatim>\<open>server.go\<close>), the part that does not touch the world: requests as
  the JSON decoder delivers them, responses with their errors as values, the two validators, and
  the admission check.  A request body is \<^term>\<open>Inl e\<close> when the decoder refuses it.
\<close>

section \<open>Errors and responses\<close>

datatype http_error =
    BadBody string
  | SlugRequired
  | SlugLength string
  | SlugShape string
  | ProjectIdLength string
  | ProjectIdChar string char
  | BadRetention string
  | HighTier
  | MosquittoMid
  | BadDirection string
  | BadCodec string
  | NothingToUpdate
  | NoTopic
  | NoGateway
  | NotFound string string
  | AlreadyExists string string
  | UniSite string string
  | NoCA string
  | PkiUnavailable
  | MissingBearer
  | BadToken
  | StoreError store_error
  | CapacityError capacity_error
  | CapacityExceeded int int int
  | PkiError string pki_error
  | PublishFailed string

record tenant_status =
  ts_id :: string
  ts_name :: string
  ts_status :: string
  ts_retention :: string
  ts_site_count :: nat

record health =
  h_docker_reachable :: bool
  h_registry_healthy :: bool
  h_reconciler_last_tick :: string

datatype body =
    NoBody
  | ErrorBody http_error
  | HealthBody health
  | PredictionBody prediction
  | TenantBody tenant_row
  | TenantsBody "tenant_row list"
  | SiteBody site_row
  | SitesBody "site_row list"
  | StatusBody "tenant_status list"
  | IdBody string string
  | StateBody string
  | SelectorBody string
  | ConvergedBody string bool string
  | CertBody issued
  | TextBody string

record response =
  rs_status :: nat
  rs_bearer :: bool
  rs_body :: body

definition write_json :: "nat \<Rightarrow> body \<Rightarrow> response" where
  "write_json code b = \<lparr>rs_status = code, rs_bearer = False, rs_body = b\<rparr>"

definition write_err :: "nat \<Rightarrow> http_error \<Rightarrow> response" where
  "write_err code e = write_json code (ErrorBody e)"

section \<open>Validation\<close>

text \<open>
  The loops run over the characters of the string; every byte of a multi-byte character is
  outside the admitted ranges, so running over bytes gives the same verdict.
\<close>

fun check_project_chars :: "string \<Rightarrow> string \<Rightarrow> http_error option" where
  "check_project_chars pid [] = None"
| "check_project_chars pid (c # cs) =
     (if \<not> (is_lower c \<or> is_upper c \<or> is_digit c \<or> c = CHR ''_'' \<or> c = CHR ''-'')
      then Some (ProjectIdChar pid c) else check_project_chars pid cs)"

definition validate_project_id :: "string \<Rightarrow> http_error option" where
  "validate_project_id pid =
     (if length pid > 64 then Some (ProjectIdLength pid) else check_project_chars pid pid)"

fun check_slug_chars :: "string \<Rightarrow> nat \<Rightarrow> string \<Rightarrow> http_error option" where
  "check_slug_chars slug i [] = None"
| "check_slug_chars slug i (c # cs) =
     (if \<not> (is_lower c \<or> is_digit c \<and> i > 0 \<or> c = CHR ''-'' \<and> i > 0)
      then Some (SlugShape slug) else check_slug_chars slug (i + 1) cs)"

definition validate_slug_http :: "string \<Rightarrow> http_error option" where
  "validate_slug_http slug =
     (if slug = '''' then Some SlugRequired
      else if length slug < 1 \<or> length slug > 41 then Some (SlugLength slug)
      else check_slug_chars slug 0 slug)"

lemma check_slug_chars_later: "0 < i \<Longrightarrow> check_slug_chars slug i cs = None \<longleftrightarrow> list_all slug_char cs"
  by (induction cs arbitrary: i) (auto simp: slug_char_def)

lemma validate_slug_http_iff: "validate_slug_http s = None \<longleftrightarrow> slug_ok s"
  by (cases s) (auto simp: validate_slug_http_def slug_ok_def check_slug_chars_later)

definition project_id_ok :: "string \<Rightarrow> bool" where
  "project_id_ok pid \<longleftrightarrow> length pid \<le> 64 \<and>
     list_all (\<lambda>c. is_lower c \<or> is_upper c \<or> is_digit c \<or> c = CHR ''_'' \<or> c = CHR ''-'') pid"

lemma check_project_chars_iff:
  "check_project_chars p cs = None \<longleftrightarrow> list_all (\<lambda>c. is_lower c \<or> is_upper c \<or> is_digit c \<or> c = CHR ''_'' \<or> c = CHR ''-'') cs"
  by (induction cs) auto

lemma validate_project_id_iff: "validate_project_id pid = None \<longleftrightarrow> project_id_ok pid"
  by (auto simp: validate_project_id_def project_id_ok_def check_project_chars_iff)

text \<open>
  The slug validator of the API, written as a loop, accepts exactly the strings that the
  regular expression of the configuration documents accepts, and the identifiers built from an
  accepted slug are exactly those the patterns for tenant and site identifiers match.
\<close>

lemma slug_validators_agree:
  "(validate_slug_http s = None \<longleftrightarrow> validate_slug s = Inr ()) \<and>
   (validate_slug_http s = None \<longleftrightarrow> rx_match tenant_id_pattern (''tnt_'' @ s)) \<and>
   (validate_slug_http s = None \<longleftrightarrow> rx_match site_id_pattern (''ste_'' @ s))"
  by (simp add: validate_slug_http_iff validate_slug_def slug_pattern_iff tenant_id_pattern_iff site_id_pattern_iff
      tenant_id_from_slug_def site_id_from_slug_def)

section \<open>Admission\<close>

text \<open>
  \<^verbatim>\<open>admissionCheck\<close> builds the plan through pointers: \<^verbatim>\<open>tp\<close> points to a new object, \<^verbatim>\<open>seenTenants\<close>
  keeps the pointer, and \<^verbatim>\<open>plan = append(plan, *tp)\<close> copies the object.  The heap of the objects
  and the slice of the copies are separate here, as they are there: the later loop over the sites
  writes to the heap.
\<close>

record plan_state =
  pl_heap :: "tenant_plan list"
  pl_seen :: "string \<Rightarrow> nat option"
  pl_plan :: "tenant_plan list"

definition plan_tenant :: "tenant_row \<Rightarrow> plan_state \<Rightarrow> plan_state" where
  "plan_tenant t s =
     (let tp = \<lparr>tp_tenant_id = t_id t, tp_sites = []\<rparr>
      in \<lparr>pl_heap = pl_heap s @ [tp], pl_seen = (pl_seen s)(t_id t \<mapsto> length (pl_heap s)),
          pl_plan = pl_plan s @ [tp]\<rparr>)"

definition site_plan_of :: "string \<Rightarrow> site_row \<Rightarrow> site_plan" where
  "site_plan_of sid r =
     \<lparr>sp_site_id = sid, sp_broker_kind = s_broker_kind r, sp_tier = s_throughput r, sp_direction = s_direction r\<rparr>"

definition plan_site :: "site_row \<Rightarrow> plan_state \<Rightarrow> plan_state" where
  "plan_site r s =
     (case pl_seen s (s_tenant_id r) of
        None \<Rightarrow> s
      | Some i \<Rightarrow>
          s\<lparr>pl_heap := (pl_heap s)[i := (pl_heap s ! i)\<lparr>tp_sites := tp_sites (pl_heap s ! i) @ [site_plan_of (s_id r) r]\<rparr>]\<rparr>)"

fun add_proposed :: "string \<Rightarrow> site_row \<Rightarrow> tenant_plan list \<Rightarrow> tenant_plan list" where
  "add_proposed tid r [] = []"
| "add_proposed tid r (tp # tps) =
     (if tp_tenant_id tp = tid then tp\<lparr>tp_sites := tp_sites tp @ [site_plan_of ''proposed'' r]\<rparr> # tps
      else tp # add_proposed tid r tps)"

definition admission_plan :: "tenant_row list \<Rightarrow> site_row list \<Rightarrow> string \<Rightarrow> site_row option \<Rightarrow> tenant_plan list" where
  "admission_plan tenants all_sites new_tenant new_site =
     (let s0 = fold plan_tenant tenants \<lparr>pl_heap = [], pl_seen = Map.empty, pl_plan = []\<rparr>;
          s1 = fold plan_site all_sites s0;
          plan = pl_plan s1
      in if new_tenant \<notin> t_id ` set tenants then
           plan @ [\<lparr>tp_tenant_id = new_tenant,
                    tp_sites = (case new_site of None \<Rightarrow> [] | Some r \<Rightarrow> [site_plan_of ''proposed'' r])\<rparr>]
         else case new_site of None \<Rightarrow> plan | Some r \<Rightarrow> add_proposed new_tenant r plan)"

definition admission_verdict :: "string option \<Rightarrow> tenant_plan list \<Rightarrow> http_error option" where
  "admission_verdict meminfo plan =
     (case read_mem_total_kb meminfo of
        Inl e \<Rightarrow> Some (CapacityError e)
      | Inr mem_kb \<Rightarrow>
          (case predict plan mem_kb of
             Inl e \<Rightarrow> Some (CapacityError e)
           | Inr pred \<Rightarrow>
               if \<not> pr_admissible pred
               then Some (CapacityExceeded (pr_projected_mb pred) (pr_max_allowed_mb pred) (pr_headroom_mb pred))
               else None))"

definition admission_check ::
  "string option \<Rightarrow> string \<Rightarrow> site_row option \<Rightarrow> db \<Rightarrow> http_error option \<times> db"
where
  "admission_check meminfo new_tenant new_site db =
     (case list_tenants db of
        ((Some e, _), db1) \<Rightarrow> (Some (StoreError e), db1)
      | ((None, tenants), db1) \<Rightarrow>
          (case list_all_sites db1 of
             ((Some e, _), db2) \<Rightarrow> (Some (StoreError e), db2)
           | ((None, sites), db2) \<Rightarrow>
               (admission_verdict meminfo (admission_plan tenants sites new_tenant new_site), db2)))"

text \<open>The capacity report, which counts what is there.\<close>

fun capacity_plan :: "tenant_row list \<Rightarrow> db \<Rightarrow> (store_error + tenant_plan list) \<times> db" where
  "capacity_plan [] db = (Inr [], db)"
| "capacity_plan (t # ts) db =
     (case list_sites_by_tenant (t_id t) db of
        ((Some e, _), db1) \<Rightarrow> (Inl e, db1)
      | ((None, sites), db1) \<Rightarrow>
          (case capacity_plan ts db1 of
             (Inl e, db2) \<Rightarrow> (Inl e, db2)
           | (Inr plan, db2) \<Rightarrow>
               (Inr (\<lparr>tp_tenant_id = t_id t, tp_sites = map (\<lambda>r. site_plan_of (s_id r) r) sites\<rparr> # plan), db2)))"

definition handle_capacity :: "string option \<Rightarrow> db \<Rightarrow> response \<times> db" where
  "handle_capacity meminfo db =
     (case list_tenants db of
        ((Some e, _), db1) \<Rightarrow> (write_err 500 (StoreError e), db1)
      | ((None, tenants), db1) \<Rightarrow>
          (case capacity_plan tenants db1 of
             (Inl e, db2) \<Rightarrow> (write_err 500 (StoreError e), db2)
           | (Inr plan, db2) \<Rightarrow>
               (case read_mem_total_kb meminfo of
                  Inl e \<Rightarrow> (write_err 500 (CapacityError e), db2)
                | Inr mem_kb \<Rightarrow>
                    (case predict plan mem_kb of
                       Inl e \<Rightarrow> (write_err 500 (CapacityError e), db2)
                     | Inr pred \<Rightarrow> (write_json 200 (PredictionBody pred), db2)))))"

lemma plan_site_plan [simp]: "pl_plan (plan_site r s) = pl_plan s"
  by (simp add: plan_site_def split: option.splits)

lemma fold_plan_site_plan [simp]: "pl_plan (fold plan_site rs s) = pl_plan s"
  by (induction rs arbitrary: s) simp_all

lemma fold_plan_tenant_plan:
  "pl_plan (fold plan_tenant ts s) = pl_plan s @ map (\<lambda>t. \<lparr>tp_tenant_id = t_id t, tp_sites = []\<rparr>) ts"
  by (induction ts arbitrary: s) (simp_all add: plan_tenant_def Let_def)

lemma admission_plan_ignores_sites: "admission_plan ts sites t r = admission_plan ts sites' t r"
  by (simp add: admission_plan_def)

lemma admission_check_quiet:
  assumes "db_faults db = []"
  shows "admission_check m t r db = (admission_verdict m (admission_plan (map read_tenant
      (sort_key st_id (db_tenants db))) [] t r), db)"
  using assms by (simp add: admission_check_def list_tenants_def list_all_sites_def list_tenants_query_def
      sql_query_def sql_point_def admission_plan_ignores_sites[of _ "sort_key (\<lambda>s. (s_tenant_id s, s_id s)) (db_sites db)" t r "[]"])

text \<open>
  C21. Admission does not see the sites that exist: the plan is made of copies taken before the
  sites are filled in, so the verdict on a new tenant or site is the same whatever sites the
  registry holds.
\<close>

theorem admission_ignores_running_sites:
  assumes "db_faults db = []"
  shows "fst (admission_check m t r db) = fst (admission_check m t r (db\<lparr>db_sites := sites\<rparr>))"
  using assms by (simp add: admission_check_quiet)

definition crowded_site :: "string \<Rightarrow> site_row" where
  "crowded_site sid = \<lparr>s_id = sid, s_tenant_id = ''tnt_a'', s_broker_kind = ''emqx'', s_throughput = ''low'',
     s_direction = ''uni'', s_payload_codec = ''cbor'', s_leaf_ttl_days = 365, s_schema_version = 1,
     s_status = ''active'', s_created_at = 0, s_updated_at = 0\<rparr>"

definition crowded_db :: db where
  "crowded_db = (empty_db 0)\<lparr>
     db_tenants := [(None, \<lparr>t_id = ''tnt_a'', t_name = ''A'', t_domain = ''a.example'', t_retention = ''7d'',
        t_schema_version = 1, t_status = ''active'', t_project_id = '''', t_created_at = 0, t_updated_at = 0\<rparr>)],
     db_sites := map (\<lambda>c. crowded_site (''ste_'' @ [c])) ''abcdefg''\<rparr>"

text \<open>With 4 GB (the fallback) and seven EMQX sites the report says that the limit is exceeded, and an eighth site is admitted.\<close>

theorem admission_ignores_running_sites_witness:
  "fst (admission_check None ''tnt_a'' (Some (crowded_site '''')) crowded_db) = None \<and>
   (case rs_body (fst (handle_capacity None crowded_db)) of
      PredictionBody p \<Rightarrow> \<not> pr_admissible p | _ \<Rightarrow> False)"
proof -
  have m: "read_mem_total_kb None = Inr 4194304"
    by (simp add: read_mem_total_kb_def)
  have u: "usable_mb 4194304 = 3566" "max_allowed_mb 3566 = 3031"
    by (simp_all add: usable_mb_def quot_def host_overhead_mb_def max_allowed_mb_eq)
  note plans = predict_def u per_tenant_tsdb_mb_def site_plan_of_def crowded_site_def site_profile_def
    profiles_def mk_key_def mk_profile_def total_mb_def Let_def
  have e: "fst (admission_check None ''tnt_a'' (Some (crowded_site '''')) (crowded_db\<lparr>db_sites := []\<rparr>)) = None"
    by (simp add: admission_check_quiet crowded_db_def empty_db_def read_tenant_def admission_verdict_def m
        admission_plan_def plan_tenant_def plans)
  have c: "case rs_body (fst (handle_capacity None crowded_db)) of
      PredictionBody p \<Rightarrow> \<not> pr_admissible p | _ \<Rightarrow> False"
    by (simp add: handle_capacity_def crowded_db_def empty_db_def read_tenant_def m list_tenants_def
        list_tenants_query_def sql_query_def sql_point_def list_sites_by_tenant_def write_json_def plans)
  have f: "db_faults crowded_db = []" by (simp add: crowded_db_def empty_db_def)
  show ?thesis
    using e c admission_ignores_running_sites[OF f, of None "''tnt_a''" "Some (crowded_site '''')" "[]"]
    by simp
qed

end
