(* ===== verification/Backup.thy ===== *)
theory Backup
  imports FileSys "HOL-Library.Multiset"
begin

text \<open>
  Package \<^verbatim>\<open>internal/backup\<close> (\<^verbatim>\<open>pgdump.go\<close>): the daily dump of a tenant's database and the rolling
  window of archives.  The state is the tenant's backup directory, with the failures the
  environment has in store for its calls; what the dump process does (its output and the errors
  of its stages) and the compression are arguments.
\<close>

section \<open>A directory\<close>

record dir_state =
  ds_exists :: bool
  ds_entries :: "(string \<times> string option) list"
  ds_faults :: "string option list"

definition pop_fault :: "dir_state \<Rightarrow> string option \<times> dir_state" where
  "pop_fault d = (case ds_faults d of [] \<Rightarrow> (None, d) | f # fs \<Rightarrow> (f, d\<lparr>ds_faults := fs\<rparr>))"

text \<open>An entry is a file with its content, or a subdirectory (\<^term>\<open>None\<close>).  \<^verbatim>\<open>os.ReadDir\<close> sorts by name.\<close>

definition read_dir :: "dir_state \<Rightarrow> (io_error + (string \<times> bool) list) \<times> dir_state" where
  "read_dir d =
     (case pop_fault d of
        (Some e, d1) \<Rightarrow> (Inl (IOError e), d1)
      | (None, d1) \<Rightarrow>
          if \<not> ds_exists d1 then (Inl NotExist, d1)
          else (Inr (map (\<lambda>(n, c). (n, c = None)) (sort_key fst (ds_entries d1))), d1))"

definition put_entry :: "string \<Rightarrow> string \<Rightarrow> dir_state \<Rightarrow> dir_state" where
  "put_entry n c d = d\<lparr>ds_entries := filter (\<lambda>e. fst e \<noteq> n) (ds_entries d) @ [(n, Some c)]\<rparr>"

definition drop_entry :: "string \<Rightarrow> dir_state \<Rightarrow> dir_state" where
  "drop_entry n d = d\<lparr>ds_entries := filter (\<lambda>e. fst e \<noteq> n) (ds_entries d)\<rparr>"

definition remove_file :: "string \<Rightarrow> dir_state \<Rightarrow> (io_error + unit) \<times> dir_state" where
  "remove_file n d =
     (case pop_fault d of
        (Some e, d1) \<Rightarrow> (Inl (IOError e), d1)
      | (None, d1) \<Rightarrow>
          if n \<notin> fst ` set (ds_entries d1) then (Inl NotExist, d1) else (Inr (), drop_entry n d1))"

definition create_file :: "string \<Rightarrow> dir_state \<Rightarrow> (io_error + unit) \<times> dir_state" where
  "create_file n d =
     (case pop_fault d of
        (Some e, d1) \<Rightarrow> (Inl (IOError e), d1)
      | (None, d1) \<Rightarrow> (Inr (), put_entry n [] d1))"

definition rename_file :: "string \<Rightarrow> string \<Rightarrow> dir_state \<Rightarrow> (io_error + unit) \<times> dir_state" where
  "rename_file a b d =
     (case pop_fault d of
        (Some e, d1) \<Rightarrow> (Inl (IOError e), d1)
      | (None, d1) \<Rightarrow>
          (case map_of (ds_entries d1) a of
             Some (Some c) \<Rightarrow>
               if map_of (ds_entries d1) b = Some None then (Inl (IOError ''file exists''), d1)
               else (Inr (), put_entry b c (drop_entry a d1))
           | _ \<Rightarrow> (Inl NotExist, d1)))"

definition make_dir :: "dir_state \<Rightarrow> (io_error + unit) \<times> dir_state" where
  "make_dir d =
     (case pop_fault d of
        (Some e, d1) \<Rightarrow> (Inl (IOError e), d1)
      | (None, d1) \<Rightarrow> (Inr (), d1\<lparr>ds_exists := True\<rparr>))"

section \<open>Listing and pruning\<close>

definition backup_dir :: string where "backup_dir = ''/var/backups/controlai''"
definition keep_count :: int where "keep_count = 7"
definition default_db :: string where "default_db = ''controlai''"
definition tsdb_service :: string where "tsdb_service = ''tsdb''"

record manager =
  mg_data_dir :: string
  mg_backup_root :: string

definition backup_root :: "manager \<Rightarrow> string" where
  "backup_root m = (if mg_backup_root m \<noteq> '''' then mg_backup_root m else backup_dir)"

definition tenant_compose_file :: "manager \<Rightarrow> string \<Rightarrow> string" where
  "tenant_compose_file m tenant = path_join [mg_data_dir m, ''tenants'', tenant, ''tsdb'', ''docker-compose.yml'']"

definition is_archive :: "string \<Rightarrow> bool" where
  "is_archive n \<longleftrightarrow> has_suffix n ''.sql.gz''"

text \<open>
  The paths of one directory share their prefix, so the order of the paths is the order of the
  names; files are named relative to the directory here.
\<close>

definition archive_names :: "(string \<times> bool) list \<Rightarrow> string list" where
  "archive_names es = sort (map fst (filter (\<lambda>(n, is_dir). \<not> is_dir \<and> is_archive n) es))"

definition list_backups :: "manager \<Rightarrow> string \<Rightarrow> dir_state \<Rightarrow> (io_error + string list) \<times> dir_state" where
  "list_backups m tenant d =
     (case read_dir d of
        (Inl NotExist, d1) \<Rightarrow> (Inr [], d1)
      | (Inl (IOError e), d1) \<Rightarrow> (Inl (IOError e), d1)
      | (Inr es, d1) \<Rightarrow> (Inr (map (\<lambda>n. path_join [backup_root m, tenant, n]) (archive_names es)), d1))"

text \<open>An error of \<^verbatim>\<open>os.Remove\<close> counts unless it says that the file is gone.\<close>

definition fatal :: "io_error + unit \<Rightarrow> io_error option" where
  "fatal r = (case r of Inl (IOError e) \<Rightarrow> Some (IOError e) | _ \<Rightarrow> None)"

fun prune_files :: "string list \<Rightarrow> int \<Rightarrow> dir_state \<Rightarrow> io_error option \<times> dir_state" where
  "prune_files [] keep d = (None, d)"
| "prune_files (f # fs) keep d =
     (if int (length (f # fs)) > keep then
        (case remove_file f d of (r, d1) \<Rightarrow>
           (case fatal r of Some e \<Rightarrow> (Some e, d1) | None \<Rightarrow> prune_files fs keep d1))
      else (None, d))"

definition prune :: "int \<Rightarrow> dir_state \<Rightarrow> io_error option \<times> dir_state" where
  "prune keep d =
     (case read_dir d of
        (Inl e, d1) \<Rightarrow> (Some e, d1)
      | (Inr es, d1) \<Rightarrow> prune_files (archive_names es) keep d1)"

section \<open>One backup\<close>

text \<open>
  What the stages of the dump process report: \<^term>\<open>None\<close> when the stage succeeds.  \<open>dr_output\<close> is what
  the process has written until it ended, and \<open>dr_partial\<close> what is in the temporary file when a stage
  that writes it failed; the output is a whole dump only if \<^verbatim>\<open>pg_dump\<close> ended with success (\<open>dr_wait\<close>).
\<close>

record dump_run =
  dr_pipe :: "string option"
  dr_start :: "string option"
  dr_output :: string
  dr_copy :: "string option"
  dr_gzip_close :: "string option"
  dr_file_close :: "string option"
  dr_partial :: string
  dr_wait :: "string option"

datatype backup_error =
    NoComposeFile string
  | BackupIO string io_error
  | DumpFailed string string

definition pad2 :: "nat \<Rightarrow> string" where
  "pad2 n = (if n < 10 then ''0'' else []) @ itoa (int n)"

definition pad4 :: "int \<Rightarrow> string" where
  "pad4 n = (if n < 10 then ''000'' else if n < 100 then ''00'' else if n < 1000 then ''0'' else []) @ itoa n"

text \<open>\<^verbatim>\<open>time.Now().UTC().Format("20060102")\<close>.\<close>

definition date_stamp :: "instant \<Rightarrow> string" where
  "date_stamp now =
     (let z = now div day; y = year_of z; m = month_of y (z - year_start y);
          d = z - year_start y - month_start y m
      in pad4 y @ pad2 (m + 1) @ pad2 (nat d + 1))"

definition dump_args :: "manager \<Rightarrow> string \<Rightarrow> string list" where
  "dump_args m tenant =
     [''compose'', ''-p'', tenant @ ''-tsdb'', ''-f'', tenant_compose_file m tenant,
      ''exec'', ''-T'', tsdb_service, ''pg_dump'', ''-U'', ''postgres'', default_db]"

definition discard_tmp :: "string \<Rightarrow> backup_error \<Rightarrow> dir_state \<Rightarrow> (backup_error + string) \<times> dir_state" where
  "discard_tmp tmp e d = (Inl e, snd (remove_file tmp d))"

text \<open>The first stage that fails after the temporary file was created.\<close>

definition dump_failure :: "dump_run \<Rightarrow> backup_error option" where
  "dump_failure dr =
     (case dr_copy dr of
        Some e \<Rightarrow> Some (DumpFailed ''compress dump'' e)
      | None \<Rightarrow>
          (case dr_gzip_close dr of
             Some e \<Rightarrow> Some (DumpFailed ''finalize gzip'' e)
           | None \<Rightarrow>
               (case dr_file_close dr of
                  Some e \<Rightarrow> Some (DumpFailed ''close archive'' e)
                | None \<Rightarrow> map_option (DumpFailed ''pg_dump failed'') (dr_wait dr))))"

text \<open>The temporary file when the stages are over.\<close>

definition tmp_content :: "(string \<Rightarrow> string) \<Rightarrow> dump_run \<Rightarrow> string" where
  "tmp_content gzip dr =
     (if dr_copy dr = None \<and> dr_gzip_close dr = None \<and> dr_file_close dr = None then gzip (dr_output dr) else dr_partial dr)"

definition backup_run ::
  "(string \<Rightarrow> string) \<Rightarrow> (string \<Rightarrow> string option) \<Rightarrow> (string list \<Rightarrow> dump_run) \<Rightarrow> manager \<Rightarrow> string \<Rightarrow> instant \<Rightarrow> dir_state \<Rightarrow>
     (backup_error + string) \<times> dir_state"
where
  "backup_run gzip stat exec m tenant now d =
     (case stat (tenant_compose_file m tenant) of
        Some e \<Rightarrow> (Inl (NoComposeFile e), d)
      | None \<Rightarrow>
          (case make_dir d of
             (Inl e, d1) \<Rightarrow> (Inl (BackupIO ''create backup dir'' e), d1)
           | (Inr _, d1) \<Rightarrow>
               let out = date_stamp now @ ''.sql.gz''; tmp = out @ ''.tmp''; dr = exec (dump_args m tenant)
               in case dr_pipe dr of
                 Some e \<Rightarrow> (Inl (DumpFailed ''stdout pipe'' e), d1)
               | None \<Rightarrow>
                 (case dr_start dr of
                    Some e \<Rightarrow> (Inl (DumpFailed ''start pg_dump'' e), d1)
                  | None \<Rightarrow>
                    (case create_file tmp d1 of
                       (Inl e, d2) \<Rightarrow> (Inl (BackupIO ''create tmp file'' e), d2)
                     | (Inr _, d2) \<Rightarrow>
                       let d3 = put_entry tmp (tmp_content gzip dr) d2
                       in case dump_failure dr of
                         Some e \<Rightarrow> discard_tmp tmp e d3
                       | None \<Rightarrow>
                         (case rename_file tmp out d3 of
                            (Inl e, d4) \<Rightarrow> discard_tmp tmp (BackupIO ''rename archive'' e) d4
                          | (Inr _, d4) \<Rightarrow>
                              (Inr (path_join [backup_root m, tenant, out]), snd (prune keep_count d4)))))))"

section \<open>The units of the timer\<close>

definition lines :: "string list \<Rightarrow> string" where
  "lines ls = concat (map (\<lambda>l. l @ [CHR 0x0A]) ls)"

definition systemd_timer_unit :: "string \<Rightarrow> string" where
  "systemd_timer_unit tenant = lines
     [''[Unit]'', ''Description=controlai daily backup for '' @ tenant, ''After=controlai.service'', '''',
      ''[Timer]'', ''OnCalendar=*-*-* 02:00:00 UTC'', ''Persistent=true'',
      ''Unit=controlai-backup@'' @ tenant @ ''.service'', '''', ''[Install]'', ''WantedBy=timers.target'']"

definition systemd_backup_service_unit :: string where
  "systemd_backup_service_unit = lines
     [''[Unit]'', ''Description=controlai backup for tenant %i'', ''After=controlai.service'',
      ''Requires=controlai.service'', '''', ''[Service]'', ''Type=oneshot'', ''User=controlai'',
      ''ExecStart=/usr/local/bin/controlai backup run %i'', ''StandardOutput=journal'', ''StandardError=journal'']"

section \<open>What pruning removes\<close>

text \<open>The archives of a directory, oldest first.\<close>

definition archive_entries :: "dir_state \<Rightarrow> (string \<times> string option) list" where
  "archive_entries d = filter (\<lambda>e. snd e \<noteq> None \<and> is_archive (fst e)) (ds_entries d)"

definition archives :: "dir_state \<Rightarrow> string list" where
  "archives d = sort (map fst (archive_entries d))"

definition dir_ok :: "dir_state \<Rightarrow> bool" where
  "dir_ok d \<longleftrightarrow> distinct (map fst (ds_entries d))"

lemma pop_fault_entries: "pop_fault d = (r, d') \<Longrightarrow> ds_entries d' = ds_entries d \<and> ds_exists d' = ds_exists d"
  by (auto simp: pop_fault_def split: list.splits)

lemma sort_map_sort_key: "sort (map fst (filter P (sort_key fst xs))) = sort (map fst (filter P (xs :: ('a :: linorder \<times> 'b) list)))"
  by (rule properties_for_sort) simp_all

lemma archive_names_read:
  assumes "read_dir d = (Inr es, d')"
  shows "archive_names es = archives d \<and> ds_entries d' = ds_entries d"
proof -
  have f: "map fst (filter (\<lambda>(n, is_dir). \<not> is_dir \<and> is_archive n) (map (\<lambda>(n, c). (n, c = None)) xs))
      = map fst (filter (\<lambda>e. snd e \<noteq> None \<and> is_archive (fst e)) xs)" for xs :: "(string \<times> string option) list"
    by (induction xs) auto
  have "es = map (\<lambda>(n, c). (n, c = None)) (sort_key fst (ds_entries d)) \<and> ds_entries d' = ds_entries d"
    using assms by (auto simp: read_dir_def split: prod.splits option.splits if_splits dest!: pop_fault_entries)
  then show ?thesis
    by (simp add: archive_names_def f sort_map_sort_key archives_def archive_entries_def)
qed

lemma remove_file_entries:
  assumes "remove_file n d = (r, d')"
  shows "ds_entries d' = (if fatal r \<noteq> None then ds_entries d else filter (\<lambda>e. fst e \<noteq> n) (ds_entries d))"
  using assms
  by (auto simp: remove_file_def drop_entry_def fatal_def split: prod.splits option.splits if_splits dest!: pop_fault_entries
      intro!: filter_True[symmetric])

lemma prune_files_effect:
  assumes "prune_files fs keep d = (r, d')"
  shows "\<exists>k. k \<le> length fs - nat keep \<and> (r = None \<longrightarrow> k = length fs - nat keep \<or> keep < 0) \<and>
    ds_entries d' = filter (\<lambda>e. fst e \<notin> set (take k fs)) (ds_entries d)"
  using assms
proof (induction fs keep d rule: prune_files.induct)
  case (2 f fs keep d)
  show ?case
  proof (cases "int (length (f # fs)) > keep")
    case False
    then show ?thesis using "2.prems" by (intro exI[of _ 0]) auto
  next
    case True
    obtain q d1 where q: "remove_file f d = (q, d1)" by fastforce
    note e = remove_file_entries[OF q]
    show ?thesis
    proof (cases "fatal q")
      case (Some m)
      then show ?thesis using "2.prems" q e True by (intro exI[of _ 0]) auto
    next
      case None
      have p: "prune_files fs keep d1 = (r, d')" using "2.prems" q None True by simp
      have e1: "ds_entries d1 = filter (\<lambda>e. fst e \<noteq> f) (ds_entries d)" using e None by simp
      obtain k where k: "k \<le> length fs - nat keep" "r = None \<longrightarrow> k = length fs - nat keep \<or> keep < 0"
          "ds_entries d' = filter (\<lambda>e. fst e \<notin> set (take k fs)) (ds_entries d1)"
        using "2.IH"[OF True q[symmetric] None p] by blast
      show ?thesis using k e1 True
        by (intro exI[of _ "Suc k"]) (auto intro!: filter_cong)
    qed
  qed
qed auto

lemma sorted_take_drop:
  assumes "sorted xs" "distinct xs" "x \<in> set (take k xs)" "y \<in> set (drop k xs)"
  shows "x < (y :: 'a :: linorder)"
proof -
  have "sorted (take k xs @ drop k xs)" "distinct (take k xs @ drop k xs)" using assms(1,2) by simp_all
  then have "x \<le> y" "x \<noteq> y" using assms(3,4) by (auto simp only: sorted_append distinct_append)
  then show ?thesis by simp
qed

lemma archives_distinct: "dir_ok d \<Longrightarrow> sorted (archives d) \<and> distinct (archives d)"
  by (auto simp: archives_def archive_entries_def dir_ok_def intro: distinct_map_filter)

lemma set_archives: "set (archives d) = {n. \<exists>c. (n, Some c) \<in> set (ds_entries d) \<and> is_archive n}"
  by (force simp: archives_def archive_entries_def)

lemma set_drop_minus: "distinct xs \<Longrightarrow> set xs - set (take k xs) = set (drop k xs)"
  using distinct_append[of "take k xs" "drop k xs"] set_append[of "take k xs" "drop k xs"] by auto

text \<open>What one pruning does: it removes archives from the old end, whatever fails.\<close>

lemma prune_effect:
  assumes "prune keep d = (r, d')" "dir_ok d" "0 \<le> keep"
  shows "\<exists>k. k \<le> length (archives d) - nat keep \<and> (r = None \<longrightarrow> k = length (archives d) - nat keep) \<and>
    ds_entries d' = filter (\<lambda>e. fst e \<notin> set (take k (archives d))) (ds_entries d) \<and> archives d' = drop k (archives d)"
proof -
  have e: "archives d' = drop k (archives d)"
    if "ds_entries d' = filter (\<lambda>e. fst e \<notin> set (take k (archives d))) (ds_entries d)" for k
  proof (rule sorted_distinct_set_unique)
    have ok': "dir_ok d'" using assms(2) that by (auto simp: dir_ok_def intro: distinct_map_filter)
    show "sorted (archives d')" "distinct (archives d')" using archives_distinct[OF ok'] by auto
    show "sorted (drop k (archives d))" "distinct (drop k (archives d))"
      using archives_distinct[OF assms(2)] by (auto intro: sorted_wrt_drop)
    have "set (archives d') = set (archives d) - set (take k (archives d))"
      using that by (auto simp: set_archives)
    also have "\<dots> = set (drop k (archives d))"
      using set_drop_minus archives_distinct[OF assms(2)] by blast
    finally show "set (archives d') = set (drop k (archives d))" .
  qed
  show ?thesis
  proof (cases "fst (read_dir d)")
    case (Inl x)
    then have "ds_entries d' = ds_entries d" "r \<noteq> None"
      using assms(1) by (auto simp: prune_def read_dir_def split: prod.splits option.splits if_splits dest!: pop_fault_entries)
    then show ?thesis using e[of 0] by (intro exI[of _ 0]) auto
  next
    case (Inr es)
    then obtain d1 where d1: "read_dir d = (Inr es, d1)" by (cases "read_dir d") auto
    then have "prune_files (archives d) keep d1 = (r, d')" "ds_entries d1 = ds_entries d"
      using assms(1) archive_names_read[OF d1] by (auto simp: prune_def)
    from prune_files_effect[OF this(1)] this(2) show ?thesis using e assms(3) by (metis not_less)
  qed
qed

section \<open>What a backup does to the archives\<close>

lemma not_archive_tmp: "\<not> is_archive (n @ ''.sql.gz.tmp'')"
proof
  assume "is_archive (n @ ''.sql.gz.tmp'')"
  then obtain r where "(n @ ''.sql.gz.tm'') @ [CHR ''p''] = (r @ ''.sql.g'') @ [CHR ''z'']"
    by (auto simp: is_archive_def has_suffix_iff)
  then have "CHR ''p'' = CHR ''z''" by (rule append1_eq_conv[THEN iffD1, THEN conjunct2])
  then show False by simp
qed

lemma archive_entries_frame [simp]:
  "\<not> is_archive n \<Longrightarrow> archive_entries (put_entry n c d) = archive_entries d"
  "\<not> is_archive n \<Longrightarrow> archive_entries (drop_entry n d) = archive_entries d"
  by (auto simp: archive_entries_def put_entry_def drop_entry_def intro!: filter_cong)

lemma archive_entries_put:
  "is_archive n \<Longrightarrow> archive_entries (put_entry n c d) = filter (\<lambda>e. fst e \<noteq> n) (archive_entries d) @ [(n, Some c)]"
  by (auto simp: archive_entries_def put_entry_def intro!: filter_cong)

lemma dir_ok_put [simp]: "dir_ok d \<Longrightarrow> dir_ok (put_entry n c d)"
  by (auto simp: dir_ok_def put_entry_def intro: distinct_map_filter)

lemma dir_ok_drop [simp]: "dir_ok d \<Longrightarrow> dir_ok (drop_entry n d)"
  by (auto simp: dir_ok_def drop_entry_def intro: distinct_map_filter)

lemma same_entries: "ds_entries d' = ds_entries d \<Longrightarrow> archive_entries d' = archive_entries d \<and> dir_ok d' = dir_ok d"
  by (simp add: archive_entries_def dir_ok_def)

lemma discard_tmp_archives:
  assumes "discard_tmp tmp e d = (r, d')" "\<not> is_archive tmp"
  shows "r = Inl e \<and> archive_entries d' = archive_entries d"
proof -
  obtain q d1 where q: "remove_file tmp d = (q, d1)" by fastforce
  have "archive_entries d1 = archive_entries d"
    using remove_file_entries[OF q] assms(2) same_entries[of d1 d]
    by (auto simp: archive_entries_def intro!: filter_cong split: if_splits)
  then show ?thesis using assms(1) q by (simp add: discard_tmp_def)
qed

lemma create_file_archives:
  assumes "create_file tmp d = (r, d')" "\<not> is_archive tmp"
  shows "archive_entries d' = archive_entries d \<and> (dir_ok d \<longrightarrow> dir_ok d')"
  using assms archive_entries_frame(1)[OF assms(2)]
  by (auto simp: create_file_def split: prod.splits option.splits dest!: pop_fault_entries same_entries)

lemma make_dir_archives:
  "make_dir d = (r, d') \<Longrightarrow> archive_entries d' = archive_entries d \<and> dir_ok d' = dir_ok d"
  by (auto simp: make_dir_def archive_entries_def dir_ok_def split: prod.splits option.splits dest!: pop_fault_entries)

lemma rename_file_archives:
  assumes "rename_file tmp out (put_entry tmp c d) = (r, d')" "\<not> is_archive tmp" "is_archive out"
  shows "case r of
      Inl e \<Rightarrow> archive_entries d' = archive_entries d
    | Inr _ \<Rightarrow> archive_entries d' = filter (\<lambda>e. fst e \<noteq> out) (archive_entries d) @ [(out, Some c)] \<and> (dir_ok d \<longrightarrow> dir_ok d')"
proof -
  obtain f d1 where f: "pop_fault (put_entry tmp c d) = (f, d1)" by fastforce
  have e: "ds_entries d1 = ds_entries (put_entry tmp c d)" using pop_fault_entries[OF f] by simp
  have n: "map_of (filter (\<lambda>e. fst e \<noteq> tmp) xs) tmp = None" for xs :: "(string \<times> string option) list"
    by (induction xs) auto
  have m: "map_of (ds_entries d1) tmp = Some (Some c)"
    using n[of "ds_entries d"] unfolding e by (simp add: put_entry_def map_add_def)
  have a: "archive_entries d1 = archive_entries d" "dir_ok d \<Longrightarrow> dir_ok d1"
    using same_entries[OF e] assms(2) by simp_all
  show ?thesis
    using assms f m a archive_entries_put[OF assms(3), of c "drop_entry tmp d1"]
    by (auto simp: rename_file_def split: prod.splits option.splits if_splits)
qed

lemma pop_fault_quiet: "ds_faults d = [] \<Longrightarrow> pop_fault d = (None, d)"
  by (simp add: pop_fault_def)

lemma prune_files_quiet: "ds_faults d = [] \<Longrightarrow> fst (prune_files fs keep d) = None"
  by (induction fs keep d rule: prune_files.induct)
    (auto simp: remove_file_def pop_fault_quiet fatal_def drop_entry_def split: prod.splits if_splits)

lemma prune_quiet: "ds_faults d = [] \<Longrightarrow> ds_exists d \<Longrightarrow> fst (prune keep d) = None"
  by (simp add: prune_def read_dir_def pop_fault_quiet prune_files_quiet)

lemma archives_entries: "set (archives d) = fst ` set (archive_entries d)"
  by (simp add: archives_def)

text \<open>The window of archives after the new one has been renamed into place.\<close>

lemma prune_window:
  assumes "prune keep_count d = (q, d')" "dir_ok d" "out \<in> set (archives d)" "\<forall>n \<in> set (archives d). n \<le> out"
  shows "out \<in> set (archives d') \<and> archive_entries d' = filter (\<lambda>e. fst e \<in> set (archives d')) (archive_entries d) \<and>
    (\<forall>a \<in> set (archives d) - set (archives d'). \<forall>b \<in> set (archives d'). a < b) \<and>
    min 7 (length (archives d)) \<le> length (archives d') \<and> (q = None \<longrightarrow> length (archives d') \<le> 7)"
proof -
  obtain k where k: "k \<le> length (archives d) - 7" "q = None \<longrightarrow> k = length (archives d) - 7"
      "ds_entries d' = filter (\<lambda>e. fst e \<notin> set (take k (archives d))) (ds_entries d)" "archives d' = drop k (archives d)"
    using prune_effect[OF assms(1,2)] by (auto simp: keep_count_def)
  note s = archives_distinct[OF assms(2)]
  have m: "set (archives d) - set (archives d') = set (take k (archives d))"
    using k(4) set_drop_minus[of "archives d" k] s set_take_subset[of k "archives d"] by auto
  have l: "k < length (archives d)" using k(1) assms(3) by (cases "archives d") auto
  have "out \<notin> set (take k (archives d))"
  proof
    assume o: "out \<in> set (take k (archives d))"
    have "archives d ! k \<in> set (drop k (archives d))" using l by (metis Cons_nth_drop_Suc list.set_intros(1))
    then have "out < archives d ! k" "archives d ! k \<in> set (archives d)"
      using sorted_take_drop[of "archives d" out k] o s l by auto
    then show False using assms(4) by fastforce
  qed
  then have "out \<in> set (archives d')" using m assms(3) by blast
  moreover have "archive_entries d' = filter (\<lambda>e. fst e \<in> set (archives d')) (archive_entries d)"
  proof -
    have "archive_entries d' = filter (\<lambda>e. fst e \<notin> set (take k (archives d))) (archive_entries d)"
      by (auto simp: archive_entries_def k(3) intro!: filter_cong)
    also have "\<dots> = filter (\<lambda>e. fst e \<in> set (archives d')) (archive_entries d)"
      using m by (intro filter_cong) (auto simp: archives_entries)
    finally show ?thesis .
  qed
  moreover have "\<forall>a \<in> set (archives d) - set (archives d'). \<forall>b \<in> set (archives d'). a < b"
    using m s sorted_take_drop[of "archives d" _ k] k(4) by auto
  moreover have "min 7 (length (archives d)) \<le> length (archives d')" "q = None \<longrightarrow> length (archives d') \<le> 7"
    using k by auto
  ultimately show ?thesis by blast
qed

text \<open>Every stage has succeeded: the process started, its output was read and stored, it ended well.\<close>

definition dump_succeeded :: "dump_run \<Rightarrow> bool" where
  "dump_succeeded dr \<longleftrightarrow> dr_pipe dr = None \<and> dr_start dr = None \<and> dr_copy dr = None \<and> dr_gzip_close dr = None \<and>
     dr_file_close dr = None \<and> dr_wait dr = None"

lemma dump_failure_None: "dump_failure dr = None \<longleftrightarrow>
    dr_copy dr = None \<and> dr_gzip_close dr = None \<and> dr_file_close dr = None \<and> dr_wait dr = None"
  by (auto simp: dump_failure_def split: option.split)

lemma discard_tmp_fails [simp]: "fst (discard_tmp tmp e d) = Inl e" "discard_tmp tmp e d \<noteq> (Inr path, d')"
  by (simp_all add: discard_tmp_def)

text \<open>A run that succeeds has gone through all its steps; one that fails has replaced nothing.\<close>

lemma backup_run_done:
  assumes "backup_run gzip stat exec m tenant now d = (Inr path, d')"
  obtains d1 d2 d4 where "make_dir d = (Inr (), d1)" "create_file (date_stamp now @ ''.sql.gz.tmp'') d1 = (Inr (), d2)"
    "dump_succeeded (exec (dump_args m tenant))"
    "rename_file (date_stamp now @ ''.sql.gz.tmp'') (date_stamp now @ ''.sql.gz'')
       (put_entry (date_stamp now @ ''.sql.gz.tmp'') (gzip (dr_output (exec (dump_args m tenant)))) d2) = (Inr (), d4)"
    "d' = snd (prune keep_count d4)" "path = path_join [backup_root m, tenant, date_stamp now @ ''.sql.gz'']"
  using assms
  by (auto simp: backup_run_def Let_def dump_failure_None dump_succeeded_def tmp_content_def
      split: option.split_asm sum.split_asm prod.split_asm)

lemma backup_run_failed:
  assumes "backup_run gzip stat exec m tenant now d = (Inl e, d')"
  shows "archive_entries d' = archive_entries d"
proof -
  let ?tmp = "date_stamp now @ ''.sql.gz.tmp''"
  have nt: "\<not> is_archive ?tmp" by (rule not_archive_tmp)
  have ia: "is_archive (date_stamp now @ ''.sql.gz'')" by (simp add: is_archive_def has_suffix_iff)
  have dis: "archive_entries s' = archive_entries s" if "discard_tmp ?tmp x s = (y, s')" for x s y s'
    using discard_tmp_archives[OF that nt] by simp
  show ?thesis
    using assms archive_entries_frame(1)[OF nt]
    by (auto simp: backup_run_def Let_def split: option.split_asm sum.split_asm prod.split_asm
        dest!: make_dir_archives create_file_archives[OF _ nt] rename_file_archives[OF _ nt ia] dis)
qed

text \<open>When nothing stands in the way, a run succeeds.\<close>

lemma backup_run_possible:
  assumes "stat (tenant_compose_file m tenant) = None" "dump_succeeded (exec (dump_args m tenant))" "ds_faults d = []"
    and "map_of (ds_entries d) (date_stamp now @ ''.sql.gz'') \<noteq> Some None"
  shows "\<exists>path d'. backup_run gzip stat exec m tenant now d = (Inr path, d')"
proof -
  have "map_of (filter (\<lambda>e. fst e \<noteq> a) xs) b = (if a = b then None else map_of xs b)" for a b and xs :: "(string \<times> string option) list"
    by (induction xs) auto
  then show ?thesis
    using assms
    by (auto simp: backup_run_def Let_def dump_succeeded_def dump_failure_def make_dir_def create_file_def rename_file_def
        pop_fault_def put_entry_def drop_entry_def map_add_def split: option.split)
qed

lemma rename_keeps_faults: "rename_file a b d = (Inr u, d') \<Longrightarrow> ds_faults d = [] \<Longrightarrow> ds_faults d' = [] \<and> ds_exists d' = ds_exists d"
  by (auto simp: rename_file_def pop_fault_quiet put_entry_def drop_entry_def split: option.splits if_splits)

text \<open>
  C22. A backup never costs an archive it should keep.  A run that fails leaves every archive as
  it was.  A run that succeeds has seen every stage succeed: the process started, its whole output was
  read, compressed and stored, the file was closed, and \<^verbatim>\<open>pg_dump\<close> ended with success; the compressed
  output is then under the day's name, and of the other archives only the oldest are gone, never so
  many that fewer than seven (or all there are) remain; without a failure at most seven remain.  And
  it does succeed when the compose file exists, the stages succeed, the directory makes no trouble and
  the name is not that of a subdirectory.  All this rests on the day's name being the greatest, which
  it is while the clock does not run backwards and nothing else writes there.
\<close>

theorem backup_run_safe:
  assumes "backup_run gzip stat exec m tenant now d = (r, d')" "dir_ok d"
    and "\<forall>n \<in> set (archives d). n \<le> date_stamp now @ ''.sql.gz''"
  shows "(case r of
      Inl e \<Rightarrow> archive_entries d' = archive_entries d
    | Inr path \<Rightarrow>
        (let dr = exec (dump_args m tenant) in
           dr_pipe dr = None \<and> dr_start dr = None \<and> dr_copy dr = None \<and> dr_gzip_close dr = None \<and> dr_file_close dr = None \<and>
           dr_wait dr = None) \<and>
        (date_stamp now @ ''.sql.gz'', Some (gzip (dr_output (exec (dump_args m tenant))))) \<in> set (archive_entries d') \<and>
        set (archive_entries d') \<subseteq> insert (date_stamp now @ ''.sql.gz'', Some (gzip (dr_output (exec (dump_args m tenant)))))
          (set (archive_entries d)) \<and>
        (\<forall>a \<in> set (archives d) - set (archives d'). \<forall>b \<in> set (archives d'). a < b) \<and>
        min 7 (length (archives d)) \<le> length (archives d') \<and>
        (ds_faults d = [] \<longrightarrow> length (archives d') \<le> 7)) \<and>
    (stat (tenant_compose_file m tenant) = None \<and> dump_succeeded (exec (dump_args m tenant)) \<and> ds_faults d = [] \<and>
       map_of (ds_entries d) (date_stamp now @ ''.sql.gz'') \<noteq> Some None \<longrightarrow> (\<exists>path. r = Inr path))"
proof (cases r)
  case (Inl e)
  have "backup_run gzip stat exec m tenant now d = (Inl e, d')" using assms(1) Inl by simp
  then show ?thesis using Inl backup_run_failed backup_run_possible[of stat m tenant exec d now gzip] by fastforce
next
  case (Inr path)
  let ?out = "date_stamp now @ ''.sql.gz''"
  let ?c = "gzip (dr_output (exec (dump_args m tenant)))"
  have ia: "is_archive ?out" by (simp add: is_archive_def has_suffix_iff)
  have "backup_run gzip stat exec m tenant now d = (Inr path, d')" using assms(1) Inr by simp
  then obtain d1 d2 d4 where x: "make_dir d = (Inr (), d1)" "create_file (?out @ ''.tmp'') d1 = (Inr (), d2)"
      "dump_succeeded (exec (dump_args m tenant))"
      "rename_file (?out @ ''.tmp'') ?out (put_entry (?out @ ''.tmp'') ?c d2) = (Inr (), d4)" "d' = snd (prune keep_count d4)"
    by (rule backup_run_done) simp
  obtain q where q: "prune keep_count d4 = (q, d')" using x(5) by (metis prod.collapse)
  have nt: "\<not> is_archive (?out @ ''.tmp'')" using not_archive_tmp[of "date_stamp now"] by simp
  have a2: "archive_entries d2 = archive_entries d" "dir_ok d2"
    using make_dir_archives[OF x(1)] create_file_archives[OF x(2) nt] assms(2) by simp_all
  have e4: "archive_entries d4 = filter (\<lambda>e. fst e \<noteq> ?out) (archive_entries d) @ [(?out, Some ?c)]" "dir_ok d4"
    using rename_file_archives[OF x(4) nt ia] a2 by simp_all
  have n4: "set (archives d4) = insert ?out (set (archives d))" by (auto simp: archives_entries e4(1))
  then have le: "\<forall>n \<in> set (archives d4). n \<le> ?out" using assms(3) by auto
  note w = prune_window[OF q e4(2) _ le]
  have len: "length (archives d) \<le> length (archives d4)"
    using archives_distinct[OF e4(2)] archives_distinct[OF assms(2)] n4
    by (metis card_mono distinct_card finite_insert finite_set subset_insertI)
  have fq: "ds_faults d = [] \<Longrightarrow> q = None"
    using x(1,2) q rename_keeps_faults[OF x(4)] prune_quiet[of d4 keep_count]
    by (auto simp: make_dir_def create_file_def pop_fault_def put_entry_def)
  have "(?out, Some ?c) \<in> set (archive_entries d')" "set (archive_entries d') \<subseteq> insert (?out, Some ?c) (set (archive_entries d))"
    using w n4 by (auto simp: e4(1))
  then show ?thesis using w n4 len fq Inr x(3) by (auto simp: dump_succeeded_def)
qed

definition week_of_dumps :: dir_state where
  "week_of_dumps = \<lparr>ds_exists = True,
     ds_entries = map (\<lambda>c. (''1970010'' @ [c] @ ''.sql.gz'', Some [c])) ''1234567'', ds_faults = []\<rparr>"

definition good_dump :: "string list \<Rightarrow> dump_run" where
  "good_dump args = \<lparr>dr_pipe = None, dr_start = None, dr_output = ''dump'', dr_copy = None,
     dr_gzip_close = None, dr_file_close = None, dr_partial = '''', dr_wait = None\<rparr>"

theorem backup_run_safe_witness:
  "\<exists>d' path. backup_run (\<lambda>s. s) (\<lambda>p. None) good_dump \<lparr>mg_data_dir = ''/d'', mg_backup_root = ''''\<rparr> ''tnt_a''
       (7 * day) week_of_dumps = (Inr path, d') \<and>
     (''19700108.sql.gz'', Some ''dump'') \<in> set (archive_entries d') \<and> length (archives d') = 7"
proof -
  let ?m = "\<lparr>mg_data_dir = ''/d'', mg_backup_root = ''''\<rparr>"
  have s: "date_stamp (7 * day) = ''19700108''"
  proof -
    have z: "7 * day div day = 7" by (simp add: day_eq)
    have y: "year_of 7 = 1970" "year_start 1970 = 0" by (simp_all add: year_of_def year_start_def Let_def)
    have m: "month_of 1970 7 = 0" "month_start 1970 0 = 0"
      by (simp_all add: month_of_def month_start_def leap_year_def upt_rec)
    have d: "nat_digits 1970 = ''1970''" "nat_digits 1 = ''1''" "nat_digits 8 = ''8''"
      by (simp_all add: nat_digits.simps[of 1970] nat_digits.simps[of 197] nat_digits.simps[of 19] nat_digits.simps[of "Suc 0"]
          nat_digits.simps[of 8] nat_digits.simps[of 0] nat_digits.simps[of 7] nat_digits.simps[of 9] char_of_def bit_0)
    show ?thesis using d(2) by (simp add: date_stamp_def z y m Let_def pad2_def pad4_def itoa_def d)
  qed
  have ok: "dir_ok week_of_dumps" by (simp add: dir_ok_def week_of_dumps_def)
  have a: "set (archives week_of_dumps) = (\<lambda>c. ''1970010'' @ [c] @ ''.sql.gz'') ` set ''1234567''"
    by (auto simp: set_archives week_of_dumps_def is_archive_def has_suffix_def)
  have l: "length (archives week_of_dumps) = 7"
    by (simp add: archives_def archive_entries_def week_of_dumps_def is_archive_def has_suffix_def)
  have le: "\<forall>n \<in> set (archives week_of_dumps). n \<le> date_stamp (7 * day) @ ''.sql.gz''"
    unfolding a s by simp
  obtain path d' where r: "backup_run (\<lambda>s. s) (\<lambda>p. None) good_dump ?m ''tnt_a'' (7 * day) week_of_dumps = (Inr path, d')"
    by (simp add: backup_run_def good_dump_def dump_failure_def make_dir_def create_file_def rename_file_def pop_fault_def
        week_of_dumps_def put_entry_def drop_entry_def Let_def s)
  show ?thesis
    using r backup_run_safe[OF r ok le] l by (auto simp: s good_dump_def week_of_dumps_def)
qed

end
