(* ===== verification/Server.thy ===== *)
theory Server
  imports Reconciler Admission Backup "HOL-Library.State_Monad"
begin

text \<open>
  Package \<^verbatim>\<open>internal/daemon\<close> (\<^verbatim>\<open>server.go\<close>): the handlers of the REST API over the world of the
  reconciler.  The state of the daemon adds to that world the number of reconciler runs that were
  triggered in the background and have not started (\<^verbatim>\<open>go s.recon.Trigger\<close>), and the
  \<^verbatim>\<open>systemctl\<close> calls.  A handler is an action of the state monad that returns the response.  The
  random source, the MQTT broker, \<^verbatim>\<open>systemctl\<close>, the output of \<^verbatim>\<open>docker compose logs\<close> and the
  Docker listing of the convergence poll are fields of the configuration.
\<close>

section \<open>Configuration and state\<close>

record 'd server_cfg =
  sc_env :: "'d env"
  sc_dev_mode :: bool
  sc_recon :: bool
  sc_docker_reachable :: "('d \<Rightarrow> bool) option"
  sc_poll :: "(instant \<Rightarrow> string + (string \<times> string) list) option"
  sc_poll_gap :: "instant \<Rightarrow> nat"
  sc_meminfo :: "string option"
  sc_secrets :: "instant \<Rightarrow> string \<Rightarrow> (string \<times> string) \<times> string"
  sc_rnd :: "instant \<Rightarrow> string \<Rightarrow> randomness"
  sc_uuid :: "instant \<Rightarrow> string"
  sc_mqtt :: "string \<Rightarrow> cert list \<Rightarrow> cert \<Rightarrow> string \<Rightarrow> string \<Rightarrow> int \<Rightarrow> string option"
  sc_logs :: "string list \<Rightarrow> 'd \<Rightarrow> string"

record 'd daemon =
  dm_world :: "'d world"
  dm_pending :: nat
  dm_systemctl :: "string list list"

type_synonym ('d, 'a) act = "('d daemon, 'a) state"

abbreviation return :: "'a \<Rightarrow> ('s, 'a) state" where "return \<equiv> State_Monad.return"

section \<open>Primitive actions\<close>

definition on_store :: "(db \<Rightarrow> 'r \<times> db) \<Rightarrow> ('d, 'r) act" where
  "on_store f = State (\<lambda>s. let (r, w) = on_db f (dm_world s) in (r, s\<lparr>dm_world := w\<rparr>))"

definition emit_event :: "event \<Rightarrow> ('d, unit) act" where
  "emit_event ev = State (\<lambda>s. ((), s\<lparr>dm_world := audit ev (dm_world s)\<rparr>))"

definition now :: "('d, instant) act" where
  "now = State (\<lambda>s. (db_now (w_db (dm_world s)), s))"

text \<open>\<^verbatim>\<open>if s.recon != nil { go s.recon.Trigger(...) }\<close>\<close>

definition trigger_recon :: "'d server_cfg \<Rightarrow> ('d, unit) act" where
  "trigger_recon cfg = State (\<lambda>s. ((), if sc_recon cfg then s\<lparr>dm_pending := Suc (dm_pending s)\<rparr> else s))"

definition render_tsdb :: "'d server_cfg \<Rightarrow> string \<Rightarrow> ('d, provision_error + string) act" where
  "render_tsdb cfg tid = State (\<lambda>s.
     let w = dm_world s; env = sc_env cfg;
         (r, db, f) = render_and_write_tsdb (env_exec env) (env_sha env)
           (fst (sc_secrets cfg (db_now (w_db w)) tid)) tid (env_data_dir env) (w_db w) (w_fs w)
     in (r, s\<lparr>dm_world := w\<lparr>w_db := db, w_fs := f\<rparr>\<rparr>))"

definition render_site_files :: "'d server_cfg \<Rightarrow> string \<Rightarrow> ('d, provision_error + string) act" where
  "render_site_files cfg sid = State (\<lambda>s.
     let w = dm_world s; env = sc_env cfg;
         (r, db, f) = render_and_write_site (env_exec env) (env_sha env)
           (sc_secrets cfg (db_now (w_db w)) sid) sid (env_data_dir env) (w_db w) (w_fs w)
     in (r, s\<lparr>dm_world := w\<lparr>w_db := db, w_fs := f\<rparr>\<rparr>))"

definition on_files :: "(fs \<Rightarrow> 'r \<times> fs) \<Rightarrow> ('d, 'r) act" where
  "on_files f = State (\<lambda>s. let (r, f') = f (w_fs (dm_world s)) in (r, s\<lparr>dm_world := (dm_world s)\<lparr>w_fs := f'\<rparr>\<rparr>))"

definition compose_restart :: "'d server_cfg \<Rightarrow> string \<Rightarrow> string \<Rightarrow> ('d, recon_error option) act" where
  "compose_restart cfg project path = State (\<lambda>s.
     let (e, w) = run_compose (sc_env cfg) project path [''restart'', ''broker''] (dm_world s) in (e, s\<lparr>dm_world := w\<rparr>))"

text \<open>The log of a render failure is not kept; a success triggers the reconciler.\<close>

definition trigger_if_rendered :: "'d server_cfg \<Rightarrow> provision_error + string \<Rightarrow> ('d, unit) act" where
  "trigger_if_rendered cfg r = (case r of Inl _ \<Rightarrow> return () | Inr _ \<Rightarrow> trigger_recon cfg)"

section \<open>Early returns\<close>

definition reject :: "http_error option \<Rightarrow> ('d, response) act \<Rightarrow> ('d, response) act" where
  "reject e k = (case e of Some x \<Rightarrow> return (write_err 400 x) | None \<Rightarrow> k)"

text \<open>\<^verbatim>\<open>if err == sqlite.ErrNotFound { 404 } else { 500 }\<close>\<close>

definition not_found_or_500 :: "http_error \<Rightarrow> store_error \<Rightarrow> response" where
  "not_found_or_500 nf e = (if e = ErrNotFound then write_err 404 nf else write_err 500 (StoreError e))"

definition found :: "http_error \<Rightarrow> store_error + 'a \<Rightarrow> ('a \<Rightarrow> ('d, response) act) \<Rightarrow> ('d, response) act" where
  "found nf r k = (case r of Inl e \<Rightarrow> return (not_found_or_500 nf e) | Inr x \<Rightarrow> k x)"

definition decoded :: "string + 'a \<Rightarrow> ('a \<Rightarrow> ('d, response) act) \<Rightarrow> ('d, response) act" where
  "decoded body k = (case body of Inl e \<Rightarrow> return (write_err 400 (BadBody e)) | Inr req \<Rightarrow> k req)"

definition tenant_project_id :: "string \<Rightarrow> ('d, string) act" where
  "tenant_project_id tid =
     (if tid = '''' then return ''''
      else do {
        r \<leftarrow> on_store (get_tenant tid);
        return (case r of Inl _ \<Rightarrow> '''' | Inr t \<Rightarrow> t_project_id t)
      })"

definition default_to :: "string \<Rightarrow> string \<Rightarrow> string" where
  "default_to d x = (if x = '''' then d else x)"

section \<open>Health\<close>

definition handle_health :: "'d server_cfg \<Rightarrow> ('d, response) act" where
  "handle_health cfg = State (\<lambda>s.
     (write_json 200 (HealthBody
        \<lparr>h_docker_reachable = (case sc_docker_reachable cfg of None \<Rightarrow> False | Some f \<Rightarrow> f (w_docker (dm_world s))),
         h_registry_healthy = True,
         h_reconciler_last_tick = (case w_last_tick (dm_world s) of None \<Rightarrow> '''' | Some t \<Rightarrow> env_rfc3339 (sc_env cfg) t)\<rparr>), s))"

section \<open>Tenants\<close>

record create_tenant_req =
  ct_slug :: string
  ct_name :: string
  ct_domain :: string
  ct_retention :: string
  ct_project_id :: string

record update_tenant_req =
  ut_retention :: "string option"
  ut_name :: string
  ut_domain :: string
  ut_project_id :: "string option"

definition install_backup_timer :: "'d server_cfg \<Rightarrow> string \<Rightarrow> ('d, unit) act" where
  "install_backup_timer cfg tid =
     (if sc_dev_mode cfg then return ()
      else do {
        let path = ''/etc/systemd/system/controlai-backup-'' @ tid @ ''.timer'';
        r \<leftarrow> on_files (os_write_file path (RawBytes (systemd_timer_unit tid)));
        (case r of
           Inl _ \<Rightarrow> return ()
         | Inr _ \<Rightarrow> State (\<lambda>s. ((), s\<lparr>dm_systemctl := dm_systemctl s @ [[''enable'', ''--now'', path]]\<rparr>)))
      })"

definition handle_create_tenant :: "'d server_cfg \<Rightarrow> string + create_tenant_req \<Rightarrow> ('d, response) act" where
  "handle_create_tenant cfg body = decoded body (\<lambda>req.
     reject (validate_slug_http (ct_slug req)) (
     reject (if ct_project_id req \<noteq> '''' then validate_project_id (ct_project_id req) else None) (do {
       let retention = default_to ''7d'' (ct_retention req);
       let tid = ''tnt_'' @ ct_slug req;
       adm \<leftarrow> on_store (admission_check (sc_meminfo cfg) tid None);
       case adm of
         Some e \<Rightarrow> return (write_err 409 e)
       | None \<Rightarrow> do {
           r \<leftarrow> on_store (create_tenant
             \<lparr>t_id = tid, t_name = ct_name req, t_domain = ct_domain req, t_retention = retention,
              t_schema_version = 1, t_status = '''', t_project_id = ct_project_id req,
              t_created_at = 0, t_updated_at = 0\<rparr>);
           case r of
             Inl e \<Rightarrow> return (if e = ErrDuplicate then write_err 409 (AlreadyExists ''tenant'' tid)
                              else write_err 500 (StoreError e))
           | Inr _ \<Rightarrow> do {
               rendered \<leftarrow> render_tsdb cfg tid;
               trigger_if_rendered cfg rendered;
               install_backup_timer cfg tid;
               emit_event (new_event kind_tenant_create tid '''' '''' True (ct_project_id req));
               return (write_json 201 (IdBody tid (ct_project_id req)))
             }
         }
     })))"

definition handle_list_tenants :: "string option \<Rightarrow> ('d, response) act" where
  "handle_list_tenants sel =
     reject (case sel of None \<Rightarrow> None | Some v \<Rightarrow> if v \<noteq> '''' then validate_project_id v else None) (do {
       r \<leftarrow> on_store (list_tenants_filtered sel);
       case r of
         (Some e, _) \<Rightarrow> return (write_err 500 (StoreError e))
       | (None, rows) \<Rightarrow> return (write_json 200 (TenantsBody rows))
     })"

definition handle_get_tenant :: "string \<Rightarrow> ('d, response) act" where
  "handle_get_tenant tid = do {
     r \<leftarrow> on_store (get_tenant tid);
     found (NotFound ''tenant'' tid) r (\<lambda>row. return (write_json 200 (TenantBody row)))
   }"

definition valid_retentions_http :: "string list" where
  "valid_retentions_http = [''1m'', ''1h'', ''1d'', ''7d'', ''30d'']"

text \<open>The three parts of \<^verbatim>\<open>handleUpdateTenant\<close>: the retention, the project tag, the new rendering.\<close>

definition given :: "string option \<Rightarrow> bool" where
  "given x = (case x of None \<Rightarrow> False | Some v \<Rightarrow> v \<noteq> '''')"

definition update_retention_part :: "string \<Rightarrow> string option \<Rightarrow> ('d, response) act \<Rightarrow> ('d, response) act" where
  "update_retention_part tid retention k =
     (if given retention then
        reject (if the retention \<notin> set valid_retentions_http then Some (BadRetention (the retention)) else None) (do {
          r \<leftarrow> on_store (update_tenant_retention tid (the retention));
          found (NotFound ''tenant'' tid) r (\<lambda>_. k)
        })
      else k)"

definition update_project_part :: "string \<Rightarrow> string option \<Rightarrow> ('d, response) act \<Rightarrow> ('d, response) act" where
  "update_project_part tid project k =
     (case project of
        None \<Rightarrow> k
      | Some pid \<Rightarrow> reject (if pid \<noteq> '''' then validate_project_id pid else None) (do {
          r \<leftarrow> on_store (update_tenant_project_id tid pid);
          found (NotFound ''tenant'' tid) r (\<lambda>_. k)
        }))"

definition handle_update_tenant :: "'d server_cfg \<Rightarrow> string \<Rightarrow> string + update_tenant_req \<Rightarrow> ('d, response) act" where
  "handle_update_tenant cfg tid body = decoded body (\<lambda>req.
     update_retention_part tid (ut_retention req) (
     update_project_part tid (ut_project_id req) (do {
       (if given (ut_retention req)
        then do { rendered \<leftarrow> render_tsdb cfg tid; trigger_if_rendered cfg rendered }
        else return ());
       r \<leftarrow> on_store (get_tenant tid);
       found (NotFound ''tenant'' tid) r (\<lambda>t. do {
         emit_event (new_event kind_tenant_update tid ''''
           (''{\"retention\":'' @ env_quote (sc_env cfg) (case ut_retention req of None \<Rightarrow> '''' | Some v \<Rightarrow> v) @ ''}'') True (t_project_id t));
         return (write_json 200 (TenantBody t))
       })
     })))"

definition desired_row :: "string \<Rightarrow> string \<Rightarrow> string \<Rightarrow> string \<Rightarrow> desired_state_row" where
  "desired_row project tid sid st =
     \<lparr>d_project_id = project, d_tenant_id = tid, d_site_id = sid, d_state = st, d_config_hash = '''', d_updated_at = 0\<rparr>"

definition set_desired :: "string \<Rightarrow> string \<Rightarrow> string \<Rightarrow> string \<Rightarrow> ('d, unit) act" where
  "set_desired project tid sid st = do { _ \<leftarrow> on_store (upsert_desired_state (desired_row project tid sid st)); return () }"

fun set_desired_sites :: "string \<Rightarrow> string \<Rightarrow> site_row list \<Rightarrow> ('d, unit) act" where
  "set_desired_sites tid st [] = return ()"
| "set_desired_sites tid st (r # rs) = do {
     set_desired (tid @ ''-'' @ s_id r) tid (s_id r) st;
     set_desired_sites tid st rs
   }"

text \<open>The desired state of a tenant's database and of all its sites.\<close>

definition set_desired_tenant :: "string \<Rightarrow> string \<Rightarrow> ('d, unit) act" where
  "set_desired_tenant tid st = do {
     set_desired (tid @ ''-tsdb'') tid '''' st;
     r \<leftarrow> on_store (list_sites_by_tenant tid);
     (case r of (Some _, _) \<Rightarrow> return () | (None, sites) \<Rightarrow> set_desired_sites tid st sites)
   }"

text \<open>The part before and the part after the point where the background run is started.\<close>

definition delete_tenant_mark :: "'d server_cfg \<Rightarrow> string \<Rightarrow> bool \<Rightarrow> ('d, string) act" where
  "delete_tenant_mark cfg tid purge = do {
     pid \<leftarrow> tenant_project_id tid;
     set_desired_tenant tid (if purge then ''removed'' else ''stopped'');
     trigger_recon cfg;
     return pid
   }"

definition delete_tenant_finish :: "string \<Rightarrow> bool \<Rightarrow> string \<Rightarrow> ('d, response) act" where
  "delete_tenant_finish tid purge pid = do {
     r \<leftarrow> on_store (delete_tenant tid purge);
     case r of
       Inl e \<Rightarrow> return (write_err 500 (StoreError e))
     | Inr _ \<Rightarrow> do {
         emit_event (new_event kind_tenant_delete tid '''' (''{\"purge\":'' @ bool_text purge @ ''}'') True pid);
         return (write_json 204 NoBody)
       }
   }"

definition handle_delete_tenant :: "'d server_cfg \<Rightarrow> string \<Rightarrow> bool \<Rightarrow> ('d, response) act" where
  "handle_delete_tenant cfg tid purge = do {
     pid \<leftarrow> delete_tenant_mark cfg tid purge;
     delete_tenant_finish tid purge pid
   }"

section \<open>Sites\<close>

record create_site_req =
  cs_slug :: string
  cs_broker_kind :: string
  cs_throughput :: string
  cs_direction :: string
  cs_payload_codec :: string

record update_site_req =
  us_payload_codec :: string
  us_direction :: string

definition generate_site_ca :: "'d server_cfg \<Rightarrow> string \<Rightarrow> string \<Rightarrow> ('d, unit) act" where
  "generate_site_ca cfg tid sid =
     (if length (env_master_key (sc_env cfg)) > 0 then do {
        r \<leftarrow> on_store (get_ca_cert sid);
        (if r = Inl ErrNotFound then do {
           t \<leftarrow> now;
           (case generate_ca (env_fingerprint (sc_env cfg)) t (sc_rnd cfg t sid) tid sid (env_master_key (sc_env cfg)) of
              Inl _ \<Rightarrow> return ()
            | Inr a \<Rightarrow> do {
                _ \<leftarrow> on_store (store_ca_cert
                  \<lparr>a_site_id = sid, a_cert_pem = ca_cert_pem a, a_key_enc = ca_key_encrypted a,
                   a_key_nonce = ca_key_nonce a, a_fingerprint = ca_fingerprint a,
                   a_not_before = t - 5 * minute, a_not_after = add_date 20 0 t, a_created_at = 0\<rparr>);
                return ()
              })
         } else return ())
      } else return ())"

definition site_draft :: "string \<Rightarrow> string \<Rightarrow> create_site_req \<Rightarrow> site_row" where
  "site_draft sid tid req =
     \<lparr>s_id = sid, s_tenant_id = tid, s_broker_kind = cs_broker_kind req, s_throughput = cs_throughput req,
      s_direction = cs_direction req, s_payload_codec = cs_payload_codec req, s_leaf_ttl_days = 365,
      s_schema_version = 1, s_status = '''', s_created_at = 0, s_updated_at = 0\<rparr>"

definition site_defaults :: "create_site_req \<Rightarrow> create_site_req" where
  "site_defaults req = req\<lparr>cs_broker_kind := default_to ''mosquitto'' (cs_broker_kind req),
     cs_throughput := default_to ''low'' (cs_throughput req), cs_direction := default_to ''uni'' (cs_direction req),
     cs_payload_codec := default_to ''cbor'' (cs_payload_codec req)\<rparr>"

definition handle_create_site :: "'d server_cfg \<Rightarrow> string \<Rightarrow> string + create_site_req \<Rightarrow> ('d, response) act" where
  "handle_create_site cfg tid body = do {
     t \<leftarrow> on_store (get_tenant tid);
     found (NotFound ''tenant'' tid) t (\<lambda>_. decoded body (\<lambda>req0.
       reject (validate_slug_http (cs_slug req0)) (
       let req = site_defaults req0; sid = ''ste_'' @ cs_slug req in
       reject (if cs_throughput req = ''high'' then Some HighTier else None) (
       reject (if cs_broker_kind req = ''mosquitto'' \<and> cs_throughput req = ''mid'' then Some MosquittoMid else None) (do {
         adm \<leftarrow> on_store (admission_check (sc_meminfo cfg) tid (Some (site_draft '''' '''' req)));
         case adm of
           Some e \<Rightarrow> return (write_err 409 e)
         | None \<Rightarrow> do {
             r \<leftarrow> on_store (create_site (site_draft sid tid req));
             case r of
               Inl e \<Rightarrow> return (if e = ErrDuplicate then write_err 409 (AlreadyExists ''site'' sid)
                                else write_err 500 (StoreError e))
             | Inr _ \<Rightarrow> do {
                 generate_site_ca cfg tid sid;
                 rendered \<leftarrow> render_site_files cfg sid;
                 trigger_if_rendered cfg rendered;
                 pid \<leftarrow> tenant_project_id tid;
                 emit_event (new_event kind_site_create tid sid '''' True pid);
                 return (write_json 201 (IdBody sid ''''))
               }
           }
       })))))
   }"

definition handle_list_sites :: "string \<Rightarrow> ('d, response) act" where
  "handle_list_sites tid = do {
     r \<leftarrow> on_store (list_sites_by_tenant tid);
     case r of
       (Some e, _) \<Rightarrow> return (write_err 500 (StoreError e))
     | (None, rows) \<Rightarrow> return (write_json 200 (SitesBody rows))
   }"

definition handle_get_site :: "string \<Rightarrow> ('d, response) act" where
  "handle_get_site sid = do {
     r \<leftarrow> on_store (get_site sid);
     found (NotFound ''site'' sid) r (\<lambda>row. return (write_json 200 (SiteBody row)))
   }"

definition handle_update_site :: "'d server_cfg \<Rightarrow> string \<Rightarrow> string \<Rightarrow> string + update_site_req \<Rightarrow> ('d, response) act" where
  "handle_update_site cfg tid sid body = decoded body (\<lambda>req.
     reject (if us_direction req \<noteq> '''' \<and> us_direction req \<notin> {''uni'', ''bi''} then Some (BadDirection (us_direction req)) else None) (
     reject (if us_payload_codec req \<noteq> '''' \<and> us_payload_codec req \<notin> {''cbor'', ''json'', ''raw_passthrough''}
             then Some (BadCodec (us_payload_codec req)) else None) (
     reject (if us_direction req = '''' \<and> us_payload_codec req = '''' then Some NothingToUpdate else None) (do {
       r \<leftarrow> on_store (update_site sid (us_payload_codec req) (us_direction req));
       found (NotFound ''site'' sid) r (\<lambda>_. do {
         rendered \<leftarrow> render_site_files cfg sid;
         trigger_if_rendered cfg rendered;
         pid \<leftarrow> tenant_project_id tid;
         emit_event (new_event kind_site_update tid sid
           (''{\"codec\":'' @ env_quote (sc_env cfg) (us_payload_codec req) @ '',\"direction\":'' @
            env_quote (sc_env cfg) (us_direction req) @ ''}'') True pid);
         return (write_json 204 NoBody)
       })
     }))))"

definition handle_delete_site :: "'d server_cfg \<Rightarrow> string \<Rightarrow> string \<Rightarrow> bool \<Rightarrow> ('d, response) act" where
  "handle_delete_site cfg tid sid purge = do {
     set_desired (tid @ ''-'' @ sid) tid sid (if purge then ''removed'' else ''stopped'');
     trigger_recon cfg;
     r \<leftarrow> on_store (delete_site sid purge);
     case r of
       Inl e \<Rightarrow> return (write_err 500 (StoreError e))
     | Inr _ \<Rightarrow> do {
         pid \<leftarrow> tenant_project_id tid;
         emit_event (new_event kind_site_delete tid sid (''{\"purge\":'' @ bool_text purge @ ''}'') True pid);
         return (write_json 204 NoBody)
       }
   }"

section \<open>Lifecycle\<close>

definition handle_start_tenant :: "'d server_cfg \<Rightarrow> string \<Rightarrow> ('d, response) act" where
  "handle_start_tenant cfg tid = do {
     r \<leftarrow> on_store (get_tenant tid);
     found (NotFound ''tenant'' tid) r (\<lambda>t. do {
       set_desired (tid @ ''-tsdb'') tid '''' ''running'';
       _ \<leftarrow> on_store (update_tenant_status tid ''active'');
       trigger_recon cfg;
       emit_event (new_event kind_tenant_update tid '''' ''{\"action\":\"start\"}'' True (t_project_id t));
       return (write_json 202 (StateBody ''starting''))
     })
   }"

definition handle_stop_tenant :: "'d server_cfg \<Rightarrow> string \<Rightarrow> ('d, response) act" where
  "handle_stop_tenant cfg tid = do {
     r \<leftarrow> on_store (get_tenant tid);
     found (NotFound ''tenant'' tid) r (\<lambda>t. do {
       set_desired_tenant tid ''stopped'';
       trigger_recon cfg;
       emit_event (new_event kind_tenant_update tid '''' ''{\"action\":\"stop\"}'' True (t_project_id t));
       return (write_json 202 (StateBody ''stopping''))
     })
   }"

definition site_lifecycle :: "'d server_cfg \<Rightarrow> string \<Rightarrow> string \<Rightarrow> string \<Rightarrow> kind \<Rightarrow> string \<Rightarrow> ('d, response) act" where
  "site_lifecycle cfg tid sid st k answer = do {
     r \<leftarrow> on_store (get_site sid);
     found (NotFound ''site'' sid) r (\<lambda>_. do {
       set_desired (tid @ ''-'' @ sid) tid sid st;
       trigger_recon cfg;
       pid \<leftarrow> tenant_project_id tid;
       emit_event (new_event k tid sid '''' True pid);
       return (write_json 202 (StateBody answer))
     })
   }"

definition handle_start_site :: "'d server_cfg \<Rightarrow> string \<Rightarrow> string \<Rightarrow> ('d, response) act" where
  "handle_start_site cfg tid sid = site_lifecycle cfg tid sid ''running'' kind_site_start ''starting''"

definition handle_stop_site :: "'d server_cfg \<Rightarrow> string \<Rightarrow> string \<Rightarrow> ('d, response) act" where
  "handle_stop_site cfg tid sid = site_lifecycle cfg tid sid ''stopped'' kind_site_stop ''stopping''"

section \<open>Status\<close>

fun status_rows :: "tenant_row list \<Rightarrow> ('d, tenant_status list) act" where
  "status_rows [] = return []"
| "status_rows (t # ts) = do {
     r \<leftarrow> on_store (list_sites_by_tenant (t_id t));
     out \<leftarrow> status_rows ts;
     return (\<lparr>ts_id = t_id t, ts_name = t_name t, ts_status = t_status t, ts_retention = t_retention t,
              ts_site_count = length (snd r)\<rparr> # out)
   }"

definition handle_status :: "('d, response) act" where
  "handle_status = do {
     r \<leftarrow> on_store list_tenants;
     case r of
       (Some e, _) \<Rightarrow> return (write_err 500 (StoreError e))
     | (None, tenants) \<Rightarrow> do {
         out \<leftarrow> status_rows tenants;
         return (write_json 200 (StatusBody out))
       }
   }"

section \<open>Downlink\<close>

record publish_req =
  pb_topic :: string
  pb_payload :: string
  pb_qos :: int

definition mqtt_publish ::
  "'d server_cfg \<Rightarrow> string \<Rightarrow> string \<Rightarrow> string \<Rightarrow> string \<Rightarrow> int \<Rightarrow> ('d, string option) act"
where
  "mqtt_publish cfg sni dir topic payload qos = do {
     ca \<leftarrow> on_files (os_read_file (dir @ ''/ca.crt''));
     case ca of
       Inl _ \<Rightarrow> return (Some ''read CA'')
     | Inr pem \<Rightarrow>
         if certs_of_pem pem = [] then return (Some ''parse CA cert'')
         else do {
           crt \<leftarrow> on_files (os_read_file (dir @ ''/ingestor.crt''));
           case crt of
             Inl _ \<Rightarrow> return (Some ''load ingestor cert'')
           | Inr c \<Rightarrow> do {
               key \<leftarrow> on_files (os_read_file (dir @ ''/ingestor.key''));
               case key of
                 Inl _ \<Rightarrow> return (Some ''load ingestor cert'')
               | Inr k \<Rightarrow>
                   (case x509_key_pair c k of
                      None \<Rightarrow> return (Some ''load ingestor cert'')
                    | Some client \<Rightarrow> return (sc_mqtt cfg sni (certs_of_pem pem) client topic payload qos))
             }
         }
   }"

definition handle_publish :: "'d server_cfg \<Rightarrow> string \<Rightarrow> string \<Rightarrow> string + publish_req \<Rightarrow> ('d, response) act" where
  "handle_publish cfg tid sid body = do {
     r \<leftarrow> on_store (get_site sid);
     case r of
       Inl _ \<Rightarrow> return (write_err 404 (NotFound ''site'' sid))
     | Inr site \<Rightarrow>
         if s_direction site \<noteq> ''bi'' then return (write_err 409 (UniSite tid sid))
         else decoded body (\<lambda>req.
           reject (if pb_topic req = '''' then Some NoTopic else None) (do {
             let qos = (if pb_qos req < 0 \<or> pb_qos req > 2 then 1 else pb_qos req);
             t \<leftarrow> on_store (get_tenant tid);
             case t of
               Inl _ \<Rightarrow> return (write_err 404 (NotFound ''tenant'' tid))
             | Inr tenant \<Rightarrow> do {
                 let dir = env_data_dir (sc_env cfg) @ ''/tenants/'' @ tid @ ''/sites/'' @ sid @ ''/deploy/certs/active'';
                 e \<leftarrow> mqtt_publish cfg (sni_hostname sid tid (t_domain tenant)) dir (pb_topic req) (pb_payload req) qos;
                 return (case e of
                     Some m \<Rightarrow> write_err 500 (PublishFailed m)
                   | None \<Rightarrow> write_json 202 (StateBody ''accepted''))
               }
           }))
   }"

section \<open>Logs\<close>

definition log_tail :: "string \<Rightarrow> int" where
  "log_tail s =
     (let n = (if s = '''' then 100 else case atoi s of (v, ok) \<Rightarrow> if ok \<and> v > 0 then v else 100)
      in if n > 1000 then 1000 else n)"

definition logs_cmd :: "'d server_cfg \<Rightarrow> string \<Rightarrow> string \<Rightarrow> string \<Rightarrow> string \<Rightarrow> string list" where
  "logs_cmd cfg tid sid service tail =
     compose_cmd (tid @ ''-'' @ sid)
       (env_data_dir (sc_env cfg) @ ''/tenants/'' @ tid @ ''/sites/'' @ sid @ ''/docker-compose.yml'')
       ([''logs'', ''--no-color'', ''--tail'', itoa (log_tail tail)] @ (if service \<noteq> '''' then [service] else []))"

definition handle_logs :: "'d server_cfg \<Rightarrow> string \<Rightarrow> string \<Rightarrow> string \<Rightarrow> string \<Rightarrow> ('d, response) act" where
  "handle_logs cfg tid sid service tail = do {
     r \<leftarrow> on_store (get_site sid);
     case r of
       Inl _ \<Rightarrow> return (write_err 404 (NotFound ''site'' sid))
     | Inr _ \<Rightarrow> State (\<lambda>s. (write_json 200 (TextBody (sc_logs cfg (logs_cmd cfg tid sid service tail) (w_docker (dm_world s)))), s))
   }"

section \<open>Apply\<close>

text \<open>One look at the containers: converged, or the reason why not.\<close>

definition poll_reason :: "string + (string \<times> string) list \<Rightarrow> string option" where
  "poll_reason r =
     (case r of
        Inl e \<Rightarrow> Some (''docker list error: '' @ e)
      | Inr [] \<Rightarrow> Some ''no containers found for project''
      | Inr cs \<Rightarrow>
          (case find (\<lambda>(n, st). st \<noteq> ''running'') cs of
             None \<Rightarrow> None
           | Some (n, st) \<Rightarrow> Some (''container '' @ n @ '' is in state '' @ st)))"

text \<open>
  The loop of \<^verbatim>\<open>pollConvergence\<close>.  The listing is a function of time; the next look comes some
  positive time after this one; the context ends at \<open>cancel\<close>.  When the context has ended by the
  time of the next look, the \<^verbatim>\<open>select\<close> takes that branch.
\<close>

function poll_loop ::
  "(instant \<Rightarrow> string + (string \<times> string) list) \<Rightarrow> (instant \<Rightarrow> nat) \<Rightarrow> instant \<Rightarrow> instant \<Rightarrow> string \<Rightarrow> instant \<Rightarrow> response \<times> instant"
where
  "poll_loop ls gap cancel deadline project t =
     (case poll_reason (ls t) of
        None \<Rightarrow> (write_json 200 (ConvergedBody project True ''''), t)
      | Some why \<Rightarrow>
          if t > deadline then (write_json 202 (ConvergedBody project False why), t)
          else let t' = t + 1 + int (gap t)
               in if cancel \<le> t' then (write_json 202 (ConvergedBody project False ''request cancelled''), max t cancel)
                  else poll_loop ls gap cancel deadline project t')"
  by pat_completeness auto

termination
  by (relation "measure (\<lambda>(ls, gap, cancel, deadline, project, t). nat (deadline + 1 - t))") auto

declare poll_loop.simps [simp del]

definition poll_convergence :: "'d server_cfg \<Rightarrow> string \<Rightarrow> instant \<Rightarrow> instant \<Rightarrow> ('d, response) act" where
  "poll_convergence cfg project cancel deadline =
     (case sc_poll cfg of
        None \<Rightarrow> return (write_json 202 (ConvergedBody project False ''docker SDK not available''))
      | Some ls \<Rightarrow> State (\<lambda>s.
          let w = dm_world s;
              (r, t) = poll_loop ls (sc_poll_gap cfg) cancel deadline project (db_now (w_db w))
          in (r, s\<lparr>dm_world := w\<lparr>w_db := (w_db w)\<lparr>db_now := t\<rparr>\<rparr>\<rparr>)))"

text \<open>The router's time-out ends the context of every request after a minute; a client may end it earlier.\<close>

definition request_timeout :: duration where "request_timeout = 60 * second"

definition handle_apply :: "'d server_cfg \<Rightarrow> string \<Rightarrow> string \<Rightarrow> duration option \<Rightarrow> ('d, response) act" where
  "handle_apply cfg selector wait gone = do {
     set_desired selector '''' '''' ''running'';
     trigger_recon cfg;
     let secs = (if wait \<noteq> '''' then fst (atoi wait) else 0);
     if secs > 0 then do {
       t \<leftarrow> now;
       poll_convergence cfg selector
         (t + (case gone of None \<Rightarrow> request_timeout | Some d \<Rightarrow> min d request_timeout))
         (t + (if secs > 300 then 300 else secs) * second)
     } else return (write_json 202 (SelectorBody selector))
   }"

section \<open>Certificates\<close>

record issue_cert_req =
  ic_gateway :: string
  ic_ttl_days :: int

definition ca_of_row :: "ca_cert_row \<Rightarrow> ca" where
  "ca_of_row a = \<lparr>ca_cert_pem = a_cert_pem a, ca_key_encrypted = a_key_enc a, ca_key_nonce = a_key_nonce a,
     ca_fingerprint = '''', ca_cert = None, ca_key = None\<rparr>"

definition open_ca :: "string \<Rightarrow> ca_cert_row \<Rightarrow> http_error + ca" where
  "open_ca mkey a =
     (case parse_cert (ca_of_row a) of
        Inl e \<Rightarrow> Inl (PkiError ''parse CA cert'' e)
      | Inr c \<Rightarrow> (case decrypt_key c mkey of Inl e \<Rightarrow> Inl (PkiError ''decrypt CA key'' e) | Inr k \<Rightarrow> Inr k))"

definition gateway_cert_row :: "string \<Rightarrow> string \<Rightarrow> issued \<Rightarrow> cert_row" where
  "gateway_cert_row sid cn leaf =
     \<lparr>r_id = '''', r_site_id = sid, r_kind = ''gateway'', r_common_name = cn, r_cert_pem = is_cert_pem leaf,
      r_fingerprint = is_fingerprint leaf, r_not_before = is_not_before leaf, r_not_after = is_not_after leaf,
      r_revoked = False, r_revoked_at = None, r_created_at = 0\<rparr>"

definition handle_issue_cert :: "'d server_cfg \<Rightarrow> string \<Rightarrow> string \<Rightarrow> string + issue_cert_req \<Rightarrow> ('d, response) act" where
  "handle_issue_cert cfg tid sid body = decoded body (\<lambda>req.
     reject (if ic_gateway req = '''' then Some NoGateway else None) (
     reject (validate_slug_http (ic_gateway req)) (do {
       let ttl = (if ic_ttl_days req \<le> 0 then 365 else ic_ttl_days req);
       site \<leftarrow> on_store (get_site sid);
       found (NotFound ''site'' sid) site (\<lambda>_.
         if length (env_master_key (sc_env cfg)) = 0 then return (write_err 503 PkiUnavailable)
         else do {
           row \<leftarrow> on_store (get_ca_cert sid);
           case row of
             Inl _ \<Rightarrow> return (write_err 404 (NoCA sid))
           | Inr a \<Rightarrow>
               (case open_ca (env_master_key (sc_env cfg)) a of
                  Inl e \<Rightarrow> return (write_err 500 e)
                | Inr ca \<Rightarrow> do {
                    let cn = (if length (ic_gateway req) > 63 then take 63 (ic_gateway req) else ic_gateway req);
                    t \<leftarrow> now;
                    case issue_leaf_cert (env_fingerprint (sc_env cfg)) t (sc_rnd cfg t cn) ca cn ttl of
                      Inl e \<Rightarrow> return (write_err 500 (PkiError ''issue cert'' e))
                    | Inr leaf \<Rightarrow> do {
                        _ \<leftarrow> on_store (store_cert (sc_uuid cfg t) (gateway_cert_row sid cn leaf));
                        pid \<leftarrow> tenant_project_id tid;
                        emit_event (new_event kind_pki_issue_cert tid sid
                          (''{\"cn\":'' @ env_quote (sc_env cfg) cn @ '',\"fingerprint\":'' @
                           env_quote (sc_env cfg) (is_fingerprint leaf) @ ''}'') True pid);
                        return (write_json 201 (CertBody leaf))
                      }
                  })
         })
     })))"

definition restart_text :: "string \<Rightarrow> recon_error \<Rightarrow> string" where
  "restart_text project e =
     ''restart broker '' @ project @ '': '' @ (case e of ComposeFailed _ _ m \<Rightarrow> m | UnknownState _ _ \<Rightarrow> '''')"

definition handle_revoke_cert :: "'d server_cfg \<Rightarrow> string \<Rightarrow> string \<Rightarrow> string \<Rightarrow> ('d, response) act" where
  "handle_revoke_cert cfg tid sid fp = do {
     site \<leftarrow> on_store (get_site sid);
     found (NotFound ''site'' sid) site (\<lambda>_. do {
       r \<leftarrow> on_store (revoke_cert fp);
       found (NotFound ''cert'' fp) r (\<lambda>_. do {
         pid \<leftarrow> tenant_project_id tid;
         emit_event (new_event kind_pki_revoke_cert tid sid (''{\"fingerprint\":'' @ env_quote (sc_env cfg) fp @ ''}'') True pid);
         again \<leftarrow> on_store (get_site sid);
         (case again of
            Inl _ \<Rightarrow> return ()
          | Inr row \<Rightarrow>
              if s_broker_kind row = ''mosquitto'' then do {
                e \<leftarrow> compose_restart cfg (tid @ ''-'' @ sid)
                  (env_data_dir (sc_env cfg) @ ''/tenants/'' @ tid @ ''/sites/'' @ sid @ ''/docker-compose.yml'');
                emit_event (case e of
                    Some m \<Rightarrow> new_event kind_broker_restart tid sid
                      (''{\"err\":'' @ env_quote (sc_env cfg) (restart_text (tid @ ''-'' @ sid) m) @ '',\"trigger\":\"revocation\"}'') False ''''
                  | None \<Rightarrow> new_event kind_broker_restart tid sid ''{\"trigger\":\"revocation\"}'' True '''')
              } else return ());
         return (write_json 204 NoBody)
       })
     })
   }"

section \<open>Routes\<close>

datatype request =
    Health
  | Capacity
  | CreateTenant "string + create_tenant_req"
  | ListTenants "string option"
  | GetTenant string
  | UpdateTenant string "string + update_tenant_req"
  | DeleteTenant string string
  | CreateSite string "string + create_site_req"
  | ListSites string
  | GetSite string string
  | UpdateSite string string "string + update_site_req"
  | DeleteSite string string string
  | StartTenant string
  | StopTenant string
  | StartSite string string
  | StopSite string string
  | Publish string string "string + publish_req"
  | Logs string string string string
  | Apply string string "duration option"
  | Status
  | IssueCert string string "string + issue_cert_req"
  | RevokeCert string string string

fun handle :: "'d server_cfg \<Rightarrow> request \<Rightarrow> ('d, response) act" where
  "handle cfg Health = handle_health cfg"
| "handle cfg Capacity = on_store (handle_capacity (sc_meminfo cfg))"
| "handle cfg (CreateTenant body) = handle_create_tenant cfg body"
| "handle cfg (ListTenants sel) = handle_list_tenants sel"
| "handle cfg (GetTenant tid) = handle_get_tenant tid"
| "handle cfg (UpdateTenant tid body) = handle_update_tenant cfg tid body"
| "handle cfg (DeleteTenant tid purge) = handle_delete_tenant cfg tid (purge = ''true'')"
| "handle cfg (CreateSite tid body) = handle_create_site cfg tid body"
| "handle cfg (ListSites tid) = handle_list_sites tid"
| "handle cfg (GetSite tid sid) = handle_get_site sid"
| "handle cfg (UpdateSite tid sid body) = handle_update_site cfg tid sid body"
| "handle cfg (DeleteSite tid sid purge) = handle_delete_site cfg tid sid (purge = ''true'')"
| "handle cfg (StartTenant tid) = handle_start_tenant cfg tid"
| "handle cfg (StopTenant tid) = handle_stop_tenant cfg tid"
| "handle cfg (StartSite tid sid) = handle_start_site cfg tid sid"
| "handle cfg (StopSite tid sid) = handle_stop_site cfg tid sid"
| "handle cfg (Publish tid sid body) = handle_publish cfg tid sid body"
| "handle cfg (Logs tid sid service tail) = handle_logs cfg tid sid service tail"
| "handle cfg (Apply selector wait gone) = handle_apply cfg selector wait gone"
| "handle cfg Status = handle_status"
| "handle cfg (IssueCert tid sid body) = handle_issue_cert cfg tid sid body"
| "handle cfg (RevokeCert tid sid fp) = handle_revoke_cert cfg tid sid fp"

text \<open>The TCP transport: the \<^verbatim>\<open>Authorization\<close> header (empty when absent) before everything else.\<close>

definition unauthorized :: "http_error \<Rightarrow> response" where
  "unauthorized e = (write_err 401 e)\<lparr>rs_bearer := True\<rparr>"

definition token_auth :: "'d server_cfg \<Rightarrow> string \<Rightarrow> ('d, response) act \<Rightarrow> ('d, response) act" where
  "token_auth cfg hdr next =
     (if \<not> has_prefix hdr ''Bearer '' then return (unauthorized MissingBearer)
      else do {
        r \<leftarrow> on_store (lookup_token (env_sha (sc_env cfg)) (trim_prefix hdr ''Bearer ''));
        case r of
          Inl _ \<Rightarrow> return (unauthorized BadToken)
        | Inr _ \<Rightarrow> next
      })"

definition tcp_handler :: "'d server_cfg \<Rightarrow> string \<Rightarrow> request \<Rightarrow> ('d, response) act" where
  "tcp_handler cfg hdr req = token_auth cfg hdr (handle cfg req)"

section \<open>The daemon\<close>

text \<open>
  The daemon serves requests on both transports, runs the reconciler when it was triggered and
  when the ticker fires, and in between time passes, Docker changes, and the registry and the
  disk may fail at any later call.  Requests and reconciler runs are taken one at a time.
\<close>

definition set_world :: "'d daemon \<Rightarrow> 'd world \<Rightarrow> 'd daemon" where
  "set_world s w = s\<lparr>dm_world := w\<rparr>"

inductive daemon_step :: "'d server_cfg \<Rightarrow> 'd daemon \<Rightarrow> 'd daemon \<Rightarrow> bool" for cfg where
  Unix: "daemon_step cfg s (snd (run_state (handle cfg req) s))"
| Tcp: "daemon_step cfg s (snd (run_state (tcp_handler cfg hdr req) s))"
| Trigger: "0 < dm_pending s \<Longrightarrow>
    daemon_step cfg s (s\<lparr>dm_world := trigger (sc_env cfg) (dm_world s), dm_pending := dm_pending s - 1\<rparr>)"
| Ticker: "daemon_step cfg s (set_world s (tick (sc_env cfg) (dm_world s)))"
| Passes: "daemon_step cfg s (set_world s ((dm_world s)\<lparr>w_db := (w_db (dm_world s))\<lparr>db_now := db_now (w_db (dm_world s)) + int n\<rparr>\<rparr>))"
| Fails: "daemon_step cfg s (set_world s ((dm_world s)\<lparr>w_db := (w_db (dm_world s))\<lparr>db_faults := fs\<rparr>, w_fs := (w_fs (dm_world s))\<lparr>fs_faults := gs\<rparr>\<rparr>))"
| Docker: "daemon_step cfg s (set_world s ((dm_world s)\<lparr>w_docker := d\<rparr>))"

definition initial_daemon :: "instant \<Rightarrow> 'd \<Rightarrow> 'd daemon" where
  "initial_daemon t d = \<lparr>dm_world = \<lparr>w_db = empty_db t, w_fs = \<lparr>fs_files = Map.empty, fs_faults = []\<rparr>,
     w_docker = d, w_states = Map.empty, w_trace = [], w_last_tick = None\<rparr>, dm_pending = 0, dm_systemctl = []\<rparr>"

end
