(* ===== verification/ServerInv.thy ===== *)
theory ServerInv
  imports Server ReconcilerInv
begin

text \<open>
  What holds of every request and of every run of the daemon: relations on its state that all
  primitive actions respect, the identifiers the API lets into the registry, and the consistency
  of the registry in every reachable state.
\<close>

section \<open>Reads and writes\<close>

definition read_only :: "(db \<Rightarrow> 'r \<times> db) \<Rightarrow> bool" where
  "read_only f \<longleftrightarrow> (\<forall>db r db'. f db = (r, db') \<longrightarrow> (\<exists>fs. db' = db\<lparr>db_faults := fs\<rparr>))"

lemma read_onlyI: "(\<And>db r db'. f db = (r, db') \<Longrightarrow> \<exists>fs. db' = db\<lparr>db_faults := fs\<rparr>) \<Longrightarrow> read_only f"
  by (simp add: read_only_def)

lemma read_onlyD: "read_only f \<Longrightarrow> f db = (r, db') \<Longrightarrow> \<exists>fs. db' = db\<lparr>db_faults := fs\<rparr>"
  by (auto simp: read_only_def)

lemma lookup_token_state: "lookup_token sha raw db = (r, db') \<Longrightarrow> \<exists>fs. db' = db\<lparr>db_faults := fs\<rparr>"
  by (auto simp: lookup_token_def split: prod.splits sum.splits if_splits dest: query_row_state)

lemma faults_chain: "\<exists>fs. db1 = db\<lparr>db_faults := fs\<rparr> \<Longrightarrow> \<exists>fs. db2 = db1\<lparr>db_faults := fs\<rparr> \<Longrightarrow> \<exists>fs. db2 = db\<lparr>db_faults := fs\<rparr>"
  by auto

lemma admission_check_state: "admission_check m t r db = (e, db') \<Longrightarrow> \<exists>fs. db' = db\<lparr>db_faults := fs\<rparr>"
  by (auto simp: admission_check_def split: prod.splits option.splits dest!: get_state)

lemma capacity_plan_state: "capacity_plan ts db = (r, db') \<Longrightarrow> \<exists>fs. db' = db\<lparr>db_faults := fs\<rparr>"
proof (induction ts arbitrary: db r db')
  case Nil
  then show ?case by (auto intro: exI[of _ "db_faults db"])
next
  case (Cons t ts)
  obtain q db1 where q: "list_sites_by_tenant (t_id t) db = (q, db1)" by fastforce
  obtain p db2 where p: "capacity_plan ts db1 = (p, db2)" by fastforce
  have "db' = db1 \<or> db' = db2"
    using Cons.prems q p by (auto split: prod.splits option.splits sum.splits)
  then show ?case using get_state(11)[OF q] Cons.IH[OF p] by auto
qed

lemma handle_capacity_state: "handle_capacity m db = (r, db') \<Longrightarrow> \<exists>fs. db' = db\<lparr>db_faults := fs\<rparr>"
proof -
  assume h: "handle_capacity m db = (r, db')"
  obtain q db1 where q: "list_tenants db = (q, db1)" by fastforce
  obtain p db2 where p: "capacity_plan (snd q) db1 = (p, db2)" by fastforce
  have "db' = db1 \<or> db' = db2"
    using h q p by (auto simp: handle_capacity_def split: prod.splits option.splits sum.splits)
  then show ?thesis using get_state(12)[OF q] capacity_plan_state[OF p] by auto
qed

lemma reads [intro!]:
  "read_only (get_tenant k)" "read_only (get_site k)" "read_only (get_ca_cert k)"
  "read_only (list_sites_by_tenant k)" "read_only list_tenants" "read_only (list_tenants_filtered p)"
  "read_only (lookup_token sha raw)" "read_only (admission_check m t r)" "read_only (handle_capacity m)"
  by (auto intro!: read_onlyI dest: get_state lookup_token_state admission_check_state handle_capacity_state)

text \<open>What the API writes: the rows it has validated, and everything else unconditionally.\<close>

definition tenant_ok :: "tenant_row \<Rightarrow> bool" where
  "tenant_ok t \<longleftrightarrow> rx_match tenant_id_pattern (t_id t) \<and> project_id_ok (t_project_id t)"

definition site_ok :: "site_row \<Rightarrow> bool" where
  "site_ok r \<longleftrightarrow> rx_match site_id_pattern (s_id r) \<and>
     (\<exists>p. site_profile (s_broker_kind r) (s_throughput r) (s_direction r) = Inr p)"

definition api_write :: "(db \<Rightarrow> (store_error + unit) \<times> db) \<Rightarrow> bool" where
  "api_write f \<longleftrightarrow>
     (\<exists>t. tenant_ok t \<and> f = create_tenant t) \<or> (\<exists>r. site_ok r \<and> f = create_site r) \<or>
     (\<exists>i p. project_id_ok p \<and> f = update_tenant_project_id i p) \<or>
     (\<exists>i c d. d \<in> {'''', ''uni'', ''bi''} \<and> f = update_site i c d) \<or>
     (\<exists>i v. f = update_tenant_retention i v) \<or> (\<exists>i v. f = update_tenant_status i v) \<or>
     (\<exists>i b. f = delete_tenant i b) \<or> (\<exists>i b. f = delete_site i b) \<or>
     (\<exists>d. f = upsert_desired_state d) \<or> (\<exists>a. f = store_ca_cert a) \<or>
     (\<exists>u c. f = store_cert u c) \<or> (\<exists>fp. f = revoke_cert fp)"

lemma api_writes [intro]:
  "tenant_ok t \<Longrightarrow> api_write (create_tenant t)" "site_ok r \<Longrightarrow> api_write (create_site r)"
  "project_id_ok p \<Longrightarrow> api_write (update_tenant_project_id i p)"
  "d \<in> {'''', ''uni'', ''bi''} \<Longrightarrow> api_write (update_site i c d)"
  "api_write (update_tenant_retention i v)" "api_write (update_tenant_status i v)"
  "api_write (delete_tenant i b)" "api_write (delete_site i b)"
  "api_write (upsert_desired_state ds)" "api_write (store_ca_cert a)"
  "api_write (store_cert u ce)" "api_write (revoke_cert fp)"
  unfolding api_write_def by blast+

lemma proposed_in_plan:
  "\<exists>tp \<in> set (admission_plan ts rs tid (Some r)). site_plan_of ''proposed'' r \<in> set (tp_sites tp)"
proof -
  have p: "tid \<in> tp_tenant_id ` set tps \<Longrightarrow> \<exists>tp \<in> set (add_proposed tid r tps). site_plan_of ''proposed'' r \<in> set (tp_sites tp)" for tps
    by (induction tps) auto
  show ?thesis
    using p[of "map (\<lambda>t. \<lparr>tp_tenant_id = t_id t, tp_sites = []\<rparr>) ts"]
    by (cases "tid \<in> t_id ` set ts") (auto simp: admission_plan_def fold_plan_tenant_plan image_image)
qed

text \<open>The admission check refuses a combination that the profile table does not know.\<close>

lemma admitted_profile:
  assumes "admission_check m tid (Some r) db = (None, db')"
  shows "\<exists>p. site_profile (s_broker_kind r) (s_throughput r) (s_direction r) = Inr p"
proof -
  obtain ts rs where "admission_verdict m (admission_plan ts rs tid (Some r)) = None"
    using assms by (auto simp: admission_check_def split: prod.splits option.splits)
  then obtain mem p where "predict (admission_plan ts rs tid (Some r)) mem = Inr p"
    by (auto simp: admission_verdict_def split: sum.splits)
  then have "plan_known (admission_plan ts rs tid (Some r))"
    using predict_error_iff[of "admission_plan ts rs tid (Some r)" mem] by auto
  then have "site_plan_mb (site_plan_of ''proposed'' r) \<noteq> None"
    using proposed_in_plan[of ts rs tid r] unfolding plan_known_def by blast
  then show ?thesis
    by (auto simp: site_plan_mb_def site_plan_of_def site_profile_def)
qed

lemma on_store_admitted:
  "run_state (on_store (admission_check m tid (Some r))) s = (None, s') \<Longrightarrow>
     \<exists>p. site_profile (s_broker_kind r) (s_throughput r) (s_direction r) = Inr p"
  by (auto simp: on_store_def on_db_def split: prod.splits dest: admitted_profile)

text \<open>The writes that touch neither tenants nor sites.\<close>

definition row_write :: "(db \<Rightarrow> (store_error + unit) \<times> db) \<Rightarrow> bool" where
  "row_write f \<longleftrightarrow> (\<exists>d. f = upsert_desired_state d) \<or> (\<exists>a. f = store_ca_cert a) \<or>
     (\<exists>u c. f = store_cert u c) \<or> (\<exists>fp. f = revoke_cert fp)"

lemma row_writes [intro]:
  "row_write (upsert_desired_state ds)" "row_write (store_ca_cert a)" "row_write (store_cert u ce)" "row_write (revoke_cert fp)"
  unfolding row_write_def by blast+

lemma row_write_api: "row_write f \<Longrightarrow> api_write f"
  unfolding row_write_def api_write_def by blast

section \<open>Relations every request respects\<close>

text \<open>
  \<open>daemon_frame\<close> asks for the primitive actions that touch neither tenants nor sites, which is
  all that many requests consist of; \<open>request_rel\<close> adds the writes of tenants and sites, with
  which every request respects the relation, and \<open>daemon_rel\<close> the ticks of the reconciler.
\<close>

locale daemon_frame =
  fixes cfg :: "'d server_cfg" and R :: "'d daemon \<Rightarrow> 'd daemon \<Rightarrow> bool"
  assumes R_refl: "R s s"
    and R_trans: "R s s1 \<Longrightarrow> R s1 s2 \<Longrightarrow> R s s2"
    and R_read: "R s (set_world s ((dm_world s)\<lparr>w_db := (w_db (dm_world s))\<lparr>db_faults := fs\<rparr>\<rparr>))"
    and R_row_write: "row_write f \<Longrightarrow> state_io_rel R (on_store f)"
    and R_emit: "state_io_rel R (emit_event ev)"
    and R_tsdb: "state_io_rel R (render_tsdb cfg tid)"
    and R_site: "state_io_rel R (render_site_files cfg sid)"
    and R_restart: "state_io_rel R (compose_restart cfg project path)"
    and R_files: "R s (set_world s ((dm_world s)\<lparr>w_fs := f'\<rparr>))"
    and R_pending: "R s (s\<lparr>dm_pending := n\<rparr>)"
    and R_systemctl: "R s (s\<lparr>dm_systemctl := cs\<rparr>)"
    and R_time: "db_now (w_db (dm_world s)) \<le> t \<Longrightarrow>
      R s (set_world s ((dm_world s)\<lparr>w_db := (w_db (dm_world s))\<lparr>db_now := t\<rparr>\<rparr>))"
    and R_docker: "R s (set_world s ((dm_world s)\<lparr>w_docker := d\<rparr>))"
begin

lemma resp_return [intro!]: "state_io_rel R (return x)"
  by (simp add: state_io_rel_def R_refl)

lemma resp_bind [intro]:
  assumes "state_io_rel R m" "\<And>x s s'. run_state m s = (x, s') \<Longrightarrow> state_io_rel R (f x)"
  shows "state_io_rel R (State_Monad.bind m f)"
proof (rule state_io_relI)
  fix a s s'
  assume r: "run_state (State_Monad.bind m f) s = (a, s')"
  obtain x t where t: "run_state m s = (x, t)" by fastforce
  then have "run_state (f x) t = (a, s')" using r by simp
  then show "R s s'" using assms(1) assms(2)[OF t] t R_trans unfolding state_io_rel_def by (metis snd_conv)
qed

lemma resp_read [intro]:
  assumes "read_only f"
  shows "state_io_rel R (on_store f)"
proof (rule state_io_relI)
  fix a and s s' :: "'d daemon"
  assume "run_state (on_store f) s = (a, s')"
  then obtain db' where d: "f (w_db (dm_world s)) = (a, db')" "s' = set_world s ((dm_world s)\<lparr>w_db := db'\<rparr>)"
    by (auto simp: on_store_def on_db_def set_world_def split: prod.splits)
  then show "R s s'" using read_onlyD[OF assms d(1)] R_read by auto
qed

lemma resp_files [intro]: "state_io_rel R (on_files f)"
  using R_files by (auto simp: on_files_def state_io_rel_def set_world_def split: prod.splits)

lemma resp_now [intro]: "state_io_rel R now"
  by (simp add: now_def state_io_rel_def R_refl)

lemma resp_look [intro]: "state_io_rel R (State (\<lambda>s. (g s, s)))"
  by (simp add: state_io_rel_def R_refl)

lemma resp_trigger [intro]: "state_io_rel R (trigger_recon cfg)"
  using R_pending R_refl by (simp add: trigger_recon_def state_io_rel_def)

lemma resp_cases:
  "(\<And>e. x = Inl e \<Longrightarrow> state_io_rel R (f e)) \<Longrightarrow> (\<And>y. x = Inr y \<Longrightarrow> state_io_rel R (g y)) \<Longrightarrow>
     state_io_rel R (case x of Inl e \<Rightarrow> f e | Inr y \<Rightarrow> g y)"
  "(o' = None \<Longrightarrow> state_io_rel R h) \<Longrightarrow> (\<And>y. o' = Some y \<Longrightarrow> state_io_rel R (k y)) \<Longrightarrow>
     state_io_rel R (case o' of None \<Rightarrow> h | Some y \<Rightarrow> k y)"
  "(\<And>a b. p = (a, b) \<Longrightarrow> state_io_rel R (l a b)) \<Longrightarrow> state_io_rel R (case p of (a, b) \<Rightarrow> l a b)"
  "(c \<Longrightarrow> state_io_rel R m) \<Longrightarrow> (\<not> c \<Longrightarrow> state_io_rel R n) \<Longrightarrow> state_io_rel R (if c then m else n)"
  by (auto split: sum.splits option.splits prod.splits)

lemmas resp = resp_bind resp_cases R_emit R_tsdb R_site R_restart resp_read reads resp_files resp_now resp_look
  resp_trigger resp_return

lemma resp_reject [intro]: "(e = None \<Longrightarrow> state_io_rel R k) \<Longrightarrow> state_io_rel R (reject e k)"
  by (auto simp: reject_def split: option.splits)

lemma resp_found [intro]: "(\<And>x. r = Inr x \<Longrightarrow> state_io_rel R (k x)) \<Longrightarrow> state_io_rel R (found nf r k)"
  by (auto simp: found_def split: sum.splits)

lemma resp_decoded [intro]: "(\<And>x. b = Inr x \<Longrightarrow> state_io_rel R (k x)) \<Longrightarrow> state_io_rel R (decoded b k)"
  by (auto simp: decoded_def split: sum.splits)

lemma resp_rendered [intro]: "state_io_rel R (trigger_if_rendered cfg r)"
  by (auto simp: trigger_if_rendered_def split: sum.splits)

lemma resp_project [intro]: "state_io_rel R (tenant_project_id tid)"
  by (auto simp: tenant_project_id_def)

lemma resp_timer [intro]: "state_io_rel R (install_backup_timer cfg tid)"
proof -
  have "state_io_rel R (State (\<lambda>s. ((), s\<lparr>dm_systemctl := dm_systemctl s @ c\<rparr>)))" for c
    by (simp add: state_io_rel_def R_systemctl)
  then show ?thesis by (auto simp: install_backup_timer_def Let_def split: sum.splits)
qed

lemma resp_desired [intro]: "state_io_rel R (set_desired p t i st)"
  by (auto simp: set_desired_def intro: R_row_write)

lemma resp_desired_sites [intro]: "state_io_rel R (set_desired_sites t st rs)"
  by (induction rs) auto

lemma resp_desired_tenant [intro]: "state_io_rel R (set_desired_tenant t st)"
  unfolding set_desired_tenant_def by (intro resp resp_desired resp_desired_sites)

lemma resp_status [intro]: "state_io_rel R (status_rows ts)"
  by (induction ts) auto

lemma resp_ca [intro]: "state_io_rel R (generate_site_ca cfg t i)"
  unfolding generate_site_ca_def by (intro resp R_row_write row_writes)

lemma resp_publish [intro]: "state_io_rel R (mqtt_publish cfg sni dir topic payload qos)"
  unfolding mqtt_publish_def by (intro resp)

lemma poll_loop_time: "poll_loop ls gap c dl p t = (r, t') \<Longrightarrow> t \<le> t'"
proof (induction ls gap c dl p t arbitrary: r t' rule: poll_loop.induct)
  case (1 ls gap c dl p t)
  show ?case
    using "1.prems" "1.IH" by (subst (asm) poll_loop.simps) (force simp: Let_def split: option.splits if_splits)
qed

lemma resp_poll [intro]: "state_io_rel R (poll_convergence cfg p c dl)"
proof (cases "sc_poll cfg")
  case (Some ls)
  have "R s (s\<lparr>dm_world := (dm_world s)\<lparr>w_db := (w_db (dm_world s))\<lparr>db_now := t\<rparr>\<rparr>\<rparr>)"
    if "poll_loop ls (sc_poll_gap cfg) c dl p (db_now (w_db (dm_world s))) = (r, t)" for s r t
    using R_time[OF poll_loop_time[OF that]] by (simp add: set_world_def)
  then show ?thesis using Some by (auto simp: poll_convergence_def state_io_rel_def Let_def split: prod.splits)
qed (auto simp: poll_convergence_def)

section \<open>Handlers\<close>

lemmas resp_parts = resp_reject resp_found resp_decoded resp_rendered resp_project resp_timer resp_desired resp_desired_tenant
  resp_status resp_ca resp_publish resp_poll resp

lemma resp_reads:
  "state_io_rel R (handle_health cfg)" "state_io_rel R (handle_list_tenants sel)" "state_io_rel R (handle_get_tenant tid)"
  "state_io_rel R (handle_list_sites tid)" "state_io_rel R (handle_get_site sid)" "state_io_rel R handle_status"
  "state_io_rel R (handle_logs cfg tid sid service tail)" "state_io_rel R (on_store (handle_capacity m))"
  unfolding handle_health_def handle_list_tenants_def handle_get_tenant_def handle_list_sites_def handle_get_site_def
    handle_status_def handle_logs_def
  by (intro resp_parts)+

lemma resp_publish_site: "state_io_rel R (handle_publish cfg tid sid body)"
  unfolding handle_publish_def Let_def by (intro resp_parts)

lemma resp_apply: "state_io_rel R (handle_apply cfg selector wait gone)"
  unfolding handle_apply_def Let_def by (intro resp_parts)

lemma resp_issue_cert: "state_io_rel R (handle_issue_cert cfg tid sid body)"
  unfolding handle_issue_cert_def Let_def by (intro resp_parts R_row_write row_writes)

lemma resp_revoke_cert: "state_io_rel R (handle_revoke_cert cfg tid sid fp)"
  unfolding handle_revoke_cert_def by (intro resp_parts R_row_write row_writes)

lemma resp_site_lifecycle:
  "state_io_rel R (handle_start_site cfg tid sid)" "state_io_rel R (handle_stop_site cfg tid sid)"
  "state_io_rel R (handle_stop_tenant cfg tid)"
  unfolding handle_start_site_def handle_stop_site_def site_lifecycle_def handle_stop_tenant_def
  by (intro resp_parts R_row_write row_writes)+

end

locale request_rel = daemon_frame cfg R for cfg :: "'d server_cfg" and R :: "'d daemon \<Rightarrow> 'd daemon \<Rightarrow> bool" +
  assumes R_write: "api_write f \<Longrightarrow> state_io_rel R (on_store f)"
begin

lemma resp_create_tenant: "state_io_rel R (handle_create_tenant cfg body)"
  unfolding handle_create_tenant_def Let_def
  by (intro resp_parts R_write api_writes(1))
    (auto simp: tenant_ok_def validate_slug_http_iff validate_project_id_iff tenant_id_pattern_iff tenant_id_from_slug_def
       project_id_ok_def split: if_splits)

lemma resp_update_tenant: "state_io_rel R (handle_update_tenant cfg tid body)"
  unfolding handle_update_tenant_def update_retention_part_def update_project_part_def
  by (intro resp_parts R_write api_writes) (auto simp: validate_project_id_iff project_id_ok_def split: if_splits)

lemma resp_delete_tenant: "state_io_rel R (handle_delete_tenant cfg tid purge)"
  unfolding handle_delete_tenant_def delete_tenant_mark_def delete_tenant_finish_def
  by (intro resp_parts R_write api_writes)

lemma resp_create_site: "state_io_rel R (handle_create_site cfg tid body)"
  unfolding handle_create_site_def Let_def
  by (intro resp_parts R_write api_writes(2))
    (auto simp: site_ok_def validate_slug_http_iff site_id_pattern_iff site_id_from_slug_def site_draft_def site_defaults_def
      dest!: on_store_admitted)

lemma resp_update_site: "state_io_rel R (handle_update_site cfg tid sid body)"
  unfolding handle_update_site_def
  by (intro resp_parts R_write api_writes) (auto split: if_splits)

lemma resp_delete_site: "state_io_rel R (handle_delete_site cfg tid sid purge)"
  unfolding handle_delete_site_def by (intro resp_parts R_write api_writes)

lemma resp_start_tenant: "state_io_rel R (handle_start_tenant cfg tid)"
  unfolding handle_start_tenant_def by (intro resp_parts R_write api_writes)

text \<open>Every request, on either transport, and every step of the daemon.\<close>

lemma resp_handle: "state_io_rel R (handle cfg req)"
  by (cases req)
    (simp_all add: resp_create_tenant resp_update_tenant resp_delete_tenant resp_create_site resp_update_site
      resp_delete_site resp_start_tenant resp_site_lifecycle resp_reads resp_publish_site resp_apply resp_issue_cert resp_revoke_cert)

lemma resp_tcp: "state_io_rel R (tcp_handler cfg hdr req)"
  unfolding tcp_handler_def token_auth_def by (intro resp_parts resp_handle)

end

locale daemon_rel = request_rel cfg R for cfg :: "'d server_cfg" and R :: "'d daemon \<Rightarrow> 'd daemon \<Rightarrow> bool" +
  assumes R_tick: "R s (set_world s (tick (sc_env cfg) (dm_world s)))"
begin

lemma R_step: "daemon_step cfg s s' \<Longrightarrow> R s s'"
proof (induction rule: daemon_step.induct)
  case (Unix s req)
  then show ?case using resp_handle by (simp add: state_io_rel_def)
next
  case (Tcp s hdr req)
  then show ?case using resp_tcp by (simp add: state_io_rel_def)
next
  case (Trigger s)
  have "R (set_world s (tick (sc_env cfg) (dm_world s)))
    ((set_world s (tick (sc_env cfg) (dm_world s)))\<lparr>dm_pending := dm_pending s - 1\<rparr>)" by (rule R_pending)
  then show ?case using R_tick[of s] R_trans by (auto simp: set_world_def trigger_def)
next
  case (Fails s gs fs)
  let ?s1 = "set_world s ((dm_world s)\<lparr>w_db := (w_db (dm_world s))\<lparr>db_faults := fs\<rparr>\<rparr>)"
  have "R ?s1 (set_world ?s1 ((dm_world ?s1)\<lparr>w_fs := (w_fs (dm_world s))\<lparr>fs_faults := gs\<rparr>\<rparr>))" by (rule R_files)
  then show ?case using R_read[of s fs] R_trans by (fastforce simp: set_world_def)
qed (auto intro: R_tick R_time R_docker)

lemma R_steps: "(daemon_step cfg)\<^sup>*\<^sup>* s s' \<Longrightarrow> R s s'"
  by (induction rule: rtranclp_induct) (auto intro: R_refl R_trans R_step)

end

lemma daemon_on_store:
  "run_state (on_store f) s = (r, s') \<Longrightarrow> \<exists>db'. f (w_db (dm_world s)) = (r, db') \<and> s' = set_world s ((dm_world s)\<lparr>w_db := db'\<rparr>)"
  by (auto simp: on_store_def on_db_def set_world_def split: prod.splits)

lemma set_world_fields [simp]:
  "dm_world (set_world s w) = w" "dm_pending (set_world s w) = dm_pending s"
  by (simp_all add: set_world_def)

section \<open>Predicates that provisioning and the reconciler keep\<close>

text \<open>
  A predicate on databases that the statements of provisioning, of the reconciler and of the audit
  log do not disturb holds after every rendering; if time does not disturb it either, also after
  every tick.
\<close>

locale written_predicate = db_predicate P for P :: "db \<Rightarrow> bool" +
  assumes keeps_tsdb: "keeps (upsert_tsdb_stmt c)"
    and keeps_emqx: "keeps (upsert_emqx_stmt ek)"
    and keeps_desired: "keeps (upsert_desired_stmt d)"
    and keeps_hash: "keeps (upsert_hash_stmt hk hv)"
    and keeps_event: "keeps (insert_event ev)"
begin

lemma P_reads:
  "P db \<Longrightarrow> get_tenant k db = (rt, db') \<Longrightarrow> P db'"
  "P db \<Longrightarrow> get_site k db = (rs, db') \<Longrightarrow> P db'"
  "P db \<Longrightarrow> get_tsdb_creds k db = (rc, db') \<Longrightarrow> P db'"
  "P db \<Longrightarrow> get_emqx_key k db = (re, db') \<Longrightarrow> P db'"
  by (auto simp: P_faults dest!: get_state)

lemma P_writes:
  "P db \<Longrightarrow> upsert_tsdb_creds c db = (r, db') \<Longrightarrow> P db'"
  "P db \<Longrightarrow> upsert_emqx_key ek db = (r, db') \<Longrightarrow> P db'"
  "P db \<Longrightarrow> upsert_desired_state d db = (r, db') \<Longrightarrow> P db'"
  "P db \<Longrightarrow> upsert_combined_hash p h db = (r, db') \<Longrightarrow> P db'"
  using raw_exec_P[OF keeps_tsdb] raw_exec_P[OF keeps_emqx] raw_exec_P[OF keeps_desired] raw_exec_P[OF keeps_hash]
  unfolding upsert_tsdb_creds_def upsert_emqx_key_def upsert_desired_state_def upsert_combined_hash_def upsert_file_hash_def
  by (metis snd_conv)+

lemma P_emit: "P db \<Longrightarrow> emit ev db = (r, db') \<Longrightarrow> P db'"
  using sql_exec_P[OF keeps_event, of db ev] by (auto simp: emit_def split: prod.splits sum.splits)

lemma P_creds: "P db \<Longrightarrow> ensure_tsdb_creds rnd tenant db = (r, db') \<Longrightarrow> P db'"
  by (auto simp: ensure_tsdb_creds_def Let_def split: prod.splits sum.splits; (assumption | drule (1) P_reads P_writes)+)

lemma P_emqx_key: "P db \<Longrightarrow> ensure_emqx_key rnd site db = (r, db') \<Longrightarrow> P db'"
  by (auto simp: ensure_emqx_key_def Let_def split: prod.splits sum.splits; (assumption | drule (1) P_reads P_writes)+)

lemmas P_runs = P_reads P_writes P_creds P_emqx_key

lemma P_tenant_ctx: "P db \<Longrightarrow> build_tenant_render_ctx rnd tenant db = (r, db') \<Longrightarrow> P db'"
  by (auto simp: build_tenant_render_ctx_def split: prod.splits sum.splits; (assumption | drule (1) P_runs)+)

lemma P_site_ctx: "P db \<Longrightarrow> build_site_render_ctx rnd site dir db = (r, db') \<Longrightarrow> P db'"
  by (auto simp: build_site_render_ctx_def Let_def split: prod.splits sum.splits if_splits; (assumption | drule (1) P_runs)+)

lemma P_render_tsdb: "P db \<Longrightarrow> render_and_write_tsdb exec sha rnd tenant dir db s = (r, db', s') \<Longrightarrow> P db'"
  by (auto simp: render_and_write_tsdb_def Let_def split: prod.splits sum.splits; (assumption | drule (1) P_runs P_tenant_ctx)+)

lemma P_render_site: "P db \<Longrightarrow> render_and_write_site exec sha rnd site dir db s = (r, db', s') \<Longrightarrow> P db'"
  by (auto simp: render_and_write_site_def Let_def split: prod.splits sum.splits; (assumption | drule (1) P_runs P_site_ctx)+)

lemma P_audit: "P (w_db w) \<Longrightarrow> P (w_db (audit ev w))"
  using P_emit[of "w_db w" ev] by (cases "emit ev (w_db w)") (simp add: audit_def on_db_def)

end

locale provision_predicate = written_predicate P for P :: "db \<Rightarrow> bool" +
  assumes P_now: "P (db\<lparr>db_now := t\<rparr>) = P db"
begin

lemma P_compose: "P (w_db w) \<Longrightarrow> run_compose env p f args w = (r, w') \<Longrightarrow> P (w_db w')"
  by (auto simp: run_compose_def Let_def P_now split: prod.splits)

lemma P_tick_rel: "tick_rel (\<lambda>v w :: 'd world. P (w_db v) \<longrightarrow> P (w_db w))"
  by unfold_locales (auto simp: on_db_def P_faults split: prod.splits dest: P_writes P_compose intro: P_audit)

lemma P_tick: "P (w_db w) \<Longrightarrow> P (w_db (tick env w))"
  using tick_rel.R_tick[OF P_tick_rel, of w env] by blast

text \<open>With its writes it is a relation that requests, and every step of the daemon, respect.\<close>

lemma P_daemon_frame:
  fixes cfg :: "'d server_cfg"
  assumes "\<And>f db r db'. row_write f \<Longrightarrow> f db = (r, db') \<Longrightarrow> P db \<Longrightarrow> P db'"
  shows "daemon_frame cfg (\<lambda>s s'. P (w_db (dm_world s)) \<longrightarrow> P (w_db (dm_world s')))"
proof (unfold_locales, goal_cases)
  case (4 f)
  then show ?case by (auto simp: state_io_rel_def on_store_def on_db_def dest: assms split: prod.splits)
next
  case (5 ev)
  then show ?case by (simp add: state_io_rel_def emit_event_def P_audit)
next
  case (6 tid)
  then show ?case by (auto simp: state_io_rel_def render_tsdb_def Let_def dest: P_render_tsdb split: prod.splits)
next
  case (7 sid)
  then show ?case by (auto simp: state_io_rel_def render_site_files_def Let_def dest: P_render_site split: prod.splits)
next
  case (8 project path)
  then show ?case by (auto simp: state_io_rel_def compose_restart_def dest: P_compose split: prod.splits)
qed (simp_all add: P_faults P_now)

lemma P_daemon_rel:
  fixes cfg :: "'d server_cfg"
  assumes "\<And>f db r db'. api_write f \<Longrightarrow> f db = (r, db') \<Longrightarrow> P db \<Longrightarrow> P db'"
  shows "daemon_rel cfg (\<lambda>s s'. P (w_db (dm_world s)) \<longrightarrow> P (w_db (dm_world s')))"
proof -
  have "daemon_frame cfg (\<lambda>s s'. P (w_db (dm_world s)) \<longrightarrow> P (w_db (dm_world s')))"
    by (rule P_daemon_frame) (rule assms, rule row_write_api)
  then have "request_rel cfg (\<lambda>s s'. P (w_db (dm_world s)) \<longrightarrow> P (w_db (dm_world s')))"
    by (rule request_rel.intro)
      (auto intro!: request_rel_axioms.intro simp: state_io_rel_def on_store_def on_db_def dest: assms split: prod.splits)
  then show ?thesis
    by (rule daemon_rel.intro) (auto intro!: daemon_rel_axioms.intro simp: P_tick)
qed

end

section \<open>The registry is consistent\<close>

lemma api_write_inv: "api_write f \<Longrightarrow> f db = (r, db') \<Longrightarrow> db_inv db \<Longrightarrow> db_inv db'"
  unfolding api_write_def by (elim disjE exE conjE; simp; erule (1) write_runs[rotated])

interpretation inv_prov: provision_predicate db_inv
  by unfold_locales (auto intro: inv_intros)

interpretation registry: daemon_rel cfg "\<lambda>s s' :: 'd daemon. db_inv (w_db (dm_world s)) \<longrightarrow> db_inv (w_db (dm_world s'))"
  for cfg :: "'d server_cfg"
  by (rule inv_prov.P_daemon_rel) (rule api_write_inv)

section \<open>What the API lets into the registry\<close>

text \<open>
  Identifiers and project tags have the documented form, and every site has a capacity profile:
  a database has this property independently of its pending failures.
\<close>

definition api_ok :: "db \<Rightarrow> bool" where
  "api_ok db \<longleftrightarrow> (\<forall>x \<in> set (db_tenants db). tenant_ok (read_tenant x)) \<and> (\<forall>r \<in> set (db_sites db). site_ok r)"

interpretation api: db_predicate api_ok
  by unfold_locales (simp add: api_ok_def)

lemma same_tables_keep_api:
  "(\<And>db n db'. st db = Inr (n, db') \<Longrightarrow> db_tenants db' = db_tenants db \<and> db_sites db' = db_sites db) \<Longrightarrow> api.keeps st"
  unfolding api.keeps_def api_ok_def by metis

lemma api_keeps_others:
  "api.keeps (delete_desired_stmt sd)" "api.keeps (upsert_desired_stmt d)" "api.keeps (upsert_hash_stmt hk hv)"
  "api.keeps (insert_event ev)" "api.keeps (upsert_tsdb_stmt c)" "api.keeps (upsert_emqx_stmt ek)"
  "api.keeps (store_ca_stmt a)" "api.keeps (insert_cert ce)" "api.keeps (revoke_cert_stmt fp)"
  by (rule same_tables_keep_api, force simp: stmts Let_def split: if_splits)+

lemma api_keeps_insert_tenant: "tenant_ok t \<Longrightarrow> api.keeps (insert_tenant t)"
  by (auto simp: api.keeps_def api_ok_def insert_tenant_def tenant_ok_def read_tenant_def nullable_str_def coalesce_def
      split: if_splits)

lemma api_keeps_update_tenant:
  "(\<And>x. tenant_ok (read_tenant x) \<Longrightarrow> tenant_ok (read_tenant (f x))) \<Longrightarrow> api.keeps (update_tenant_stmt tid f)"
  by (auto simp: api.keeps_def api_ok_def update_tenant_stmt_def update_rows_def Let_def tenant_ok_def read_tenant_def)

lemma api_keeps_insert_site: "site_ok r \<Longrightarrow> api.keeps (insert_site r)"
  by (auto simp: api.keeps_def api_ok_def insert_site_def site_ok_def split: if_splits)

lemma api_keeps_update_site:
  "(\<And>r. site_ok r \<Longrightarrow> site_ok (f r)) \<Longrightarrow> api.keeps (update_site_stmt sid f)"
  by (auto simp: api.keeps_def api_ok_def update_site_stmt_def update_rows_def site_ok_def)

lemma api_keeps_delete:
  "api.keeps (delete_sites_stmt sel)" "api.keeps (delete_tenant_stmt tid)"
  by (auto simp: api.keeps_def api_ok_def delete_sites_stmt_def delete_tenant_stmt_def Let_def split: if_splits)

lemma profile_directions:
  assumes "site_profile b t d = Inr p" "d' = ''uni'' \<or> d' = ''bi''"
  shows "\<exists>p'. site_profile b t d' = Inr p'"
  using assms by (auto simp: site_profile_def profiles_def mk_key_def split: if_splits)

lemmas api_keeps = api_keeps_others api_keeps_insert_tenant api_keeps_insert_site api_keeps_delete

lemma api_write_api:
  assumes "api_write f" "f db = (r, db')" "api_ok db"
  shows "api_ok db'"
proof -
  have "api_ok (snd (f db))"
    using assms(1,3) unfolding api_write_def
  proof (elim disjE exE conjE)
    fix i p assume "project_id_ok p" "f = update_tenant_project_id i p" "api_ok db"
    then show ?thesis unfolding update_tenant_project_id_def
      by (auto intro!: api.calls_P api_keeps_update_tenant simp: tenant_ok_def read_tenant_def nullable_str_def coalesce_def)
  next
    fix i c d assume "d \<in> {'''', ''uni'', ''bi''}" "f = update_site i c d" "api_ok db"
    then show ?thesis unfolding update_site_def
      by (auto intro!: api.calls_P api_keeps_update_site simp: site_ok_def Let_def dest: profile_directions)
  qed (auto simp: create_tenant_def create_site_def update_tenant_retention_def update_tenant_status_def delete_tenant_def
      delete_site_def upsert_desired_state_def store_ca_cert_def store_cert_def revoke_cert_def tenant_ok_def site_ok_def
      read_tenant_def intro!: api.calls_P api_keeps api_keeps_update_tenant api_keeps_update_site)
  then show ?thesis using assms(2) by simp
qed

interpretation api_prov: provision_predicate api_ok
  by unfold_locales (simp_all add: api_ok_def[of "_\<lparr>db_now := _\<rparr>"] api_ok_def[symmetric] api_keeps_others)

interpretation documented: daemon_rel cfg "\<lambda>s s' :: 'd daemon. api_ok (w_db (dm_world s)) \<longrightarrow> api_ok (w_db (dm_world s'))"
  for cfg :: "'d server_cfg"
  by (rule api_prov.P_daemon_rel) (rule api_write_api)

section \<open>Reachable states\<close>

definition daemon_reachable :: "'d server_cfg \<Rightarrow> 'd daemon \<Rightarrow> bool" where
  "daemon_reachable cfg s \<longleftrightarrow> (\<exists>t d. (daemon_step cfg)\<^sup>*\<^sup>* (initial_daemon t d) s)"

text \<open>
  Whatever clients send on either transport, however the requests interleave with runs of the
  reconciler, and whatever fails: the registry keeps its consistency, every tenant and site in it
  has an identifier of the documented form, every project tag is a valid one, and every site has
  a broker, tier and direction that the capacity table knows.
\<close>

lemma daemon_keeps_registry_typed:
  assumes "daemon_reachable cfg s"
  shows "db_inv (w_db (dm_world s)) \<and>
    (\<forall>x \<in> set (db_tenants (w_db (dm_world s))). rx_match tenant_id_pattern (st_id x) \<and> project_id_ok (t_project_id (read_tenant x))) \<and>
    (\<forall>r \<in> set (db_sites (w_db (dm_world s))). rx_match site_id_pattern (s_id r) \<and>
       (\<exists>p. site_profile (s_broker_kind r) (s_throughput r) (s_direction r) = Inr p))"
proof -
  obtain t d where r: "(daemon_step cfg)\<^sup>*\<^sup>* (initial_daemon t d) s"
    using assms by (auto simp: daemon_reachable_def)
  have "db_inv (w_db (dm_world (initial_daemon t d)))" "api_ok (w_db (dm_world (initial_daemon t d)))"
    using empty_db_inv[of t] by (simp_all add: initial_daemon_def api_ok_def, simp add: empty_db_def)
  then have "db_inv (w_db (dm_world s))" "api_ok (w_db (dm_world s))"
    using registry.R_steps[OF r] documented.R_steps[OF r] by blast+
  then show ?thesis by (auto simp: api_ok_def tenant_ok_def site_ok_def read_tenant_def)
qed

end
