(* ===== verification/ServerProps.thy ===== *)
theory ServerProps
  imports ServerInv
begin

text \<open>
  What the requests of the API promise to the client and to the operator: creation is exact, a
  token that is not valid opens nothing, the lifecycle of a gateway certificate, and the places
  where a request does not do what its name says.
\<close>

section \<open>Creation\<close>

interpretation tables: provision_predicate "\<lambda>db. db_tenants db = ts \<and> db_sites db = rs" for ts rs
proof -
  have k: "db_predicate.keeps (\<lambda>db. db_tenants db = ts \<and> db_sites db = rs) st"
    if "\<And>db n db'. st db = Inr (n, db') \<Longrightarrow> db_tenants db' = db_tenants db \<and> db_sites db' = db_sites db" for st
  proof -
    have p: "db_predicate (\<lambda>db. db_tenants db = ts \<and> db_sites db = rs)" by unfold_locales simp
    show ?thesis unfolding db_predicate.keeps_def[OF p] using that by metis
  qed
  show "provision_predicate (\<lambda>db. db_tenants db = ts \<and> db_sites db = rs)"
    by unfold_locales (simp_all, (rule k, force simp: stmts Let_def split: if_splits)+)
qed

lemma row_write_tables:
  assumes "row_write f" "f db = (r, db')"
  shows "db_tenants db' = db_tenants db \<and> db_sites db' = db_sites db"
proof -
  have k: "tables.keeps ts rs st" if "\<And>db n db'. st db = Inr (n, db') \<Longrightarrow> db_tenants db' = db_tenants db \<and> db_sites db' = db_sites db" for st ts rs
    unfolding tables.keeps_def using that by metis
  have s: "tables.keeps ts rs (store_ca_stmt a)" "tables.keeps ts rs (insert_cert ce)" "tables.keeps ts rs (revoke_cert_stmt fp)" for ts rs a ce fp
    by (rule k, force simp: stmts Let_def split: if_splits)+
  have "db_tenants (snd (f db)) = db_tenants db \<and> db_sites (snd (f db)) = db_sites db"
    using assms(1) unfolding row_write_def
    by (elim disjE exE)
      (simp_all only: upsert_desired_state_def store_ca_cert_def store_cert_def revoke_cert_def,
       (rule tables.calls_P; simp add: s tables.keeps_desired)+)
  then show ?thesis using assms(2) by simp
qed

interpretation unseen: daemon_frame cfg "\<lambda>s s' :: 'd daemon.
    (db_tenants (w_db (dm_world s)) = ts \<and> db_sites (w_db (dm_world s)) = rs) \<longrightarrow>
    (db_tenants (w_db (dm_world s')) = ts \<and> db_sites (w_db (dm_world s')) = rs)"
  for cfg :: "'d server_cfg" and ts rs
  by (rule tables.P_daemon_frame) (use row_write_tables in blast)

abbreviation reg :: "'d daemon \<Rightarrow> db" where "reg s \<equiv> w_db (dm_world s)"

text \<open>What an action that keeps the tables leaves in place.\<close>

definition same_tables :: "'d daemon \<Rightarrow> 'd daemon \<Rightarrow> bool" where
  "same_tables s s' \<longleftrightarrow> db_tenants (reg s') = db_tenants (reg s) \<and> db_sites (reg s') = db_sites (reg s)"

lemma unseen_same:
  assumes "\<And>ts rs. state_io_rel (\<lambda>s s' :: 'd daemon. (db_tenants (reg s) = ts \<and> db_sites (reg s) = rs) \<longrightarrow>
    (db_tenants (reg s') = ts \<and> db_sites (reg s') = rs)) m" "run_state m s = (x, s')"
  shows "same_tables s s'"
  using assms(1)[of "db_tenants (reg s)" "db_sites (reg s)"] assms(2)
  unfolding state_io_rel_def same_tables_def by (metis snd_conv)

lemma read_same: "read_only f \<Longrightarrow> run_state (on_store f) s = (x, s') \<Longrightarrow> same_tables s s' \<and> db_now (reg s') = db_now (reg s)"
  by (drule daemon_on_store) (auto simp: same_tables_def dest!: read_onlyD)

lemma create_tenant_effect:
  assumes "create_tenant t db = (r, db')"
  shows "case r of
      Inr _ \<Rightarrow> t_id t \<notin> st_id ` set (db_tenants db) \<and> db_sites db' = db_sites db \<and>
        db_tenants db' = db_tenants db @ [(nullable_str (t_project_id t),
          t\<lparr>t_status := ''active'', t_project_id := '''', t_created_at := stamp db, t_updated_at := stamp db\<rparr>)]
    | Inl _ \<Rightarrow> db_tenants db' = db_tenants db \<and> db_sites db' = db_sites db"
  using assms
  by (auto simp: create_tenant_def insert_exec_def sql_exec_def sql_point_def insert_tenant_def has_key_iff stamp_def
      split: prod.splits sum.splits list.splits option.splits if_splits)

lemma create_site_effect:
  assumes "create_site r0 db = (r, db')"
  shows "case r of
      Inr _ \<Rightarrow> s_id r0 \<notin> s_id ` set (db_sites db) \<and> s_tenant_id r0 \<in> st_id ` set (db_tenants db) \<and> db_tenants db' = db_tenants db \<and>
        db_sites db' = db_sites db @ [r0\<lparr>s_status := ''active'', s_created_at := stamp db, s_updated_at := stamp db\<rparr>]
    | Inl _ \<Rightarrow> db_tenants db' = db_tenants db \<and> db_sites db' = db_sites db"
  using assms
  by (auto simp: create_site_def insert_exec_def sql_exec_def sql_point_def insert_site_def has_key_iff stamp_def
      split: prod.splits sum.splits list.splits option.splits if_splits)

lemma run_bind: "run_state (State_Monad.bind m f) s = (y, s') \<longleftrightarrow> (\<exists>x t. run_state m s = (x, t) \<and> run_state (f x) t = (y, s'))"
  by (cases "run_state m s") auto

lemma slug_http_documented: "validate_slug_http x = None \<Longrightarrow> validate_slug x = Inr ()"
  by (simp add: validate_slug_http_iff validate_slug_def slug_pattern_iff)

lemma read_tenant_inserted: "read_tenant (nullable_str p, t\<lparr>t_project_id := q\<rparr>) = t\<lparr>t_project_id := p\<rparr>"
  by (simp add: read_tenant_def nullable_str_def coalesce_def)

lemma run_bind_at: "run_state m s = (x, t) \<Longrightarrow> run_state (State_Monad.bind m f) s = run_state (f x) t"
  by simp

lemma status_simps [simp]:
  "rs_status (write_json c b) = c" "rs_body (write_json c b) = b" "rs_bearer (write_json c b) = False"
  "rs_status (write_err c e) = c" "rs_body (write_err c e) = ErrorBody e" "rs_bearer (write_err c e) = False"
  by (simp_all add: write_err_def write_json_def)

lemmas run_guards = decoded_def reject_def found_def Let_def

abbreviation new_tenant :: "create_tenant_req \<Rightarrow> tenant_row" where
  "new_tenant req \<equiv> \<lparr>t_id = ''tnt_'' @ ct_slug req, t_name = ct_name req, t_domain = ct_domain req,
     t_retention = default_to ''7d'' (ct_retention req), t_schema_version = 1, t_status = '''',
     t_project_id = ct_project_id req, t_created_at = 0, t_updated_at = 0\<rparr>"

definition tenant_created :: "'d server_cfg \<Rightarrow> create_tenant_req \<Rightarrow> ('d, response) act" where
  "tenant_created cfg req = do {
     rendered \<leftarrow> render_tsdb cfg (''tnt_'' @ ct_slug req);
     trigger_if_rendered cfg rendered;
     install_backup_timer cfg (''tnt_'' @ ct_slug req);
     emit_event (new_event kind_tenant_create (''tnt_'' @ ct_slug req) '''' '''' True (ct_project_id req));
     return (write_json 201 (IdBody (''tnt_'' @ ct_slug req) (ct_project_id req)))
   }"

text \<open>The handler up to the insertion, and what its last part keeps.\<close>

lemma create_tenant_run:
  assumes "validate_slug_http (ct_slug req) = None" "ct_project_id req \<noteq> '''' \<longrightarrow> validate_project_id (ct_project_id req) = None"
    and "run_state (on_store (admission_check (sc_meminfo cfg) (''tnt_'' @ ct_slug req) None)) s = (adm, s1)"
    and "run_state (on_store (create_tenant (new_tenant req))) s1 = (r, s2)"
  shows "run_state (handle_create_tenant cfg (Inr req)) s =
    (case adm of Some e \<Rightarrow> (write_err 409 e, s1)
     | None \<Rightarrow> (case r of
          Inl e \<Rightarrow> (if e = ErrDuplicate then write_err 409 (AlreadyExists ''tenant'' (''tnt_'' @ ct_slug req))
                    else write_err 500 (StoreError e), s2)
        | Inr _ \<Rightarrow> run_state (tenant_created cfg req) s2))"
proof -
  have v: "(if ct_project_id req \<noteq> '''' then validate_project_id (ct_project_id req) else None) = None"
    using assms(2) by simp
  show ?thesis
    by (cases adm; cases r)
      (simp_all only: handle_create_tenant_def run_guards assms(1) v sum.case option.case run_bind_at[OF assms(3)]
        run_bind_at[OF assms(4)] run_state_return tenant_created_def)
qed

lemma tenant_created_keeps:
  assumes "run_state (tenant_created cfg req) s = (resp, s')"
  shows "same_tables s s' \<and> resp = write_json 201 (IdBody (''tnt_'' @ ct_slug req) (ct_project_id req))"
proof
  show "same_tables s s'" by (rule unseen_same[OF _ assms]) (unfold tenant_created_def, intro unseen.resp_parts)
qed (use assms in \<open>auto simp: tenant_created_def run_bind simp del: run_state_bind\<close>)

text \<open>
  C24. Creating a tenant is exact: the answer 201 means that the slug and the project tag are valid,
  that the identifier was free, and that exactly the row asked for was appended, active, with the
  default retention filled in; any other answer (400, 409 or 500) means that no tenant was added.
  Sites are never touched, whatever rendering and the rest of the handler do.
\<close>

theorem create_tenant_exact:
  assumes "run_state (handle_create_tenant cfg body) s = (resp, s')"
  shows "db_sites (reg s') = db_sites (reg s) \<and> rs_status resp \<in> {201, 400, 409, 500} \<and>
    (if rs_status resp = 201
     then \<exists>req. body = Inr req \<and> validate_slug (ct_slug req) = Inr () \<and> project_id_ok (ct_project_id req) \<and>
       rs_body resp = IdBody (''tnt_'' @ ct_slug req) (ct_project_id req) \<and>
       ''tnt_'' @ ct_slug req \<notin> st_id ` set (db_tenants (reg s)) \<and>
       map read_tenant (db_tenants (reg s')) = map read_tenant (db_tenants (reg s)) @
         [\<lparr>t_id = ''tnt_'' @ ct_slug req, t_name = ct_name req, t_domain = ct_domain req,
           t_retention = (if ct_retention req = '''' then ''7d'' else ct_retention req), t_schema_version = 1,
           t_status = ''active'', t_project_id = ct_project_id req,
           t_created_at = stamp (reg s), t_updated_at = stamp (reg s)\<rparr>]
     else db_tenants (reg s') = db_tenants (reg s))"
proof (cases "\<exists>req. body = Inr req \<and> validate_slug_http (ct_slug req) = None \<and>
    (ct_project_id req \<noteq> '''' \<longrightarrow> validate_project_id (ct_project_id req) = None)")
  case False
  then show ?thesis using assms
    by (cases body)
      (auto simp: handle_create_tenant_def run_guards split: option.splits if_splits)
next
  case True
  then obtain req where req: "body = Inr req" "validate_slug_http (ct_slug req) = None"
    "ct_project_id req \<noteq> '''' \<longrightarrow> validate_project_id (ct_project_id req) = None" by blast
  obtain adm s1 where a: "run_state (on_store (admission_check (sc_meminfo cfg) (''tnt_'' @ ct_slug req) None)) s = (adm, s1)"
    by fastforce
  obtain r s2 where r: "run_state (on_store (create_tenant (new_tenant req))) s1 = (r, s2)" by fastforce
  have s1: "same_tables s s1 \<and> db_now (reg s1) = db_now (reg s)" using read_same[OF _ a] by blast
  obtain db' where d: "create_tenant (new_tenant req) (reg s1) = (r, db')" "s2 = set_world s1 ((dm_world s1)\<lparr>w_db := db'\<rparr>)"
    using daemon_on_store[OF r] by blast
  note e = create_tenant_effect[OF d(1)]
  note run = assms[unfolded req(1) create_tenant_run[OF req(2,3) a r]]
  show ?thesis
  proof (cases "adm = None \<and> (\<exists>u. r = Inr u)")
    case False
    then show ?thesis using run e s1 d(2)
      by (cases adm; cases r) (auto simp: same_tables_def split: if_splits)
  next
    case True
    then have t: "run_state (tenant_created cfg req) s2 = (resp, s')" using run by auto
    have "project_id_ok (ct_project_id req)"
      using req(3) by (cases "ct_project_id req = ''''") (auto simp: validate_project_id_iff project_id_ok_def)
    moreover have "stamp (reg s1) = stamp (reg s)" using s1 by (simp add: stamp_def)
    ultimately show ?thesis
      using True e s1 d(2) tenant_created_keeps[OF t] slug_http_documented[OF req(2)] req(1)
      by (auto simp: same_tables_def default_to_def read_tenant_def nullable_str_def coalesce_def)
  qed
qed

text \<open>A daemon for the examples: no random source, no Docker, no broker.\<close>

definition example_cfg :: "string list server_cfg" where
  "example_cfg = \<lparr>sc_env = example_env, sc_dev_mode = True, sc_recon = True, sc_docker_reachable = None, sc_poll = None,
     sc_poll_gap = (\<lambda>t. 0), sc_meminfo = None, sc_secrets = (\<lambda>t x. ((''pw1'', ''pw2''), ''key'')),
     sc_rnd = (\<lambda>t x. example_rnd 1),
     sc_uuid = (\<lambda>t. ''u''), sc_mqtt = (\<lambda>sni ca c t p q. None), sc_logs = (\<lambda>c d. '''')\<rparr>"

definition example_tenant_req :: create_tenant_req where
  "example_tenant_req = \<lparr>ct_slug = ''a'', ct_name = ''A'', ct_domain = ''a.example'', ct_retention = '''', ct_project_id = ''p-1''\<rparr>"

lemma example_admitted:
  assumes "db_faults (reg s) = []" "db_tenants (reg s) = []" "db_sites (reg s) = []"
  shows "run_state (on_store (admission_check None tid None)) (s :: 'd daemon) = (None, s)"
proof -
  have m: "read_mem_total_kb None = Inr 4194304" by (simp add: read_mem_total_kb_def)
  have u: "usable_mb 4194304 = 3566" "max_allowed_mb 3566 = 3031"
    by (simp_all add: usable_mb_def quot_def host_overhead_mb_def max_allowed_mb_eq)
  have "admission_check None tid None (reg s) = (None, reg s)"
    using assms by (simp add: admission_check_quiet admission_verdict_def m admission_plan_def predict_def u
        per_tenant_tsdb_mb_def total_mb_def Let_def)
  then show ?thesis by (simp add: on_store_def on_db_def)
qed

lemma example_created:
  "\<exists>s'. run_state (handle_create_tenant example_cfg (Inr example_tenant_req)) (initial_daemon 0 []) =
       (write_json 201 (IdBody ''tnt_a'' ''p-1''), s') \<and> map st_id (db_tenants (reg s')) = [''tnt_a'']"
proof -
  let ?s = "initial_daemon 0 [] :: string list daemon"
  obtain resp s' where run: "run_state (handle_create_tenant example_cfg (Inr example_tenant_req)) ?s = (resp, s')" by fastforce
  have e: "db_faults (reg ?s) = []" "db_tenants (reg ?s) = []" "db_sites (reg ?s) = []"
    by (simp_all add: initial_daemon_def empty_db_def)
  obtain r s2 where c: "run_state (on_store (create_tenant (new_tenant example_tenant_req))) ?s = (r, s2)" by fastforce
  have r: "r = Inr () \<and> map st_id (db_tenants (reg s2)) = [''tnt_a'']"
    using c e by (auto simp: on_store_def on_db_def create_tenant_def insert_exec_def quiet insert_tenant_def has_key_iff
        example_tenant_req_def split: prod.splits)
  have v: "validate_slug_http (ct_slug example_tenant_req) = None"
    "ct_project_id example_tenant_req \<noteq> '''' \<longrightarrow> validate_project_id (ct_project_id example_tenant_req) = None"
    by (simp_all add: example_tenant_req_def validate_slug_http_def validate_project_id_def is_lower_def is_digit_def)
  have a: "run_state (on_store (admission_check (sc_meminfo example_cfg) (''tnt_'' @ ct_slug example_tenant_req) None)) ?s = (None, ?s)"
    using example_admitted[OF e] by (simp add: example_cfg_def)
  have "run_state (tenant_created example_cfg example_tenant_req) s2 = (resp, s')"
    using run create_tenant_run[OF v a c] r by simp
  then show ?thesis
    using r run tenant_created_keeps[of example_cfg example_tenant_req s2 resp s']
    by (auto simp: same_tables_def) (simp add: example_tenant_req_def)
qed

theorem create_tenant_exact_witness:
  "\<exists>resp s'. run_state (handle_create_tenant example_cfg (Inr example_tenant_req)) (initial_daemon 0 []) = (resp, s') \<and>
     rs_status resp = 201 \<and> map (\<lambda>x. t_retention (read_tenant x)) (db_tenants (reg s')) = [''7d'']"
proof -
  obtain s' where run: "run_state (handle_create_tenant example_cfg (Inr example_tenant_req)) (initial_daemon 0 []) =
      (write_json 201 (IdBody ''tnt_a'' ''p-1''), s')" using example_created by blast
  have "map read_tenant (db_tenants (reg s')) = [\<lparr>t_id = ''tnt_a'', t_name = ''A'', t_domain = ''a.example'',
      t_retention = ''7d'', t_schema_version = 1, t_status = ''active'', t_project_id = ''p-1'',
      t_created_at = stamp (empty_db 0), t_updated_at = stamp (empty_db 0)\<rparr>]"
    using create_tenant_exact[OF run] by (simp add: example_tenant_req_def initial_daemon_def empty_db_def)
  then have "map (\<lambda>x. t_retention (read_tenant x)) (db_tenants (reg s')) = [''7d'']" by auto
  then show ?thesis using run by auto
qed

theorem daemon_keeps_registry_typed_witness:
  "\<exists>s. daemon_reachable example_cfg s \<and> map st_id (db_tenants (reg s)) = [''tnt_a''] \<and> db_inv (reg s) \<and>
     (\<forall>i \<in> set (map st_id (db_tenants (reg s))). rx_match tenant_id_pattern i)"
proof -
  obtain s where s: "run_state (handle_create_tenant example_cfg (Inr example_tenant_req)) (initial_daemon 0 []) =
      (write_json 201 (IdBody ''tnt_a'' ''p-1''), s) \<and> map st_id (db_tenants (reg s)) = [''tnt_a'']"
    using example_created by (rule exE)
  have "daemon_step example_cfg (initial_daemon 0 [])
      (snd (run_state (handle example_cfg (CreateTenant (Inr example_tenant_req))) (initial_daemon 0 [])))"
    by (rule daemon_step.Unix)
  then have "daemon_step example_cfg (initial_daemon 0 []) s"
    unfolding handle.simps(3) conjunct1[OF s] snd_conv .
  then have r: "daemon_reachable example_cfg s" unfolding daemon_reachable_def by blast
  show ?thesis using daemon_keeps_registry_typed[OF r] conjunct2[OF s] r by auto
qed

section \<open>Creating a site\<close>

definition site_created :: "'d server_cfg \<Rightarrow> string \<Rightarrow> string \<Rightarrow> ('d, response) act" where
  "site_created cfg tid sid = do {
     generate_site_ca cfg tid sid;
     rendered \<leftarrow> render_site_files cfg sid;
     trigger_if_rendered cfg rendered;
     pid \<leftarrow> tenant_project_id tid;
     emit_event (new_event kind_site_create tid sid '''' True pid);
     return (write_json 201 (IdBody sid ''''))
   }"

text \<open>What the request itself must satisfy.\<close>

definition site_req_error :: "create_site_req \<Rightarrow> http_error option" where
  "site_req_error req0 =
     (case validate_slug_http (cs_slug req0) of Some e \<Rightarrow> Some e
      | None \<Rightarrow> let req = site_defaults req0 in
          if cs_throughput req = ''high'' then Some HighTier
          else if cs_broker_kind req = ''mosquitto'' \<and> cs_throughput req = ''mid'' then Some MosquittoMid else None)"

lemma create_site_run:
  assumes "run_state (on_store (get_tenant tid)) s = (t, s1)"
    and "\<And>sid req. sid = ''ste_'' @ cs_slug req0 \<Longrightarrow> req = site_defaults req0 \<Longrightarrow>
      run_state (on_store (admission_check (sc_meminfo cfg) tid (Some (site_draft '''' '''' req)))) s1 = (adm, s2) \<and>
      run_state (on_store (create_site (site_draft sid tid req))) s2 = (r, s3)"
  shows "run_state (handle_create_site cfg tid (Inr req0)) s =
    (case t of Inl e \<Rightarrow> (not_found_or_500 (NotFound ''tenant'' tid) e, s1)
     | Inr _ \<Rightarrow> (case site_req_error req0 of Some e \<Rightarrow> (write_err 400 e, s1)
       | None \<Rightarrow> (case adm of Some e \<Rightarrow> (write_err 409 e, s2)
         | None \<Rightarrow> (case r of
              Inl e \<Rightarrow> (if e = ErrDuplicate then write_err 409 (AlreadyExists ''site'' (''ste_'' @ cs_slug req0))
                        else write_err 500 (StoreError e), s3)
            | Inr _ \<Rightarrow> run_state (site_created cfg tid (''ste_'' @ cs_slug req0)) s3))))"
proof -
  have slug: "cs_slug (site_defaults req0) = cs_slug req0" by (simp add: site_defaults_def)
  note b = assms(2)[OF refl refl, THEN conjunct1] assms(2)[OF refl refl, THEN conjunct2]
  show ?thesis
    by (cases t; cases adm; cases r; cases "validate_slug_http (cs_slug req0)")
      (simp_all add: handle_create_site_def run_guards b assms(1) site_req_error_def slug site_created_def del: append.simps)
qed

lemma site_created_keeps:
  assumes "run_state (site_created cfg tid sid) s = (resp, s')"
  shows "same_tables s s' \<and> resp = write_json 201 (IdBody sid '''')"
proof
  show "same_tables s s'" by (rule unseen_same[OF _ assms]) (unfold site_created_def, intro unseen.resp_parts)
qed (use assms in \<open>auto simp: site_created_def run_bind simp del: run_state_bind\<close>)

lemma get_tenant_found:
  "run_state (on_store (get_tenant tid)) s = (Inr row, s') \<Longrightarrow> tid \<in> st_id ` set (db_tenants (reg s))"
  by (drule daemon_on_store)
    (auto simp: get_tenant_def sql_query_row_def sql_point_def lookup_def find_Some_iff split: prod.splits option.splits list.splits)

text \<open>
  C25. Creating a site is exact: the answer 201 means that the tenant exists, that the slug is valid
  and its identifier was free, that the combination of broker, tier and direction is one the
  capacity table knows, is not of the high tier and is not mosquitto with the mid tier, and that
  exactly the row asked for, with the defaults filled in, was appended; any other answer (400, 404,
  409 or 500) means that no site was added.  Tenants are never touched.
\<close>

theorem create_site_exact:
  assumes "run_state (handle_create_site cfg tid body) s = (resp, s')"
  shows "db_tenants (reg s') = db_tenants (reg s) \<and> rs_status resp \<in> {201, 400, 404, 409, 500} \<and>
    (if rs_status resp = 201
     then \<exists>req q. body = Inr req \<and> q = site_defaults req \<and> validate_slug (cs_slug req) = Inr () \<and>
       tid \<in> st_id ` set (db_tenants (reg s)) \<and> ''ste_'' @ cs_slug req \<notin> s_id ` set (db_sites (reg s)) \<and>
       (\<exists>p. site_profile (cs_broker_kind q) (cs_throughput q) (cs_direction q) = Inr p) \<and>
       cs_throughput q \<noteq> ''high'' \<and> \<not> (cs_broker_kind q = ''mosquitto'' \<and> cs_throughput q = ''mid'') \<and>
       rs_body resp = IdBody (''ste_'' @ cs_slug req) '''' \<and>
       db_sites (reg s') = db_sites (reg s) @
         [(site_draft (''ste_'' @ cs_slug req) tid q)\<lparr>s_status := ''active'', s_created_at := stamp (reg s), s_updated_at := stamp (reg s)\<rparr>]
     else db_sites (reg s') = db_sites (reg s))"
proof (cases body)
  case (Inl e)
  obtain t s1 where t: "run_state (on_store (get_tenant tid)) s = (t, s1)" by fastforce
  then show ?thesis using assms Inl read_same[OF _ t]
    by (cases t) (auto simp: handle_create_site_def run_guards not_found_or_500_def same_tables_def split: if_splits)
next
  case (Inr req)
  let ?sid = "''ste_'' @ cs_slug req"
  obtain t s1 where t: "run_state (on_store (get_tenant tid)) s = (t, s1)" by fastforce
  obtain adm s2 where a: "run_state (on_store (admission_check (sc_meminfo cfg) tid (Some (site_draft '''' '''' (site_defaults req))))) s1
      = (adm, s2)" by fastforce
  obtain r s3 where r: "run_state (on_store (create_site (site_draft ?sid tid (site_defaults req)))) s2 = (r, s3)" by fastforce
  obtain db' where d: "create_site (site_draft ?sid tid (site_defaults req)) (reg s2) = (r, db')"
      "s3 = set_world s2 ((dm_world s2)\<lparr>w_db := db'\<rparr>)" using daemon_on_store[OF r] by blast
  note e = create_site_effect[OF d(1)]
  have s1: "same_tables s s1 \<and> db_now (reg s1) = db_now (reg s)" and s2: "same_tables s1 s2 \<and> db_now (reg s2) = db_now (reg s1)"
    using read_same[OF _ t] read_same[OF _ a] by blast+
  have run: "run_state (handle_create_site cfg tid (Inr req)) s = (resp, s')" using assms Inr by simp
  note run = run[unfolded create_site_run[of tid s t s1 req cfg adm s2 r s3, OF t, simplified a r, simplified]]
  show ?thesis
  proof (cases "(\<exists>u. t = Inr u) \<and> site_req_error req = None \<and> adm = None \<and> (\<exists>u. r = Inr u)")
    case False
    then show ?thesis using run e s1 s2 d(2)
      by (cases t; cases "site_req_error req"; cases adm; cases r) (auto simp: same_tables_def not_found_or_500_def split: if_splits)
  next
    case True
    then have c: "run_state (site_created cfg tid ?sid) s3 = (resp, s')" using run by auto
    have q: "validate_slug_http (cs_slug req) = None" "cs_throughput (site_defaults req) \<noteq> ''high''"
      "\<not> (cs_broker_kind (site_defaults req) = ''mosquitto'' \<and> cs_throughput (site_defaults req) = ''mid'')"
      using True by (auto simp: site_req_error_def Let_def split: option.splits if_splits)
    have p: "\<exists>p. site_profile (cs_broker_kind (site_defaults req)) (cs_throughput (site_defaults req)) (cs_direction (site_defaults req)) = Inr p"
      using a True on_store_admitted[of "sc_meminfo cfg" tid "site_draft '''' '''' (site_defaults req)" s1 s2]
      by (simp add: site_draft_def)
    have st: "stamp (reg s2) = stamp (reg s)" using s1 s2 by (simp add: stamp_def)
    have x: "tid \<in> st_id ` set (db_tenants (reg s))" using t True get_tenant_found by blast
    show ?thesis
      using True e s1 s2 d(2) site_created_keeps[OF c] slug_http_documented[OF q(1)] q p st x Inr
      by (auto simp: same_tables_def site_draft_def)
  qed
qed

definition example_site_req :: create_site_req where
  "example_site_req = \<lparr>cs_slug = ''x'', cs_broker_kind = ''emqx'', cs_throughput = ''mid'', cs_direction = '''', cs_payload_codec = ''''\<rparr>"

definition one_tenant :: "string list daemon" where
  "one_tenant = set_world (initial_daemon 0 []) ((dm_world (initial_daemon 0 []))\<lparr>w_db := crowded_db\<lparr>db_sites := []\<rparr>\<rparr>)"

theorem create_site_exact_witness:
  "\<exists>resp s'. run_state (handle_create_site example_cfg ''tnt_a'' (Inr example_site_req)) one_tenant = (resp, s') \<and>
     rs_status resp = 201 \<and> map s_direction (db_sites (reg s')) = [''uni'']"
proof -
  obtain resp s' where run: "run_state (handle_create_site example_cfg ''tnt_a'' (Inr example_site_req)) one_tenant = (resp, s')" by fastforce
  have e: "db_faults (reg one_tenant) = []" "db_sites (reg one_tenant) = []"
    by (simp_all add: one_tenant_def crowded_db_def empty_db_def)
  let ?q = "site_defaults example_site_req"
  have q: "?q = \<lparr>cs_slug = ''x'', cs_broker_kind = ''emqx'', cs_throughput = ''mid'', cs_direction = ''uni'', cs_payload_codec = ''cbor''\<rparr>"
    by (simp add: site_defaults_def example_site_req_def default_to_def)
  have m: "read_mem_total_kb None = Inr 4194304" by (simp add: read_mem_total_kb_def)
  have u: "usable_mb 4194304 = 3566" "max_allowed_mb 3566 = 3031"
    by (simp_all add: usable_mb_def quot_def host_overhead_mb_def max_allowed_mb_eq)
  have "fst (admission_check None ''tnt_a'' (Some (site_draft '''' '''' ?q)) (reg one_tenant)) = None"
    by (simp add: q admission_check_quiet e(1), simp add: one_tenant_def crowded_db_def empty_db_def read_tenant_def
        admission_verdict_def m admission_plan_def plan_tenant_def predict_def u per_tenant_tsdb_mb_def site_plan_of_def
        site_draft_def site_profile_def profiles_def mk_key_def mk_profile_def total_mb_def Let_def)
  then have a: "run_state (on_store (admission_check (sc_meminfo example_cfg) ''tnt_a'' (Some (site_draft '''' '''' ?q)))) one_tenant = (None, one_tenant)"
    using e(1) by (simp add: example_cfg_def on_store_def on_db_def admission_check_quiet)
  obtain r s3 where c: "run_state (on_store (create_site (site_draft (''ste_'' @ cs_slug example_site_req) ''tnt_a'' ?q))) one_tenant = (r, s3)"
    by fastforce
  have "''tnt_a'' \<in> st_id ` set (db_tenants (reg one_tenant))" by (simp add: one_tenant_def crowded_db_def)
  then have r: "r = Inr ()"
    using c e by (auto simp: on_store_def on_db_def create_site_def insert_exec_def quiet insert_site_def has_key_iff site_draft_def
        split: prod.splits sum.splits)
  obtain row where t: "run_state (on_store (get_tenant ''tnt_a'')) one_tenant = (Inr row, one_tenant)"
    using e(1) by (auto simp: on_store_def on_db_def get_tenant_def quiet) (simp add: one_tenant_def crowded_db_def lookup_def)
  have v: "site_req_error example_site_req = None"
    by (simp add: site_req_error_def site_defaults_def default_to_def Let_def example_site_req_def validate_slug_http_def is_lower_def is_digit_def)
  have "run_state (site_created example_cfg ''tnt_a'' (''ste_'' @ cs_slug example_site_req)) s3 = (resp, s')"
    using run create_site_run[OF t, of example_site_req example_cfg None one_tenant r s3] a c r v by simp
  then have "rs_status resp = 201" using site_created_keeps by (metis status_simps(1))
  then show ?thesis
    using run create_site_exact[OF run] e by (auto simp: site_draft_def site_defaults_def example_site_req_def default_to_def)
qed

section \<open>The TCP transport\<close>

definition token_valid :: "'d server_cfg \<Rightarrow> string \<Rightarrow> 'd daemon \<Rightarrow> bool" where
  "token_valid cfg hdr s \<longleftrightarrow> has_prefix hdr ''Bearer '' \<and>
     (case lookup k_hash (hex_encode (env_sha (sc_env cfg) (trim_prefix hdr ''Bearer ''))) (db_tokens (reg s)) of
        None \<Rightarrow> False | Some k \<Rightarrow> \<not> k_revoked k)"

lemma lookup_token_cases:
  assumes "lookup_token sha raw db = (r, db')"
  shows "db' = snd (sql_point db) \<and>
    (\<forall>k. r = Inr k \<longrightarrow> (\<exists>k0. lookup k_hash (hex_encode (sha raw)) (db_tokens db) = Some k0 \<and> \<not> k_revoked k0)) \<and>
    (db_faults db = [] \<longrightarrow> (\<forall>k0. lookup k_hash (hex_encode (sha raw)) (db_tokens db) = Some k0 \<and> \<not> k_revoked k0 \<longrightarrow> (\<exists>k. r = Inr k)))"
  using assms
  by (auto simp: lookup_token_def sql_query_row_def sql_point_def read_token_def split: prod.splits option.splits list.splits if_splits)

text \<open>
  C26. A request on the TCP transport without a valid token (no bearer header, an unknown or a
  revoked token) is answered 401 with the challenge header and changes nothing, whatever it asks
  for; with a valid token and no failure of the lookup it runs exactly as on the local socket.
\<close>

theorem tcp_requires_token:
  assumes "run_state (tcp_handler cfg hdr req) s = (resp, s')"
  shows "(if token_valid cfg hdr s
     then db_faults (reg s) = [] \<longrightarrow> run_state (handle cfg req) s = (resp, s')
     else rs_status resp = 401 \<and> rs_bearer resp \<and>
       (\<exists>fs. s' = set_world s ((dm_world s)\<lparr>w_db := (reg s)\<lparr>db_faults := fs\<rparr>\<rparr>)))"
proof (cases "has_prefix hdr ''Bearer ''")
  case False
  then have "s' = s" "resp = unauthorized MissingBearer"
    using assms by (simp_all add: tcp_handler_def token_auth_def)
  then show ?thesis using False
    by (auto simp: token_valid_def unauthorized_def set_world_def intro!: exI[of _ "db_faults (reg s)"])
next
  case True
  let ?look = "lookup_token (env_sha (sc_env cfg)) (trim_prefix hdr ''Bearer '')"
  obtain r s1 where l: "run_state (on_store ?look) s = (r, s1)" by fastforce
  obtain db' where d: "?look (reg s) = (r, db')" "s1 = set_world s ((dm_world s)\<lparr>w_db := db'\<rparr>)"
    using daemon_on_store[OF l] by blast
  note c = lookup_token_cases[OF d(1)]
  have run: "(case r of Inl _ \<Rightarrow> (unauthorized BadToken, s1) | Inr _ \<Rightarrow> run_state (handle cfg req) s1) = (resp, s')"
    using assms True l by (simp add: tcp_handler_def token_auth_def run_bind_at[OF l] split: sum.splits)
  have f: "\<exists>fs. s1 = set_world s ((dm_world s)\<lparr>w_db := (reg s)\<lparr>db_faults := fs\<rparr>\<rparr>)"
    using d lookup_token_state[OF d(1)] by auto
  have q: "s1 = s" if "db_faults (reg s) = []" using c d(2) that by (simp add: set_world_def)
  show ?thesis
  proof (cases r)
    case (Inl e)
    then have "\<not> (db_faults (reg s) = [] \<and> token_valid cfg hdr s)"
      using c True by (auto simp: token_valid_def split: option.splits)
    then show ?thesis using Inl run f by (auto simp: unauthorized_def)
  next
    case (Inr k)
    then have "token_valid cfg hdr s" using c True by (auto simp: token_valid_def split: option.splits)
    then show ?thesis using Inr run q by auto
  qed
qed

theorem tcp_requires_token_witness:
  "\<exists>resp s'. run_state (tcp_handler example_cfg ''Bearer abc'' (DeleteTenant ''tnt_a'' ''true'')) one_tenant = (resp, s') \<and>
     rs_status resp = 401 \<and> map st_id (db_tenants (reg s')) = [''tnt_a'']"
proof -
  obtain resp s' where run:
    "run_state (tcp_handler example_cfg ''Bearer abc'' (DeleteTenant ''tnt_a'' ''true'')) one_tenant = (resp, s')" by fastforce
  have "\<not> token_valid example_cfg ''Bearer abc'' one_tenant"
    by (simp add: token_valid_def one_tenant_def crowded_db_def empty_db_def lookup_def)
  then show ?thesis
    using tcp_requires_token[OF run] run by (auto simp: one_tenant_def crowded_db_def)
qed

section \<open>Apply\<close>

lemma poll_reason_None:
  "poll_reason r = None \<longleftrightarrow> (\<exists>cs. r = Inr cs \<and> cs \<noteq> [] \<and> (\<forall>(n, st) \<in> set cs. st = ''running''))"
proof (cases r)
  case (Inr cs)
  then have "poll_reason r = None \<longleftrightarrow> cs \<noteq> [] \<and> find (\<lambda>(n, st). st \<noteq> ''running'') cs = None"
    by (cases cs) (auto simp: poll_reason_def simp del: find.simps split: option.splits)
  then show ?thesis using Inr by (auto simp: find_None_iff)
qed (simp add: poll_reason_def)

lemma poll_loop_result:
  assumes "poll_loop ls gap cancel deadline project t = (resp, t')" "t \<le> cancel"
  shows "t \<le> t' \<and> t' \<le> cancel \<and> ((\<forall>u. gap u \<le> g) \<longrightarrow> t' \<le> max t (deadline + 1 + int g)) \<and>
    (rs_status resp = 200 \<and> poll_reason (ls t') = None \<or> rs_status resp = 202)"
  using assms
proof (induction ls gap cancel deadline project t arbitrary: resp t' rule: poll_loop.induct)
  case (1 ls gap cancel deadline project t)
  show ?case
  proof (cases "poll_reason (ls t)")
    case None
    then show ?thesis using "1.prems" by (subst (asm) poll_loop.simps) auto
  next
    case (Some why)
    let ?t = "t + 1 + int (gap t)"
    obtain h where h: "h \<longleftrightarrow> (\<forall>u. gap u \<le> g)" "h \<Longrightarrow> gap t \<le> g" by auto
    show ?thesis
    proof (cases "t > deadline \<or> cancel \<le> ?t")
      case True
      then have "t' = t \<and> deadline < t \<or> t' = cancel \<and> cancel \<le> ?t \<and> t \<le> deadline" "rs_status resp = 202"
        using "1.prems" Some by (subst (asm) poll_loop.simps, auto simp: Let_def split: if_splits)+
      then show ?thesis using "1.prems"(2) h by (auto simp: h(1)[symmetric])
    next
      case False
      then have "poll_loop ls gap cancel deadline project ?t = (resp, t')"
        using "1.prems" Some by (subst (asm) poll_loop.simps) (simp add: Let_def)
      then show ?thesis using "1.IH"[OF Some _ refl, of resp t'] False h(2) by (auto simp: h(1)[symmetric])
    qed
  qed
qed

text \<open>What an apply leaves of the state: the desired row, one pending run, and the clock.\<close>

lemma set_desired_run:
  assumes "db_faults (reg s) = []"
  shows "run_state (set_desired p t i st) s =
    ((), set_world s ((dm_world s)\<lparr>w_db := (reg s)\<lparr>db_desired :=
       upsert d_project_id ((desired_row p t i st)\<lparr>d_updated_at := stamp (reg s)\<rparr>)
         (\<lambda>old. old\<lparr>d_state := st, d_config_hash := '''', d_updated_at := stamp (reg s)\<rparr>) (db_desired (reg s))\<rparr>\<rparr>))"
  using assms
  by (simp add: set_desired_def on_store_def on_db_def upsert_desired_state_def raw_exec_def quiet upsert_desired_stmt_def
      set_world_def desired_row_def)

lemma poll_convergence_run:
  assumes "run_state (poll_convergence cfg p cancel deadline) s = (resp, s')" "db_now (reg s) \<le> cancel"
  shows "\<exists>t. s' = set_world s ((dm_world s)\<lparr>w_db := (reg s)\<lparr>db_now := t\<rparr>\<rparr>) \<and> db_now (reg s) \<le> t \<and> t \<le> cancel \<and>
    (rs_status resp = 200 \<and> (\<exists>ls. sc_poll cfg = Some ls \<and> poll_reason (ls t) = None) \<or> rs_status resp = 202)"
proof (cases "sc_poll cfg")
  case None
  then show ?thesis using assms
    by (auto simp: poll_convergence_def set_world_def intro!: exI[of _ "db_now (reg s)"])
next
  case (Some ls)
  obtain r t where l: "poll_loop ls (sc_poll_gap cfg) cancel deadline p (db_now (reg s)) = (r, t)" by fastforce
  have s': "s' = set_world s ((dm_world s)\<lparr>w_db := (reg s)\<lparr>db_now := t\<rparr>\<rparr>)" "resp = r"
    using assms(1) Some l by (auto simp: poll_convergence_def set_world_def Let_def)
  show ?thesis using s' Some poll_loop_result[OF l assms(2), of 0] by auto
qed

definition apply_marked :: "'d server_cfg \<Rightarrow> string \<Rightarrow> 'd daemon \<Rightarrow> 'd daemon" where
  "apply_marked cfg p s = snd (run_state (trigger_recon cfg) (snd (run_state (set_desired p '''' '''' ''running'') s)))"

lemma apply_run:
  assumes "run_state (handle_apply cfg p wait gone) s = (resp, s')" "case gone of None \<Rightarrow> True | Some d \<Rightarrow> 0 \<le> d"
  shows "\<exists>t. s' = set_world (apply_marked cfg p s) ((dm_world (apply_marked cfg p s))\<lparr>w_db := (reg (apply_marked cfg p s))\<lparr>db_now := t\<rparr>\<rparr>) \<and>
    db_now (reg (apply_marked cfg p s)) \<le> t \<and> t \<le> db_now (reg (apply_marked cfg p s)) + request_timeout \<and>
    (rs_status resp = 200 \<and> (\<exists>ls. sc_poll cfg = Some ls \<and> poll_reason (ls t) = None) \<or> rs_status resp = 202)"
proof -
  let ?s = "apply_marked cfg p s" and ?secs = "if wait \<noteq> '''' then fst (atoi wait) else 0"
  let ?c = "db_now (reg ?s) + (case gone of None \<Rightarrow> request_timeout | Some d \<Rightarrow> min d request_timeout)"
  have r: "0 \<le> request_timeout" by (simp add: request_timeout_def second_def)
  have c: "db_now (reg ?s) \<le> ?c" "?c \<le> db_now (reg ?s) + request_timeout"
    using assms(2) r by (auto split: option.splits)
  have run: "(if ?secs > 0 then run_state (poll_convergence cfg p ?c (db_now (reg ?s) + (if ?secs > 300 then 300 else ?secs) * second)) ?s
      else (write_json 202 (SelectorBody p), ?s)) = (resp, s')"
    using assms(1) by (auto simp: handle_apply_def apply_marked_def now_def Let_def split: prod.splits if_splits)
  show ?thesis
  proof (cases "?secs > 0")
    case True
    then have q: "run_state (poll_convergence cfg p ?c (db_now (reg ?s) + (if ?secs > 300 then 300 else ?secs) * second)) ?s = (resp, s')"
      using run by (simp only: if_True)
    from poll_convergence_run[OF q c(1)] obtain t where "s' = set_world ?s ((dm_world ?s)\<lparr>w_db := (reg ?s)\<lparr>db_now := t\<rparr>\<rparr>)"
      "db_now (reg ?s) \<le> t" "t \<le> ?c" "rs_status resp = 200 \<and> (\<exists>ls. sc_poll cfg = Some ls \<and> poll_reason (ls t) = None) \<or> rs_status resp = 202"
      by blast
    then show ?thesis using c(2) by (intro exI[of _ t] conjI) linarith+
  next
    case False
    then show ?thesis using run r by (auto simp: set_world_def intro!: exI[of _ "db_now (reg ?s)"])
  qed
qed

lemma apply_marked_now: "db_now (reg (apply_marked cfg p s)) = db_now (reg s)"
proof -
  have "db_now (snd (upsert_desired_state d db)) = db_now db" for d db
    by (auto simp: upsert_desired_state_def raw_exec_def sql_exec_def sql_point_def upsert_desired_stmt_def
        split: prod.splits list.splits option.splits)
  then show ?thesis
    by (auto simp: apply_marked_def trigger_recon_def set_desired_def on_store_def on_db_def split: prod.splits) (metis snd_conv)+
qed

text \<open>
  C27. An apply always answers, at most one minute after it was asked, whatever wait it asks for
  (the documented maximum is 300 seconds, but the router ends the request's context); it answers
  200 only when at the time of the answer the project has containers and all of them are running,
  and 202 otherwise.
\<close>

theorem apply_answers_in_time:
  assumes "run_state (handle_apply cfg p wait gone) s = (resp, s')" "case gone of None \<Rightarrow> True | Some d \<Rightarrow> 0 \<le> d"
  shows "db_now (reg s) \<le> db_now (reg s') \<and> db_now (reg s') \<le> db_now (reg s) + 60 * second \<and> rs_status resp \<in> {200, 202} \<and>
    (rs_status resp = 200 \<longrightarrow> (\<exists>ls cs. sc_poll cfg = Some ls \<and> ls (db_now (reg s')) = Inr cs \<and> cs \<noteq> [] \<and>
       (\<forall>(n, st) \<in> set cs. st = ''running'')))"
proof -
  obtain t where t: "db_now (reg s') = t" "db_now (reg s) \<le> t" "t \<le> db_now (reg s) + request_timeout"
    "rs_status resp = 200 \<and> (\<exists>ls. sc_poll cfg = Some ls \<and> poll_reason (ls t) = None) \<or> rs_status resp = 202"
    using apply_run[OF assms] by (auto simp: apply_marked_now)
  then show ?thesis by (auto simp: request_timeout_def poll_reason_None)
qed

theorem apply_answers_in_time_witness:
  "\<exists>resp s'. run_state (handle_apply (example_cfg\<lparr>sc_poll := Some (\<lambda>t. Inr [(''c'', ''exited'')])\<rparr>) ''p'' ''300'' None) one_tenant = (resp, s') \<and>
     rs_status resp \<in> {200, 202} \<and> db_now (reg s') \<le> 60 * second"
proof -
  let ?cfg = "example_cfg\<lparr>sc_poll := Some (\<lambda>t. Inr [(''c'', ''exited'')])\<rparr>"
  obtain resp s' where run: "run_state (handle_apply ?cfg ''p'' ''300'' None) one_tenant = (resp, s')" by fastforce
  have "db_now (reg one_tenant) = 0" by (simp add: one_tenant_def crowded_db_def empty_db_def)
  then show ?thesis using apply_answers_in_time[OF run] run by auto
qed

text \<open>
  C28. An apply switches drift detection off: it stores an empty configuration hash with the desired
  row, so while the containers run the reconciler leaves the project alone, whatever was rendered
  since.  An apply of a name that no project has creates a row without owner, for which the
  reconciler uses the compose file of the shared stack.
\<close>

theorem apply_forgets_hash:
  assumes "run_state (handle_apply cfg p wait gone) s = (resp, s')" "case gone of None \<Rightarrow> True | Some d \<Rightarrow> 0 \<le> d"
    and "db_faults (reg s) = []"
  shows "\<exists>d. lookup d_project_id p (db_desired (reg s')) = Some d \<and> d_state d = ''running'' \<and> d_config_hash d = '''' \<and>
    (case lookup d_project_id p (db_desired (reg s)) of
       Some old \<Rightarrow> d_tenant_id d = d_tenant_id old \<and> d_site_id d = d_site_id old
     | None \<Rightarrow> compose_file (sc_env cfg) d = path_join [env_data_dir (sc_env cfg), ''shared'', ''docker-compose.yml'']) \<and>
    (\<forall>env w cs file. env_sdk env \<and> containers_of env p w = Inr cs \<and> cs \<noteq> [] \<and> all_running cs \<longrightarrow>
       reconcile_project env d file w = (None, w))"
proof -
  let ?f = "\<lambda>old. old\<lparr>d_state := ''running'', d_config_hash := '''', d_updated_at := stamp (reg s)\<rparr>"
  have "db_desired (reg s') = db_desired (reg (apply_marked cfg p s))" using apply_run[OF assms(1,2)] by auto
  also have "\<dots> = upsert d_project_id ((desired_row p '''' '''' ''running'')\<lparr>d_updated_at := stamp (reg s)\<rparr>) ?f (db_desired (reg s))"
    by (simp add: apply_marked_def set_desired_run[OF assms(3)] trigger_recon_def)
  finally have l: "lookup d_project_id p (db_desired (reg s')) =
      Some (case lookup d_project_id p (db_desired (reg s)) of
        None \<Rightarrow> (desired_row p '''' '''' ''running'')\<lparr>d_updated_at := stamp (reg s)\<rparr> | Some r \<Rightarrow> ?f r)"
    by (simp add: lookup_upsert desired_row_def split: option.split)
  have k: "d_project_id old = p" if "lookup d_project_id p (db_desired (reg s)) = Some old" for old
    using that by (auto simp: lookup_def find_Some_iff)
  show ?thesis unfolding l
    by (auto simp: desired_row_def compose_file_def reconcile_project_def needs_up_def dest: k split: option.splits)
qed

theorem apply_forgets_hash_witness:
  "\<exists>resp s' d. run_state (handle_apply example_cfg ''nope'' '''' None) one_tenant = (resp, s') \<and>
     lookup d_project_id ''nope'' (db_desired (reg s')) = Some d \<and> d_config_hash d = '''' \<and>
     compose_file example_env d = path_join [''/data'', ''shared'', ''docker-compose.yml''] \<and>
     reconcile_project example_env d ''/f'' (example_world [''nope'']) = (None, example_world [''nope''])"
proof -
  obtain resp s' where run: "run_state (handle_apply example_cfg ''nope'' '''' None) one_tenant = (resp, s')" by fastforce
  have f: "db_faults (reg one_tenant) = []" "db_desired (reg one_tenant) = []"
    by (simp_all add: one_tenant_def crowded_db_def empty_db_def)
  have c: "containers_of example_env ''nope'' (example_world [''nope'']) = Inr [summary_of True (example_container ''nope'')]"
    by (simp add: containers_of_def list_by_project_def example_env_def example_world_def)
  have e: "env_sdk example_env \<and> containers_of example_env ''nope'' (example_world [''nope'']) = Inr [summary_of True (example_container ''nope'')] \<and>
      [summary_of True (example_container ''nope'')] \<noteq> [] \<and> all_running [summary_of True (example_container ''nope'')]"
    using c by (simp add: all_running_def summary_of_def example_container_def example_env_def)
  obtain d where d: "lookup d_project_id ''nope'' (db_desired (reg s')) = Some d" "d_config_hash d = ''''"
    "compose_file (sc_env example_cfg) d = path_join [env_data_dir (sc_env example_cfg), ''shared'', ''docker-compose.yml'']"
    "\<forall>env w cs file. env_sdk env \<and> containers_of env ''nope'' w = Inr cs \<and> cs \<noteq> [] \<and> all_running cs \<longrightarrow>
       reconcile_project env d file (w :: string list world) = (None, w)"
    using apply_forgets_hash[OF run _ f(1)] f(2) by (auto simp: lookup_def)
  have "reconcile_project example_env d ''/f'' (example_world [''nope'']) = (None, example_world [''nope''])" using d(4) e by blast
  moreover have "env_data_dir example_env = ''/data''" "sc_env example_cfg = example_env"
    by (simp_all add: example_env_def example_cfg_def)
  ultimately show ?thesis using run d(1-3) by auto
qed

end
