(* ===== verification/Ingest.thy ===== *)
theory Ingest
  imports FileSys "HOL-Library.Multiset" "HOL-Library.Sublist"
begin

text \<open>
  The service \<^verbatim>\<open>services/ingest\<close> that runs in every site: the configuration from the environment,
  the start of the process, the decoding of payloads, and the ring buffer with its concurrent
  flushes as a step relation.  The CBOR and JSON libraries, the connection pool, the MQTT client,
  the URL parser and the database are parameters.
\<close>

section \<open>Configuration\<close>

record ingest_settings =
  ig_tenant_id :: string
  ig_site_id :: string
  ig_broker_kind :: string
  ig_mqtt_broker :: string
  ig_mqtt_topic :: string
  ig_payload_codec :: string
  ig_batch_size :: int
  ig_flush_interval_ms :: int
  ig_direction :: string
  ig_tsdb_host :: string
  ig_tsdb_port :: string
  ig_tsdb_db :: string
  ig_tsdb_user :: string
  ig_tsdb_pass :: string
  ig_ca_path :: string
  ig_cert_path :: string
  ig_key_path :: string

text \<open>\<^verbatim>\<open>os.Getenv\<close> gives the empty string for a variable that is not set.\<close>

definition env_default :: "(string \<Rightarrow> string) \<Rightarrow> string \<Rightarrow> string \<Rightarrow> string" where
  "env_default getenv key def = (if getenv key \<noteq> '''' then getenv key else def)"

definition load_config :: "(string \<Rightarrow> string) \<Rightarrow> ingest_settings" where
  "load_config getenv = (let d = env_default getenv in
     \<lparr>ig_tenant_id = d ''INGEST_TENANT_ID'' '''',
      ig_site_id = d ''INGEST_SITE_ID'' '''',
      ig_broker_kind = d ''INGEST_BROKER_KIND'' ''mosquitto'',
      ig_mqtt_broker = d ''INGEST_MQTT_BROKER'' ''localhost:8883'',
      ig_mqtt_topic = d ''INGEST_MQTT_TOPIC'' ''#'',
      ig_payload_codec = d ''INGEST_PAYLOAD_CODEC'' ''cbor'',
      ig_batch_size = fst (atoi (d ''INGEST_BATCH_SIZE'' ''200'')),
      ig_flush_interval_ms = fst (atoi (d ''INGEST_FLUSH_INTERVAL_MS'' ''1000'')),
      ig_direction = d ''INGEST_DIRECTION'' ''uni'',
      ig_tsdb_host = d ''INGEST_TSDB_HOST'' ''localhost'',
      ig_tsdb_port = d ''INGEST_TSDB_PORT'' ''5432'',
      ig_tsdb_db = d ''INGEST_TSDB_DB'' ''telemetry'',
      ig_tsdb_user = d ''INGEST_TSDB_USER'' ''controlai_ingest'',
      ig_tsdb_pass = d ''INGEST_TSDB_PASS'' '''',
      ig_ca_path = d ''INGEST_CA_PATH'' ''/certs/ca.crt'',
      ig_cert_path = d ''INGEST_CERT_PATH'' ''/certs/client.crt'',
      ig_key_path = d ''INGEST_KEY_PATH'' ''/certs/client.key''\<rparr>)"

section \<open>Start\<close>

record tls_config =
  tc_root_cas :: "cert list"
  tc_certificate :: cert

definition build_tls :: "ingest_settings \<Rightarrow> fs \<Rightarrow> (string + tls_config) \<times> fs" where
  "build_tls c s =
     (case os_read_file (ig_ca_path c) s of
        (Inl _, s1) \<Rightarrow> (Inl (''read CA '' @ ig_ca_path c), s1)
      | (Inr pem, s1) \<Rightarrow>
          if certs_of_pem pem = [] then (Inl ''parse CA cert'', s1)
          else case os_read_file (ig_cert_path c) s1 of
            (Inl _, s2) \<Rightarrow> (Inl ''load client cert'', s2)
          | (Inr crt, s2) \<Rightarrow>
              (case os_read_file (ig_key_path c) s2 of
                 (Inl _, s3) \<Rightarrow> (Inl ''load client cert'', s3)
               | (Inr key, s3) \<Rightarrow>
                   (case x509_key_pair crt key of
                      None \<Rightarrow> (Inl ''load client cert'', s3)
                    | Some cert \<Rightarrow> (Inr \<lparr>tc_root_cas = certs_of_pem pem, tc_certificate = cert\<rparr>, s3))))"

definition ingest_dsn :: "ingest_settings \<Rightarrow> string" where
  "ingest_dsn c = ''host='' @ ig_tsdb_host c @ '' port='' @ ig_tsdb_port c @ '' dbname='' @ ig_tsdb_db c @
     '' user='' @ ig_tsdb_user c @ '' password='' @ ig_tsdb_pass c @ '' sslmode=disable''"

definition ingest_client_id :: "ingest_settings \<Rightarrow> string" where
  "ingest_client_id c = ''controlai-ingest-'' @ ig_tenant_id c @ ''-'' @ ig_site_id c"

text \<open>\<^verbatim>\<open>time.Duration(ms) * time.Millisecond\<close> wraps at 64 bits; \<^verbatim>\<open>time.NewTicker\<close> panics unless it is positive.\<close>

definition wrap64 :: "int \<Rightarrow> int" where
  "wrap64 x = (x + 2 ^ 63) mod 2 ^ 64 - 2 ^ 63"

definition flush_interval :: "ingest_settings \<Rightarrow> int" where
  "flush_interval c = wrap64 (ig_flush_interval_ms c * 1000000)"

datatype start_result =
    ExitWith string
  | Panicked string
  | Serving string tls_config bool

definition start_ingest ::
  "(string \<Rightarrow> string option) \<Rightarrow> (string \<Rightarrow> bool) \<Rightarrow> (string \<Rightarrow> tls_config \<Rightarrow> string \<Rightarrow> string option) \<Rightarrow>
   (string \<Rightarrow> string) \<Rightarrow> fs \<Rightarrow> start_result \<times> fs"
where
  "start_ingest pool url_ok connect getenv s =
     (let c = load_config getenv in
      case pool (ingest_dsn c) of
        Some e \<Rightarrow> (ExitWith ''connect to TSDB'', s)
      | None \<Rightarrow>
          (case build_tls c s of
             (Inl e, s1) \<Rightarrow> (ExitWith ''build TLS config'', s1)
           | (Inr tls, s1) \<Rightarrow>
               if flush_interval c \<le> 0 then (Panicked ''non-positive interval for NewTicker'', s1)
               else if \<not> url_ok (''mqtts://'' @ ig_mqtt_broker c) then (Panicked ''parse URL'', s1)
               else (case connect (''mqtts://'' @ ig_mqtt_broker c) tls (ingest_client_id c) of
                  Some e \<Rightarrow> (ExitWith ''create MQTT connection manager'', s1)
                | None \<Rightarrow> (Serving (ig_mqtt_topic c) tls (ig_direction c = ''bi''), s1))))"

text \<open>The reserved endpoint of the downlink server.\<close>

definition downlink_publish :: "string \<Rightarrow> nat" where
  "downlink_publish http_method = (if http_method \<noteq> ''POST'' then 405 else 202)"

section \<open>Payloads\<close>

record 'v codecs =
  cd_cbor_unmarshal :: "string \<Rightarrow> string + 'v"
  cd_json_marshal :: "'v \<Rightarrow> string + string"
  cd_json_unmarshal :: "string \<Rightarrow> string + 'v"

record codec_result =
  cr_json_payload :: "string option"
  cr_raw :: string
  cr_is_json :: bool
  cr_decode_err :: "string option"

definition raw_result :: "string \<Rightarrow> codec_result" where
  "raw_result raw = \<lparr>cr_json_payload = None, cr_raw = raw, cr_is_json = False, cr_decode_err = None\<rparr>"

definition decode_payload :: "'v codecs \<Rightarrow> string \<Rightarrow> string \<Rightarrow> codec_result" where
  "decode_payload cd codec raw =
     (if codec = ''cbor'' then
        (case cd_cbor_unmarshal cd raw of
           Inl e \<Rightarrow> (raw_result raw)\<lparr>cr_decode_err := Some e\<rparr>
         | Inr v \<Rightarrow>
             (case cd_json_marshal cd v of
                Inl e \<Rightarrow> (raw_result raw)\<lparr>cr_decode_err := Some e\<rparr>
              | Inr b \<Rightarrow> (raw_result raw)\<lparr>cr_json_payload := Some b, cr_is_json := True\<rparr>))
      else if codec = ''json'' then
        (case cd_json_unmarshal cd raw of
           Inl e \<Rightarrow> (raw_result raw)\<lparr>cr_decode_err := Some e\<rparr>
         | Inr v \<Rightarrow> (raw_result raw)\<lparr>cr_json_payload := Some raw, cr_is_json := True\<rparr>)
      else raw_result raw)"

section \<open>The buffer\<close>

record telemetry_row =
  tr_time :: instant
  tr_site_id :: string
  tr_device_id :: string
  tr_metric :: string
  tr_payload :: "string option"
  tr_raw :: string
  tr_is_json :: bool

definition message_row :: "ingest_settings \<Rightarrow> 'v codecs \<Rightarrow> instant \<Rightarrow> string \<Rightarrow> string \<Rightarrow> telemetry_row" where
  "message_row c cd now topic payload =
     (let parts = split_on (CHR ''/'') topic;
          known = length parts \<ge> 4;
          decoded = decode_payload cd (ig_payload_codec c) payload
      in \<lparr>tr_time = now, tr_site_id = ig_site_id c,
          tr_device_id = (if known then parts ! 2 else ''''), tr_metric = (if known then parts ! 3 else ''''),
          tr_payload = cr_json_payload decoded, tr_raw = cr_raw decoded, tr_is_json = cr_is_json decoded\<rparr>)"

text \<open>The parameters of the statement and its text.\<close>

datatype sql_arg = ATime instant | AText string | AJson "string option" | ABytes string

definition row_args :: "telemetry_row \<Rightarrow> sql_arg list" where
  "row_args r = [ATime (tr_time r), AText (tr_site_id r), AText (tr_device_id r), AText (tr_metric r),
     AJson (if tr_is_json r then tr_payload r else None), ABytes (tr_raw r)]"

definition flush_args :: "telemetry_row list \<Rightarrow> sql_arg list" where
  "flush_args batch = concat (map row_args batch)"

definition placeholder :: "nat \<Rightarrow> string" where
  "placeholder i = (let base = int i * 6; p = (\<lambda>k. ''$'' @ itoa (base + k)) in
     ''('' @ p 1 @ '','' @ p 2 @ '','' @ p 3 @ '','' @ p 4 @ '','' @ p 5 @ ''::jsonb,'' @ p 6 @ '')'')"

definition insert_query :: "telemetry_row list \<Rightarrow> string" where
  "insert_query batch = ''INSERT INTO telemetry (time, site_id, device_id, metric, payload, raw) VALUES '' @
     join_with '','' (map placeholder [0..<length batch])"

text \<open>
  Three goroutines flush: the message handler when the buffer is full, the ticker, and the main
  goroutine once after the signal.  Each is idle, about to take the buffer, or writing the batch
  it took.  The sections under the mutex are single steps; \<open>is_received\<close> records what came in and
  is not used by any step.
\<close>

datatype worker = Handler | Ticker | Drain
datatype phase = Idle | Flushing | Writing "telemetry_row list"

record ingest_state =
  is_ring :: "telemetry_row list"
  is_phase :: "worker \<Rightarrow> phase"
  is_table :: "sql_arg list list"
  is_stopped :: bool
  is_draining :: bool
  is_exited :: bool
  is_received :: "telemetry_row list"

definition initial_ingest :: ingest_state where
  "initial_ingest = \<lparr>is_ring = [], is_phase = (\<lambda>w. Idle), is_table = [], is_stopped = False, is_draining = False,
     is_exited = False, is_received = []\<rparr>"

definition set_phase :: "worker \<Rightarrow> phase \<Rightarrow> ingest_state \<Rightarrow> ingest_state" where
  "set_phase w p s = s\<lparr>is_phase := (is_phase s)(w := p)\<rparr>"

definition handle_message :: "ingest_settings \<Rightarrow> 'v codecs \<Rightarrow> instant \<Rightarrow> string \<Rightarrow> string \<Rightarrow> ingest_state \<Rightarrow> ingest_state" where
  "handle_message c cd now topic payload s =
     (let row = message_row c cd now topic payload;
          s1 = s\<lparr>is_ring := is_ring s @ [row], is_received := is_received s @ [row]\<rparr>
      in if int (length (is_ring s1)) \<ge> ig_batch_size c then set_phase Handler Flushing s1 else s1)"

text \<open>The three parts of \<^verbatim>\<open>flushNow\<close>: taking the buffer, a write that succeeds, one that fails.\<close>

definition take_batch :: "worker \<Rightarrow> ingest_state \<Rightarrow> ingest_state" where
  "take_batch w s =
     (if is_ring s = [] then set_phase w Idle s
      else set_phase w (Writing (is_ring s)) (s\<lparr>is_ring := []\<rparr>))"

definition batch_stored :: "worker \<Rightarrow> telemetry_row list \<Rightarrow> ingest_state \<Rightarrow> ingest_state" where
  "batch_stored w batch s = set_phase w Idle (s\<lparr>is_table := is_table s @ map row_args batch\<rparr>)"

definition requeue :: "worker \<Rightarrow> telemetry_row list \<Rightarrow> ingest_state \<Rightarrow> ingest_state" where
  "requeue w batch s = set_phase w Idle (s\<lparr>is_ring := batch @ is_ring s\<rparr>)"

text \<open>After the signal the main goroutine disconnects and flushes once more; then the process ends.\<close>

definition begin_drain :: "ingest_state \<Rightarrow> ingest_state" where
  "begin_drain s = set_phase Drain Flushing (s\<lparr>is_draining := True\<rparr>)"

text \<open>
  \<open>accepts\<close> says which statements the database can execute.  With \<open>unclear\<close>, an error may also be
  reported for a statement that took effect (the connection broke after the commit).
\<close>

inductive ingest_step ::
  "ingest_settings \<Rightarrow> 'v codecs \<Rightarrow> (string \<Rightarrow> sql_arg list \<Rightarrow> bool) \<Rightarrow> bool \<Rightarrow> ingest_state \<Rightarrow> ingest_state \<Rightarrow> bool"
  for c cd accepts unclear
where
  Message: "\<not> is_exited s \<Longrightarrow> is_phase s Handler = Idle \<Longrightarrow>
    ingest_step c cd accepts unclear s (handle_message c cd now topic payload s)"
| Tick: "\<not> is_exited s \<Longrightarrow> \<not> is_stopped s \<Longrightarrow> is_phase s Ticker = Idle \<Longrightarrow>
    ingest_step c cd accepts unclear s (set_phase Ticker Flushing s)"
| Signal: "\<not> is_exited s \<Longrightarrow> ingest_step c cd accepts unclear s (s\<lparr>is_stopped := True\<rparr>)"
| Disconnected: "\<not> is_exited s \<Longrightarrow> is_stopped s \<Longrightarrow> \<not> is_draining s \<Longrightarrow> is_phase s Drain = Idle \<Longrightarrow>
    ingest_step c cd accepts unclear s (begin_drain s)"
| Take: "\<not> is_exited s \<Longrightarrow> is_phase s w = Flushing \<Longrightarrow> ingest_step c cd accepts unclear s (take_batch w s)"
| Stored: "\<not> is_exited s \<Longrightarrow> is_phase s w = Writing batch \<Longrightarrow> accepts (insert_query batch) (flush_args batch) \<Longrightarrow>
    ingest_step c cd accepts unclear s (batch_stored w batch s)"
| Failed: "\<not> is_exited s \<Longrightarrow> is_phase s w = Writing batch \<Longrightarrow> ingest_step c cd accepts unclear s (requeue w batch s)"
| Unclear: "\<not> is_exited s \<Longrightarrow> unclear \<Longrightarrow> is_phase s w = Writing batch \<Longrightarrow> accepts (insert_query batch) (flush_args batch) \<Longrightarrow>
    ingest_step c cd accepts unclear s (requeue w batch (batch_stored w batch s))"
| Exit: "\<not> is_exited s \<Longrightarrow> is_draining s \<Longrightarrow> is_phase s Drain = Idle \<Longrightarrow>
    ingest_step c cd accepts unclear s (s\<lparr>is_exited := True\<rparr>)"

inductive_cases ingest_stepE: "ingest_step c cd accepts unclear s s'"

section \<open>The statement\<close>

lemma flush_args_length [simp]: "length (flush_args batch) = 6 * length batch"
  by (induction batch) (simp_all add: flush_args_def row_args_def)

text \<open>The parameters that the placeholders of row \<open>i\<close> name are the fields of row \<open>i\<close>.\<close>

lemma flush_args_nth:
  "i < length batch \<Longrightarrow> k < 6 \<Longrightarrow> flush_args batch ! (6 * i + k) = row_args (batch ! i) ! k"
proof (induction batch arbitrary: i)
  case (Cons r batch)
  have a: "length (row_args r) = 6" by (simp add: row_args_def)
  show ?case
  proof (cases i)
    case 0
    then show ?thesis using Cons.prems a by (simp add: flush_args_def nth_append)
  next
    case (Suc j)
    then have "flush_args (r # batch) ! (6 * i + k) = flush_args batch ! (6 * j + k)"
      using a by (simp add: flush_args_def nth_append)
    then show ?thesis using Cons Suc by simp
  qed
qed simp

section \<open>No telemetry is lost\<close>

fun writing :: "phase \<Rightarrow> telemetry_row list" where
  "writing (Writing batch) = batch"
| "writing p = []"

definition held :: "ingest_state \<Rightarrow> telemetry_row multiset" where
  "held s = mset (is_ring s) + mset (writing (is_phase s Handler)) + mset (writing (is_phase s Ticker)) +
     mset (writing (is_phase s Drain))"

lemma held_phase:
  "writing p = writing (is_phase s w) \<Longrightarrow> held (set_phase w p s) = held s"
  by (cases w) (auto simp: held_def set_phase_def)

lemma held_ring: "held (s\<lparr>is_ring := r\<rparr>) + mset (is_ring s) = held s + mset r"
  by (simp add: held_def)

lemma held_take: "is_phase s w = Flushing \<Longrightarrow> held (take_batch w s) = held s"
  by (cases w) (auto simp: held_def take_batch_def set_phase_def)

lemma held_written:
  assumes "is_phase s w = Writing batch"
  shows "held (batch_stored w batch s) + mset batch = held s" "held (requeue w batch s) = held s"
  using assms by (cases w; simp add: held_def batch_stored_def requeue_def set_phase_def)+

lemma held_message:
  "is_phase s Handler = Idle \<Longrightarrow>
     held (handle_message c cd now topic payload s) = add_mset (message_row c cd now topic payload) (held s)"
  by (auto simp: held_def handle_message_def set_phase_def Let_def)

definition stored_rows :: "ingest_state \<Rightarrow> sql_arg list multiset" where
  "stored_rows s = mset (is_table s) + image_mset row_args (held s)"

lemma step_accounts:
  assumes "ingest_step c cd accepts unclear s s'"
  shows "\<exists>new dup. image_mset row_args (mset (is_received s')) = image_mset row_args (mset (is_received s)) + new \<and>
    stored_rows s' = stored_rows s + new + dup \<and> (\<not> unclear \<longrightarrow> dup = {#})"
  using assms
proof cases
  case (Message now topic payload)
  then show ?thesis
    by (intro exI[of _ "{#row_args (message_row c cd now topic payload)#}"] exI[of _ "{#}"])
      (auto simp: stored_rows_def held_message, auto simp: handle_message_def Let_def set_phase_def)
next
  case (Stored w batch)
  have "image_mset row_args (held s') + mset (map row_args batch) = image_mset row_args (held s)"
    using held_written(1)[OF Stored(3)] Stored(1) by (metis image_mset_union mset_map)
  moreover have "is_table s' = is_table s @ map row_args batch" "is_received s' = is_received s"
    using Stored(1) by (simp_all add: batch_stored_def set_phase_def)
  ultimately show ?thesis
    by (intro exI[of _ "{#}"] conjI) (simp_all add: stored_rows_def add.assoc add.commute)
next
  case (Unclear w batch)
  let ?s1 = "batch_stored w batch s"
  have "held s' = held s"
    using Unclear(1,4) by (cases w) (auto simp: held_def batch_stored_def requeue_def set_phase_def)
  moreover have "is_table s' = is_table s @ map row_args batch" "is_received s' = is_received s"
    using Unclear(1) by (simp_all add: batch_stored_def requeue_def set_phase_def)
  ultimately show ?thesis using Unclear(3)
    by (intro exI[of _ "{#}"] exI[of _ "mset (map row_args batch)"]) (simp add: stored_rows_def)
qed (auto simp: stored_rows_def begin_drain_def held_phase held_take held_written,
    auto simp: held_def set_phase_def take_batch_def requeue_def)

lemma message_row_raw: "tr_raw (message_row c cd now topic payload) = payload"
  by (auto simp: message_row_def decode_payload_def raw_result_def Let_def split: sum.splits)

text \<open>
  C29. Every message the service received has its row in the table, in the buffer or in a batch
  that is being written, whatever interleaving of handler, ticker and shutdown and whatever
  failures of the database; when an error of the database means that nothing was written, it is
  there exactly once.  The row carries the payload as it came, decoded or not.
\<close>

theorem ingest_conserves_rows:
  assumes "(ingest_step c cd accepts unclear)\<^sup>*\<^sup>* initial_ingest s"
  shows "image_mset row_args (mset (is_received s)) \<subseteq># mset (is_table s) + image_mset row_args (held s) \<and>
    (\<not> unclear \<longrightarrow> image_mset row_args (mset (is_received s)) = mset (is_table s) + image_mset row_args (held s)) \<and>
    tr_raw (message_row c cd now topic payload) = payload"
proof -
  have "image_mset row_args (mset (is_received s)) \<subseteq># stored_rows s \<and>
      (\<not> unclear \<longrightarrow> image_mset row_args (mset (is_received s)) = stored_rows s)"
    using assms
  proof (induction rule: rtranclp_induct)
    case base
    then show ?case by (simp add: stored_rows_def held_def initial_ingest_def)
  next
    case (step s s')
    obtain new dup where n: "image_mset row_args (mset (is_received s')) = image_mset row_args (mset (is_received s)) + new"
      "stored_rows s' = stored_rows s + new + dup" "\<not> unclear \<longrightarrow> dup = {#}" using step_accounts[OF step.hyps(2)] by blast
    have "image_mset row_args (mset (is_received s')) \<subseteq># stored_rows s + new" using n(1) step.IH by simp
    also have "\<dots> \<subseteq># stored_rows s'" using n(2) by simp
    finally show ?case using n step.IH by auto
  qed
  then show ?thesis by (simp add: stored_rows_def message_row_raw)
qed

section \<open>A batch that is too large\<close>

text \<open>The rows \<open>rows\<close> wait, together and in order, in the buffer or in one batch.\<close>

definition waits :: "telemetry_row list \<Rightarrow> ingest_state \<Rightarrow> bool" where
  "waits rows s \<longleftrightarrow> sublist rows (is_ring s) \<or> (\<exists>w. sublist rows (writing (is_phase s w)))"

lemma sublist_snoc: "sublist xs ys \<Longrightarrow> sublist xs (ys @ zs)"
  by (erule sublist_order.order.trans) simp

lemma sublist_front: "sublist xs ys \<Longrightarrow> sublist xs (zs @ ys)"
  by (erule sublist_order.order.trans) simp

lemma waits_phase: "writing p = writing (is_phase s w) \<Longrightarrow> waits rows (set_phase w p s) \<longleftrightarrow> waits rows s"
proof -
  assume "writing p = writing (is_phase s w)"
  then have "writing (is_phase (set_phase w p s) v) = writing (is_phase s v)" for v by (simp add: set_phase_def)
  then show ?thesis by (simp add: waits_def set_phase_def)
qed

lemma waits_flags [simp]:
  "waits rows (s\<lparr>is_stopped := a\<rparr>) \<longleftrightarrow> waits rows s" "waits rows (s\<lparr>is_draining := a\<rparr>) \<longleftrightarrow> waits rows s"
  "waits rows (s\<lparr>is_exited := a\<rparr>) \<longleftrightarrow> waits rows s"
  by (simp_all add: waits_def)

lemma waits_step:
  assumes "ingest_step c cd accepts unclear s s'" "waits rows s" "rows \<noteq> []"
    and "\<And>batch. sublist rows batch \<Longrightarrow> \<not> accepts (insert_query batch) (flush_args batch)"
  shows "waits rows s'"
  using assms(1)
proof cases
  case (Message now topic payload)
  then have "is_ring s' = is_ring s @ [message_row c cd now topic payload]"
    "writing (is_phase s' w) = writing (is_phase s w)" for w
    by (auto simp: handle_message_def Let_def set_phase_def)
  then show ?thesis using assms(2) by (auto simp: waits_def intro: sublist_snoc)
next
  case (Take w)
  then have "(\<forall>v. v \<noteq> w \<longrightarrow> is_phase s' v = is_phase s v) \<and>
      (is_ring s' = is_ring s \<and> is_ring s = [] \<or> is_phase s' w = Writing (is_ring s))"
    by (auto simp: take_batch_def set_phase_def)
  moreover have "writing (is_phase s w) = []" using Take by simp
  ultimately show ?thesis using assms(2,3) unfolding waits_def
    by (metis sublist_Nil_right writing.simps(1))
next
  case (Stored w batch)
  then have n: "\<not> sublist rows batch" using assms(4) by blast
  have "is_ring s' = is_ring s \<and> (\<forall>v. v \<noteq> w \<longrightarrow> is_phase s' v = is_phase s v)"
    using Stored(1) by (auto simp: batch_stored_def set_phase_def)
  then show ?thesis using assms(2) n Stored(3) unfolding waits_def by (metis writing.simps(1))
next
  case (Failed w batch)
  then have "is_ring s' = batch @ is_ring s \<and> (\<forall>v. v \<noteq> w \<longrightarrow> is_phase s' v = is_phase s v)" "writing (is_phase s w) = batch"
    by (auto simp: requeue_def set_phase_def)
  then show ?thesis using assms(2) unfolding waits_def
    by (metis sublist_snoc sublist_front)
next
  case (Unclear w batch)
  then have "is_ring s' = batch @ is_ring s \<and> (\<forall>v. v \<noteq> w \<longrightarrow> is_phase s' v = is_phase s v)" "writing (is_phase s w) = batch"
    by (auto simp: requeue_def batch_stored_def set_phase_def)
  then show ?thesis using assms(2) unfolding waits_def
    by (metis sublist_snoc sublist_front)
qed (use assms(2) in \<open>simp_all add: waits_phase begin_drain_def\<close>)

text \<open>
  C30. A buffer that has grown beyond 10922 rows is never written again: a statement with more than
  65535 parameters is refused by the database's protocol, the batch goes back to the front of the
  buffer, and from then on those rows wait in the buffer or in a batch for ever, while the database
  is up.
\<close>

theorem oversized_batch_never_lands:
  assumes "(ingest_step c cd accepts unclear)\<^sup>*\<^sup>* s s'"
    and "10922 < length (is_ring s)"
    and protocol_limit: "\<And>q args. accepts q args \<Longrightarrow> length args \<le> 65535"
  shows "sublist (is_ring s) (is_ring s') \<or> (\<exists>w batch. is_phase s' w = Writing batch \<and> sublist (is_ring s) batch)"
proof -
  have n: "is_ring s \<noteq> []" using assms(2) by auto
  have a: "\<not> accepts (insert_query batch) (flush_args batch)" if "sublist (is_ring s) batch" for batch
    using sublist_length_le[OF that] assms(2) protocol_limit[of "insert_query batch" "flush_args batch"] by auto
  have "waits (is_ring s) s'"
    using assms(1)
  proof (induction rule: rtranclp_induct)
    case (step t t')
    show ?case by (rule waits_step[OF step.hyps(2) step.IH n]) (rule a)
  qed (simp add: waits_def)
  then show ?thesis
    using n by (auto simp: waits_def) (metis sublist_Nil_right writing.elims)
qed

section \<open>Shutdown\<close>

definition received_rows :: "ingest_settings \<Rightarrow> 'v codecs \<Rightarrow> (instant \<times> string \<times> string) list \<Rightarrow> telemetry_row list" where
  "received_rows c cd msgs = map (\<lambda>(t, topic, payload). message_row c cd t topic payload) msgs"

lemma ingest_buffers:
  "int (length msgs) < ig_batch_size c \<Longrightarrow>
     (ingest_step c cd accepts unclear)\<^sup>*\<^sup>* initial_ingest
       (initial_ingest\<lparr>is_ring := received_rows c cd msgs, is_received := received_rows c cd msgs\<rparr>)"
proof (induction msgs rule: rev_induct)
  case Nil
  have "initial_ingest\<lparr>is_ring := [], is_received := []\<rparr> = initial_ingest" by (simp add: initial_ingest_def)
  then show ?case by (simp add: received_rows_def)
next
  case (snoc m msgs)
  obtain t topic payload where m: "m = (t, topic, payload)" by (cases m)
  let ?s = "initial_ingest\<lparr>is_ring := received_rows c cd msgs, is_received := received_rows c cd msgs\<rparr>"
  have "ingest_step c cd accepts unclear ?s (handle_message c cd t topic payload ?s)"
    by (rule Message) (simp_all add: initial_ingest_def)
  moreover have "handle_message c cd t topic payload ?s =
      initial_ingest\<lparr>is_ring := received_rows c cd (msgs @ [m]), is_received := received_rows c cd (msgs @ [m])\<rparr>"
    using snoc.prems by (simp add: handle_message_def Let_def received_rows_def m)
  moreover have "(ingest_step c cd accepts unclear)\<^sup>*\<^sup>* initial_ingest ?s" using snoc by simp
  ultimately show ?case by (metis rtranclp.rtrancl_into_rtrancl)
qed

text \<open>
  C31. A shutdown can lose telemetry that the final flush was meant to save: when the ticker has taken
  the buffer and the signal cancels its write, the final flush finds the buffer empty, the batch goes
  back to the buffer after it, and the process ends.  This can happen to any rows that did not fill a
  batch, with a database that would have taken them, and nothing can happen to them after that.
\<close>

theorem shutdown_can_lose_rows:
  assumes "msgs \<noteq> []" "int (length msgs) < ig_batch_size c"
  shows "\<exists>s. (ingest_step c cd (\<lambda>q args. True) False)\<^sup>*\<^sup>* initial_ingest s \<and> is_received s = received_rows c cd msgs \<and>
    is_exited s \<and> is_draining s \<and> is_table s = [] \<and> is_ring s = received_rows c cd msgs \<and>
    (\<forall>s'. \<not> ingest_step c cd (\<lambda>q args. True) False s s')"
proof -
  let ?R = "ingest_step c cd (\<lambda>q args. True) False" and ?rows = "received_rows c cd msgs"
  define s0 where "s0 = initial_ingest\<lparr>is_ring := ?rows, is_received := ?rows\<rparr>"
  define s1 where "s1 = set_phase Ticker Flushing s0"
  define s2 where "s2 = take_batch Ticker s1"
  define s3 where "s3 = s2\<lparr>is_stopped := True\<rparr>"
  define s4 where "s4 = begin_drain s3"
  define s5 where "s5 = take_batch Drain s4"
  define s6 where "s6 = requeue Ticker ?rows s5"
  define s7 where "s7 = s6\<lparr>is_exited := True\<rparr>"
  note d = s1_def s2_def s3_def s4_def s5_def s6_def s7_def s0_def initial_ingest_def set_phase_def take_batch_def
    begin_drain_def requeue_def
  have n: "?rows \<noteq> []" using assms(1) by (simp add: received_rows_def)
  have "?R\<^sup>*\<^sup>* initial_ingest s0" unfolding s0_def by (rule ingest_buffers[OF assms(2)])
  moreover have "?R s0 s1" unfolding s1_def by (rule Tick) (simp_all add: d)
  moreover have "?R s1 s2" unfolding s2_def by (rule Take) (simp_all add: d)
  moreover have "?R s2 s3" unfolding s3_def by (rule Signal) (use n in \<open>simp add: d\<close>)
  moreover have "?R s3 s4" unfolding s4_def by (rule Disconnected) (use n in \<open>simp_all add: d\<close>)
  moreover have "?R s4 s5" unfolding s5_def by (rule Take) (use n in \<open>simp_all add: d\<close>)
  moreover have "?R s5 s6" unfolding s6_def by (rule Failed) (use n in \<open>simp_all add: d\<close>)
  moreover have "?R s6 s7" unfolding s7_def by (rule Exit) (use n in \<open>simp_all add: d\<close>)
  ultimately have "?R\<^sup>*\<^sup>* initial_ingest s7" by (meson rtranclp.rtrancl_into_rtrancl)
  moreover have "is_received s7 = ?rows \<and> is_exited s7 \<and> is_draining s7 \<and> is_table s7 = [] \<and> is_ring s7 = ?rows"
    using n by (simp add: d)
  moreover have "\<not> ?R s7 s'" for s' by (auto simp: s7_def elim: ingest_stepE)
  ultimately show ?thesis by blast
qed

text \<open>Examples: a service with the default configuration that passes payloads through.\<close>

definition passthrough :: ingest_settings where
  "passthrough = (load_config (\<lambda>k. ''''))\<lparr>ig_payload_codec := ''raw_passthrough''\<rparr>"

definition no_codecs :: "unit codecs" where
  "no_codecs = \<lparr>cd_cbor_unmarshal = (\<lambda>s. Inl ''''), cd_json_marshal = (\<lambda>v. Inl ''''), cd_json_unmarshal = (\<lambda>s. Inl '''')\<rparr>"

theorem ingest_conserves_rows_witness:
  "\<exists>s. (ingest_step passthrough no_codecs (\<lambda>q args. True) False)\<^sup>*\<^sup>* initial_ingest s \<and>
     map tr_raw (is_received s) = [''hi''] \<and>
     image_mset row_args (mset (is_received s)) = mset (is_table s) + image_mset row_args (held s)"
proof -
  let ?step = "ingest_step passthrough no_codecs (\<lambda>q args. True) False"
  let ?s1 = "handle_message passthrough no_codecs 7 ''t/s/d/m'' ''hi'' initial_ingest"
  have "?step initial_ingest ?s1" by (rule Message) (simp_all add: initial_ingest_def)
  then have r: "?step\<^sup>*\<^sup>* initial_ingest ?s1" by blast
  have "is_received ?s1 = [message_row passthrough no_codecs 7 ''t/s/d/m'' ''hi'']"
    by (simp add: handle_message_def initial_ingest_def set_phase_def Let_def)
  then show ?thesis using ingest_conserves_rows[OF r, of 7 "''t/s/d/m''" "''hi''"] r by (intro exI[of _ ?s1]) simp
qed

definition overfull :: ingest_state where
  "overfull = initial_ingest\<lparr>is_ring := replicate 10923 (message_row passthrough no_codecs 7 ''t'' ''x''), is_phase := (\<lambda>w. if w = Ticker then Flushing else Idle)\<rparr>"

theorem oversized_batch_never_lands_witness:
  "\<exists>s'. (ingest_step passthrough no_codecs (\<lambda>q args. length args \<le> 65535) False)\<^sup>*\<^sup>* overfull s' \<and> is_phase s' Ticker = Writing (is_ring overfull) \<and>
     (sublist (is_ring overfull) (is_ring s') \<or> (\<exists>w batch. is_phase s' w = Writing batch \<and> sublist (is_ring overfull) batch))"
proof -
  let ?step = "ingest_step passthrough no_codecs (\<lambda>q args. length args \<le> 65535) False"
  have "?step overfull (take_batch Ticker overfull)"
    by (rule Take) (simp_all add: overfull_def initial_ingest_def)
  then have r: "?step\<^sup>*\<^sup>* overfull (take_batch Ticker overfull)" by blast
  have l: "10922 < length (is_ring overfull)" by (simp add: overfull_def)
  then have "is_ring overfull \<noteq> []" by auto
  then have "is_phase (take_batch Ticker overfull) Ticker = Writing (is_ring overfull)"
    by (simp add: take_batch_def set_phase_def)
  then show ?thesis using r oversized_batch_never_lands[OF r l] by blast
qed

theorem shutdown_can_lose_rows_witness:
  "\<exists>s. (ingest_step passthrough no_codecs (\<lambda>q args. True) False)\<^sup>*\<^sup>* initial_ingest s \<and> is_exited s \<and>
     map tr_raw (is_received s) = [''a'', ''b''] \<and> is_table s = []"
proof -
  let ?msgs = "[(7 :: instant, ''t/s/d/m'', ''a''), (8, ''t/s/d/m'', ''b'')]"
  have b: "int (length ?msgs) < ig_batch_size passthrough" by (simp add: passthrough_def load_config_def env_default_def atoi_def atoi_digits_def Let_def
      is_digit_def digits_val_def digit_val_def min_int64_def max_int64_def)
  have "\<exists>s. (ingest_step passthrough no_codecs (\<lambda>q args. True) False)\<^sup>*\<^sup>* initial_ingest s \<and>
      is_received s = received_rows passthrough no_codecs ?msgs \<and> is_exited s \<and> is_draining s \<and> is_table s = [] \<and>
      is_ring s = received_rows passthrough no_codecs ?msgs \<and>
      (\<forall>s'. \<not> ingest_step passthrough no_codecs (\<lambda>q args. True) False s s')"
    by (rule shutdown_can_lose_rows[OF _ b]) simp
  then obtain s where s: "(ingest_step passthrough no_codecs (\<lambda>q args. True) False)\<^sup>*\<^sup>* initial_ingest s"
    "is_received s = received_rows passthrough no_codecs ?msgs" "is_exited s" "is_table s = []"
    by (elim exE conjE) (rule that)
  have "map tr_raw (is_received s) = [''a'', ''b'']"
    by (simp add: s(2) received_rows_def message_row_raw)
  then show ?thesis using s(1,3,4) by (intro exI[of _ s]) simp
qed

end
