(* ===== verification/Migrate.thy ===== *)
theory Migrate
  imports FileSys Complex_Main
begin

text \<open>
  Package \<^verbatim>\<open>internal/migrate/yaml\<close>: the migrations of \<^verbatim>\<open>tenant.yaml\<close> and \<^verbatim>\<open>site.yaml\<close> between
  schema versions.  The YAML library is a parameter (\<open>yaml\<close>), and so is the tree that
  \<^verbatim>\<open>filepath.WalkDir\<close> visits: a list of its entries in the order of the walk.
\<close>

section \<open>Documents and migrations\<close>

text \<open>A value of a document as far as the package looks at it: numbers, and the rest by its type.\<close>

datatype yaml_value = YInt int | YFloat rat | YOther string

text \<open>A nil map reads as empty; an assignment to it panics.\<close>

type_synonym yaml_map = "(string \<rightharpoonup> yaml_value) option"

record yaml_lib =
  yl_unmarshal :: "blob \<Rightarrow> string + yaml_map"
  yl_marshal :: "yaml_map \<Rightarrow> string + blob"

datatype migrate_error =
    ReadFailed string io_error
  | ParseFailed string string
  | BackupFailed string io_error
  | NoMigration int
  | TransformFailed int string string
  | MarshalFailed string string
  | WriteFailed string io_error
  | PanicNilMap
  | PanicDuplicate int
  | WalkFailed string

type_synonym transform_fn = "yaml_map \<Rightarrow> string + yaml_map"
type_synonym migrations = "int \<rightharpoonup> transform_fn"

definition register_migration :: "int \<Rightarrow> transform_fn \<Rightarrow> migrations \<Rightarrow> migrate_error + migrations" where
  "register_migration v fn reg = (if v \<in> dom reg then Inl (PanicDuplicate v) else Inr (reg(v \<mapsto> fn)))"

definition float_to_int :: "rat \<Rightarrow> int" where
  "float_to_int x = (if x < 0 then \<lceil>x\<rceil> else \<lfloor>x\<rfloor>)"

definition schema_version :: "yaml_map \<Rightarrow> int \<times> string option" where
  "schema_version m =
     (case (case m of None \<Rightarrow> None | Some f \<Rightarrow> f ''schema_version'') of
        None \<Rightarrow> (0, Some ''schema_version missing'')
      | Some (YInt n) \<Rightarrow> (n, None)
      | Some (YFloat x) \<Rightarrow> (float_to_int x, None)
      | Some (YOther t) \<Rightarrow> (0, Some (''schema_version is not a number: '' @ t)))"

text \<open>The loop over the versions, from \<open>v\<close> up to \<open>target\<close>.\<close>

function apply_migrations :: "migrations \<Rightarrow> string \<Rightarrow> int \<Rightarrow> int \<Rightarrow> yaml_map \<Rightarrow> migrate_error + yaml_map" where
  "apply_migrations reg path target v m =
     (if v < target then
        (case reg v of
           None \<Rightarrow> Inl (NoMigration v)
         | Some fn \<Rightarrow>
             (case fn m of
                Inl e \<Rightarrow> Inl (TransformFailed v path e)
              | Inr None \<Rightarrow> Inl PanicNilMap
              | Inr (Some f) \<Rightarrow> apply_migrations reg path target (v + 1) (Some (f(''schema_version'' \<mapsto> YInt (v + 1))))))
      else Inr m)"
  by pat_completeness auto

termination
  by (relation "measure (\<lambda>(reg, path, target, v, m). nat (target - v))") auto

declare apply_migrations.simps [simp del]

text \<open>The part after the backup: migrate, marshal, write back.\<close>

definition rewrite_file :: "yaml_lib \<Rightarrow> migrations \<Rightarrow> string \<Rightarrow> int \<Rightarrow> yaml_map \<Rightarrow> fs \<Rightarrow> (migrate_error + bool) \<times> fs" where
  "rewrite_file yl reg path target m s =
     (case apply_migrations reg path target (fst (schema_version m)) m of
        Inl e \<Rightarrow> (Inl e, s)
      | Inr m' \<Rightarrow>
          (case yl_marshal yl m' of
             Inl e \<Rightarrow> (Inl (MarshalFailed path e), s)
           | Inr out \<Rightarrow>
               (case os_write_file path out s of
                  (Inl e, s1) \<Rightarrow> (Inl (WriteFailed path e), s1)
                | (Inr _, s1) \<Rightarrow> (Inr True, s1))))"

definition migrate_file :: "yaml_lib \<Rightarrow> migrations \<Rightarrow> string \<Rightarrow> int \<Rightarrow> fs \<Rightarrow> (migrate_error + bool) \<times> fs" where
  "migrate_file yl reg path target s =
     (case os_read_file path s of
        (Inl e, s1) \<Rightarrow> (Inl (ReadFailed path e), s1)
      | (Inr raw, s1) \<Rightarrow>
          (case yl_unmarshal yl raw of
             Inl e \<Rightarrow> (Inl (ParseFailed path e), s1)
           | Inr m \<Rightarrow>
               if fst (schema_version m) \<ge> target then (Inr False, s1)
               else case os_write_file (path @ ''.bak'') raw s1 of
                 (Inl e, s2) \<Rightarrow> (Inl (BackupFailed (path @ ''.bak'') e), s2)
               | (Inr _, s2) \<Rightarrow> rewrite_file yl reg path target m s2))"

section \<open>The tree\<close>

datatype walk_entry = WalkError string | WalkDir string | WalkFile string

definition schema_files :: "string list" where
  "schema_files = [''tenant.yaml'', ''site.yaml'']"

text \<open>A dry run looks at the version only.\<close>

definition would_migrate :: "yaml_lib \<Rightarrow> string \<Rightarrow> int \<Rightarrow> fs \<Rightarrow> (migrate_error + bool) \<times> fs" where
  "would_migrate yl path target s =
     (case os_read_file path s of
        (Inl e, s1) \<Rightarrow> (Inl (ReadFailed path e), s1)
      | (Inr raw, s1) \<Rightarrow>
          (case yl_unmarshal yl raw of
             Inl e \<Rightarrow> (Inl (ParseFailed path e), s1)
           | Inr m \<Rightarrow> (Inr (fst (schema_version m) < target), s1)))"

definition visit :: "yaml_lib \<Rightarrow> migrations \<Rightarrow> int \<Rightarrow> bool \<Rightarrow> string \<Rightarrow> fs \<Rightarrow> (migrate_error + bool) \<times> fs" where
  "visit yl reg target dry_run path s =
     (if path_base path \<notin> set schema_files then (Inr False, s)
      else if dry_run then would_migrate yl path target s
      else migrate_file yl reg path target s)"

fun walk_and_migrate ::
  "yaml_lib \<Rightarrow> migrations \<Rightarrow> int \<Rightarrow> bool \<Rightarrow> walk_entry list \<Rightarrow> string list \<Rightarrow> fs \<Rightarrow> (migrate_error option \<times> string list) \<times> fs"
where
  "walk_and_migrate yl reg target dry_run [] acc s = ((None, acc), s)"
| "walk_and_migrate yl reg target dry_run (WalkError e # es) acc s = ((Some (WalkFailed e), acc), s)"
| "walk_and_migrate yl reg target dry_run (WalkDir d # es) acc s = walk_and_migrate yl reg target dry_run es acc s"
| "walk_and_migrate yl reg target dry_run (WalkFile path # es) acc s =
     (case visit yl reg target dry_run path s of
        (Inl e, s1) \<Rightarrow> ((Some e, acc), s1)
      | (Inr did, s1) \<Rightarrow> walk_and_migrate yl reg target dry_run es (if did then acc @ [path] else acc) s1)"

text \<open>The check at the start of the daemon collects what is wrong and goes on.\<close>

datatype offender = Unreadable string io_error | Unparsable string string | TooNew string int

definition check_schema_file :: "yaml_lib \<Rightarrow> int \<Rightarrow> string \<Rightarrow> fs \<Rightarrow> offender list \<times> fs" where
  "check_schema_file yl max_version path s =
     (case os_read_file path s of
        (Inl e, s1) \<Rightarrow> ([Unreadable path e], s1)
      | (Inr raw, s1) \<Rightarrow>
          (case yl_unmarshal yl raw of
             Inl e \<Rightarrow> ([Unparsable path e], s1)
           | Inr m \<Rightarrow> (let v = fst (schema_version m) in if v > max_version then [TooNew path v] else [], s1)))"

fun check_schema_versions :: "yaml_lib \<Rightarrow> int \<Rightarrow> walk_entry list \<Rightarrow> fs \<Rightarrow> offender list \<times> fs" where
  "check_schema_versions yl max_version [] s = ([], s)"
| "check_schema_versions yl max_version (WalkFile path # es) s =
     (if path_base path \<in> set schema_files
      then (case check_schema_file yl max_version path s of (os, s1) \<Rightarrow>
              (case check_schema_versions yl max_version es s1 of (rest, s2) \<Rightarrow> (os @ rest, s2)))
      else check_schema_versions yl max_version es s)"
| "check_schema_versions yl max_version (_ # es) s = check_schema_versions yl max_version es s"

section \<open>What a migration does to the files\<close>

lemma read_file_cases:
  assumes "os_read_file p s = (r, s')"
  shows "fs_files s' = fs_files s \<and> (\<forall>b. r = Inr b \<longrightarrow> fs_files s p = Some b) \<and> (fs_faults s = [] \<longrightarrow> s' = s)"
  using assms by (auto simp: os_read_file_def pop_io_fault_def split: list.splits option.splits prod.splits)

lemma write_file_cases:
  assumes "os_write_file p b s = (r, s')"
  shows "(\<forall>q. q \<noteq> p \<longrightarrow> fs_files s' q = fs_files s q) \<and> (\<forall>u. r = Inr u \<longrightarrow> fs_files s' = (fs_files s)(p \<mapsto> b)) \<and>
    (fs_faults s = [] \<longrightarrow> fs_faults s' = [])"
  using assms by (auto simp: os_write_file_def pop_io_fault_def split: list.splits option.splits prod.splits)

lemma apply_migrations_version:
  "apply_migrations reg path target v m = Inr m' \<Longrightarrow> v < target \<Longrightarrow>
     \<exists>f. m' = Some f \<and> f ''schema_version'' = Some (YInt target)"
proof (induction reg path target v m rule: apply_migrations.induct)
  case (1 reg path target v m)
  obtain fn f where f: "reg v = Some fn" "fn m = Inr (Some f)"
    "apply_migrations reg path target (v + 1) (Some (f(''schema_version'' \<mapsto> YInt (v + 1)))) = Inr m'"
    using "1.prems" by (subst (asm) apply_migrations.simps) (auto split: option.splits sum.splits)
  show ?case
  proof (cases "v + 1 < target")
    case True
    then show ?thesis using "1.IH"[OF "1.prems"(2) f(1,2)] f(3) by simp
  next
    case False
    then have "m' = Some (f(''schema_version'' \<mapsto> YInt (v + 1)))" "v + 1 = target"
      using f(3) "1.prems"(2) by (subst (asm) apply_migrations.simps, simp_all)
    then show ?thesis by simp
  qed
qed

lemma bak_other [simp]: "path @ ''.bak'' \<noteq> path" "path \<noteq> path @ ''.bak''"
  by simp_all

lemma rewrite_file_cases:
  assumes "rewrite_file yl reg path target m s = (r, s')" "fst (schema_version m) < target"
  shows "(\<forall>b. r \<noteq> Inr b) \<and> (\<forall>q. q \<noteq> path \<longrightarrow> fs_files s' q = fs_files s q) \<or>
    (\<exists>f out. r = Inr True \<and> yl_marshal yl (Some f) = Inr out \<and> f ''schema_version'' = Some (YInt target) \<and>
       fs_files s' = (fs_files s)(path \<mapsto> out))"
proof (cases "\<exists>m' out. apply_migrations reg path target (fst (schema_version m)) m = Inr m' \<and> yl_marshal yl m' = Inr out")
  case False
  then show ?thesis using assms(1) by (auto simp: rewrite_file_def split: sum.splits)
next
  case True
  then obtain m' out where a: "apply_migrations reg path target (fst (schema_version m)) m = Inr m'" "yl_marshal yl m' = Inr out"
    by blast
  obtain f where f: "m' = Some f" "f ''schema_version'' = Some (YInt target)"
    using apply_migrations_version[OF a(1) assms(2)] by auto
  obtain x s1 where w: "os_write_file path out s = (x, s1)" by fastforce
  have "s' = s1" "r = (case x of Inl e \<Rightarrow> Inl (WriteFailed path e) | Inr _ \<Rightarrow> Inr True)"
    using assms(1) a w by (auto simp: rewrite_file_def split: sum.splits)
  then show ?thesis using write_file_cases[OF w] a(2) f by (cases x) auto
qed

text \<open>The ways a migration can end.\<close>

lemma migrate_file_cases:
  assumes "migrate_file yl reg path target s = (r, s')"
  obtains (failed) "\<And>b. r \<noteq> Inr b" "fs_files s' path = fs_files s path \<or> fs_files s' (path @ ''.bak'') = fs_files s path"
      "\<And>q. q \<noteq> path \<Longrightarrow> q \<noteq> path @ ''.bak'' \<Longrightarrow> fs_files s' q = fs_files s q"
  | (current) raw m where "r = Inr False" "fs_files s path = Some raw" "yl_unmarshal yl raw = Inr m"
      "target \<le> fst (schema_version m)" "fs_files s' = fs_files s"
  | (migrated) raw m f out where "r = Inr True" "fs_files s path = Some raw" "yl_unmarshal yl raw = Inr m"
      "fst (schema_version m) < target" "yl_marshal yl (Some f) = Inr out" "f ''schema_version'' = Some (YInt target)"
      "fs_files s' = (fs_files s)(path @ ''.bak'' \<mapsto> raw, path \<mapsto> out)"
proof -
  obtain q s1 where rd: "os_read_file path s = (q, s1)" by fastforce
  note rc = read_file_cases[OF rd]
  show thesis
  proof (cases "\<exists>raw m. q = Inr raw \<and> yl_unmarshal yl raw = Inr m")
    case False
    then show thesis using assms rd rc by (intro failed) (auto simp: migrate_file_def split: sum.splits)
  next
    case True
    then obtain raw m where m: "q = Inr raw" "yl_unmarshal yl raw = Inr m" by blast
    obtain w s2 where wr: "os_write_file (path @ ''.bak'') raw s1 = (w, s2)" by fastforce
    note wc = write_file_cases[OF wr]
    consider "target \<le> fst (schema_version m)" | "fst (schema_version m) < target" "\<exists>e. w = Inl e"
      | "fst (schema_version m) < target" "\<exists>u. w = Inr u" by (cases w) (auto simp: not_le[symmetric])
    then show thesis
    proof cases
      case 1
      then show thesis using assms rd rc m by (intro current[of raw m]) (auto simp: migrate_file_def)
    next
      case 2
      then show thesis using assms rd rc m wr wc by (intro failed) (auto simp: migrate_file_def)
    next
      case 3
      then have "rewrite_file yl reg path target m s2 = (r, s')" using assms rd m wr by (auto simp: migrate_file_def)
      from rewrite_file_cases[OF this 3(1)] show thesis
      proof (elim disjE exE conjE)
        fix f out
        assume "r = Inr True" "yl_marshal yl (Some f) = Inr out" "f ''schema_version'' = Some (YInt target)"
          "fs_files s' = (fs_files s2)(path \<mapsto> out)"
        then show thesis using rc wc m 3 by (intro migrated[of raw m f out]) auto
      qed (use rc wc m 3 in \<open>intro failed, auto\<close>)
    qed
  qed
qed

text \<open>
  What a second run needs of the YAML library: a version that was written into a document, an integer
  under a plain name, is read back as that integer.  Of the rest nothing is asked: a library may well
  read an empty document where none was written, or an integer where a whole float was.
\<close>

definition reads_version_back :: "yaml_lib \<Rightarrow> bool" where
  "reads_version_back yl \<longleftrightarrow>
     (\<forall>f out n. yl_marshal yl (Some f) = Inr out \<longrightarrow> f ''schema_version'' = Some (YInt n) \<longrightarrow>
        (\<exists>m. yl_unmarshal yl out = Inr m \<and> schema_version m = (n, None)))"

text \<open>
  C32. A migration is safe: a file of a current version is left alone; a migrated file has exactly
  the target version, and its old content is in the backup; after any failure, also of a write
  that leaves half a file, the old content is still in the file or in the backup.  No other file
  is touched, and, with a YAML library that reads the version back which it has written, a second run
  that meets no failure finds nothing to do.
\<close>

theorem migrate_file_safe:
  assumes "migrate_file yl reg path target s = (r, s')"
  shows "(\<forall>q. q \<noteq> path \<and> q \<noteq> path @ ''.bak'' \<longrightarrow> fs_files s' q = fs_files s q) \<and>
    (case r of
       Inl e \<Rightarrow> fs_files s' path = fs_files s path \<or> fs_files s' (path @ ''.bak'') = fs_files s path
     | Inr False \<Rightarrow> fs_files s' = fs_files s
     | Inr True \<Rightarrow> fs_files s' (path @ ''.bak'') = fs_files s path \<and>
         (\<exists>f out. fs_files s' path = Some out \<and> yl_marshal yl (Some f) = Inr out \<and> schema_version (Some f) = (target, None)) \<and>
         (reads_version_back yl \<and> fs_faults s' = [] \<longrightarrow> migrate_file yl reg path target s' = (Inr False, s')))"
proof -
  have again: "migrate_file yl reg path target s' = (Inr False, s')"
    if m: "fs_files s' path = Some out" "yl_marshal yl (Some f) = Inr out" "f ''schema_version'' = Some (YInt target)"
      "reads_version_back yl" "fs_faults s' = []" for out f
  proof -
    obtain x where "yl_unmarshal yl out = Inr x" "schema_version x = (target, None)"
      using m(2-4) unfolding reads_version_back_def by blast
    then show ?thesis using m(1,5) by (simp add: migrate_file_def os_read_file_def pop_io_fault_def)
  qed
  show ?thesis
    using assms
    by (cases rule: migrate_file_cases; cases r) (auto simp: schema_version_def again)
qed

text \<open>
  A library for the examples.  As the real one, it writes a nil map as an empty document and reads an
  empty map back, and it reads a whole float back as an integer.
\<close>

definition plain_yaml :: yaml_lib where
  "plain_yaml = \<lparr>yl_unmarshal = (\<lambda>b. if b = RawBytes ''v1'' then Inr (Some [''schema_version'' \<mapsto> YInt 1])
       else if b = RawBytes ''v2'' then Inr (Some [''schema_version'' \<mapsto> YInt 2])
       else if b = RawBytes ''{}'' then Inr (Some Map.empty) else Inl ''bad document''),
     yl_marshal = (\<lambda>m. if m = Some [''schema_version'' \<mapsto> YInt 1] \<or> m = Some [''schema_version'' \<mapsto> YFloat 1] then Inr (RawBytes ''v1'')
       else if m = Some [''schema_version'' \<mapsto> YInt 2] then Inr (RawBytes ''v2'')
       else if m = None then Inr (RawBytes ''{}'') else Inl ''bad map'')\<rparr>"

lemma plain_yaml_reads_version_back: "reads_version_back plain_yaml"
  by (auto simp: reads_version_back_def plain_yaml_def schema_version_def split: if_splits)

definition one_migration :: migrations where
  "one_migration = [1 \<mapsto> Inr]"

definition old_tree :: fs where
  "old_tree = \<lparr>fs_files = [''/t/tenant.yaml'' \<mapsto> RawBytes ''v1''], fs_faults = []\<rparr>"

lemma old_tree_migrates:
  "migrate_file plain_yaml one_migration ''/t/tenant.yaml'' 2 old_tree =
     (Inr True, \<lparr>fs_files = [''/t/tenant.yaml'' \<mapsto> RawBytes ''v2'', ''/t/tenant.yaml.bak'' \<mapsto> RawBytes ''v1''], fs_faults = []\<rparr>)"
proof -
  have a: "apply_migrations one_migration path 2 1 (Some [''schema_version'' \<mapsto> YInt 1]) = Inr (Some [''schema_version'' \<mapsto> YInt 2])" for path
    by (subst apply_migrations.simps, simp add: one_migration_def, subst apply_migrations.simps, simp)
  have v: "schema_version (Some [''schema_version'' \<mapsto> YInt 1]) = (1, None)" by (simp add: schema_version_def)
  have d: "[''schema_version'' \<mapsto> YInt 2] \<noteq> [''schema_version'' \<mapsto> YInt (1::int)]"
    by (auto dest!: fun_cong[of _ _ "''schema_version''"])
  have d': "Some [''schema_version'' \<mapsto> YInt 2] \<noteq> Some [''schema_version'' \<mapsto> YFloat 1]"
    by (auto dest!: fun_cong[of _ _ "''schema_version''"])
  have e: "([''/t/tenant.yaml'' \<mapsto> RawBytes ''v1''] :: string \<rightharpoonup> blob)(''/t/tenant.yaml.bak'' \<mapsto> RawBytes ''v1'', ''/t/tenant.yaml'' \<mapsto> RawBytes ''v2'')
    = [''/t/tenant.yaml'' \<mapsto> RawBytes ''v2'', ''/t/tenant.yaml.bak'' \<mapsto> RawBytes ''v1'']" by (rule ext) simp
  show ?thesis
    by (simp add: migrate_file_def old_tree_def os_read_file_def os_write_file_def pop_io_fault_def plain_yaml_def v rewrite_file_def a d d'[simplified] e)
qed

theorem migrate_file_safe_witness:
  "\<exists>s'. migrate_file plain_yaml one_migration ''/t/tenant.yaml'' 2 old_tree = (Inr True, s') \<and>
     fs_files s' ''/t/tenant.yaml.bak'' = Some (RawBytes ''v1'') \<and>
     migrate_file plain_yaml one_migration ''/t/tenant.yaml'' 2 s' = (Inr False, s')"
proof -
  obtain s' where m: "migrate_file plain_yaml one_migration ''/t/tenant.yaml'' 2 old_tree = (Inr True, s')" "fs_faults s' = []"
    using old_tree_migrates by simp
  then show ?thesis using migrate_file_safe[OF m(1)] plain_yaml_reads_version_back by (auto simp: old_tree_def)
qed

section \<open>A dry run\<close>

lemma split_on_append_plain: "CHR ''/'' \<notin> set x \<Longrightarrow> split_on (CHR ''/'') (p @ x) = butlast (split_on (CHR ''/'') p) @ [last (split_on (CHR ''/'') p) @ x]"
proof (induction p)
  case Nil
  then show ?case by (induction x) auto
next
  case (Cons a p)
  then show ?case by (cases "split_on (CHR ''/'') p") auto
qed

lemma bak_not_schema: "path_base (p @ ''.bak'') \<notin> set schema_files"
proof -
  have "path_base (p @ ''.bak'') = last (split_on (CHR ''/'') p) @ ''.bak''"
    by (simp add: path_base_def split_on_append_plain Let_def)
  moreover have "last (last (split_on (CHR ''/'') p) @ ''.bak'') = CHR ''k''" by simp
  ultimately have "last (path_base (p @ ''.bak'')) = CHR ''k''" by metis
  then show ?thesis by (auto simp: schema_files_def)
qed

lemma visit_agrees:
  assumes "visit yl reg target False path s = (Inr b, s1)" "fs_files s path = fs_files t path" "fs_faults t = []"
  shows "visit yl reg target True path t = (Inr b, t)"
proof (cases "path_base path \<in> set schema_files")
  case True
  then have m: "migrate_file yl reg path target s = (Inr b, s1)" using assms(1) by (simp add: visit_def)
  have r: "os_read_file path t = (Inr raw, t)" if "fs_files s path = Some raw" for raw
    using that assms(2,3) by (simp add: os_read_file_def pop_io_fault_def)
  show ?thesis using m
    by (cases rule: migrate_file_cases) (auto simp: visit_def True would_migrate_def r)
qed (use assms in \<open>simp add: visit_def\<close>)

lemma visit_leaves:
  assumes "visit yl reg target False path s = (Inr b, s1)" "q \<noteq> path" "path_base q \<in> set schema_files"
  shows "fs_files s1 q = fs_files s q"
proof (cases "path_base path \<in> set schema_files")
  case True
  then have m: "migrate_file yl reg path target s = (Inr b, s1)" using assms(1) by (simp add: visit_def)
  have n: "q \<noteq> path @ ''.bak''" using assms(3) bak_not_schema by metis
  from m show ?thesis by (cases rule: migrate_file_cases) (use n assms(2) in auto)
qed (use assms in \<open>simp add: visit_def\<close>)

fun walk_paths :: "walk_entry list \<Rightarrow> string list" where
  "walk_paths [] = []"
| "walk_paths (WalkFile p # es) = p # walk_paths es"
| "walk_paths (_ # es) = walk_paths es"

lemma dry_run_general:
  assumes "walk_and_migrate yl reg target False es acc s = ((None, out), s')" "distinct (walk_paths es)" "fs_faults t = []"
    and "\<And>q. q \<in> set (walk_paths es) \<Longrightarrow> path_base q \<in> set schema_files \<Longrightarrow> fs_files s q = fs_files t q"
  shows "walk_and_migrate yl reg target True es acc t = ((None, out), t)"
  using assms
proof (induction es arbitrary: acc s)
  case (Cons e es)
  show ?case
  proof (cases e)
    case (WalkFile path)
    obtain b s1 where v: "visit yl reg target False path s = (Inr b, s1)"
      "walk_and_migrate yl reg target False es (if b then acc @ [path] else acc) s1 = ((None, out), s')"
      using Cons.prems(1) WalkFile by (auto split: prod.splits sum.splits)
    have "visit yl reg target True path t = (Inr b, t)"
    proof (cases "path_base path \<in> set schema_files")
      case True
      then show ?thesis using visit_agrees[OF v(1) _ Cons.prems(3)] Cons.prems(4) WalkFile by simp
    qed (use v(1) in \<open>simp add: visit_def\<close>)
    moreover have "fs_files s1 q = fs_files t q" if "q \<in> set (walk_paths es)" "path_base q \<in> set schema_files" for q
      using that Cons.prems(2) Cons.prems(4)[of q] WalkFile visit_leaves[OF v(1), of q] by auto
    then have "walk_and_migrate yl reg target True es (if b then acc @ [path] else acc) t = ((None, out), t)"
      using Cons.prems(2) WalkFile by (intro Cons.IH[OF v(2) _ Cons.prems(3)]) auto
    ultimately show ?thesis using WalkFile by simp
  qed (use Cons in auto)
qed simp

text \<open>
  C33. The dry run tells the truth: whenever the real run over a tree succeeds, a dry run before it
  lists exactly the files that the real run migrates, and changes nothing.
\<close>

theorem dry_run_predicts:
  assumes "walk_and_migrate yl reg target False es [] s = ((None, out), s')" "distinct (walk_paths es)" "fs_faults s = []"
  shows "walk_and_migrate yl reg target True es [] s = ((None, out), s)"
  by (rule dry_run_general[OF assms]) simp

theorem dry_run_predicts_witness:
  "\<exists>s'. walk_and_migrate plain_yaml one_migration 2 False [WalkDir ''/t'', WalkFile ''/t/tenant.yaml'', WalkFile ''/t/notes''] [] old_tree
       = ((None, [''/t/tenant.yaml'']), s') \<and>
     walk_and_migrate plain_yaml one_migration 2 True [WalkDir ''/t'', WalkFile ''/t/tenant.yaml'', WalkFile ''/t/notes''] [] old_tree
       = ((None, [''/t/tenant.yaml'']), old_tree)"
proof -
  let ?es = "[WalkDir ''/t'', WalkFile ''/t/tenant.yaml'', WalkFile ''/t/notes'']"
  obtain s1 where m: "migrate_file plain_yaml one_migration ''/t/tenant.yaml'' 2 old_tree = (Inr True, s1)"
    using old_tree_migrates by blast
  have b: "path_base ''/t/tenant.yaml'' = ''tenant.yaml''" "path_base ''/t/notes'' = ''notes''"
    by (simp_all add: path_base_def Let_def)
  have v: "visit plain_yaml one_migration 2 False ''/t/tenant.yaml'' old_tree = (Inr True, s1)"
    "visit plain_yaml one_migration 2 False ''/t/notes'' s1 = (Inr False, s1)"
    using m by (simp_all add: visit_def b schema_files_def)
  have w: "walk_and_migrate plain_yaml one_migration 2 False ?es [] old_tree = ((None, [''/t/tenant.yaml'']), s1)"
    by (simp add: v)
  then show ?thesis using dry_run_predicts[OF w] by (auto simp: old_tree_def)
qed

end
