(* ===== verification/Router.thy ===== *)
theory Router
  imports Server
begin

text \<open>
  The routes of \<^verbatim>\<open>buildRouter\<close> (\<^verbatim>\<open>internal/daemon/server.go\<close>): the table of methods and patterns,
  and how the path parameters, the query and the body become the arguments of a handler.  The
  multiplexer itself (\<^verbatim>\<open>chi\<close>) is a parameter: it is given the table, the method and the path and
  names the route with the values of its parameters.
\<close>

section \<open>The table\<close>

datatype http_method = GET | POST | PATCH | DELETE

text \<open>A pattern is a list of segments: fixed text, or a parameter in braces.\<close>

datatype segment = Lit string | Par

datatype route =
    RHealth | RCapacity | RCreateTenant | RListTenants | RGetTenant | RUpdateTenant | RDeleteTenant
  | RCreateSite | RListSites | RGetSite | RUpdateSite | RDeleteSite
  | RStartTenant | RStopTenant | RStartSite | RStopSite | RPublish | RLogs | RApply | RStatus
  | RIssueCert | RRevokeCert

definition tenants_pattern :: "segment list" where "tenants_pattern = [Lit ''v1'', Lit ''tenants'']"
definition tenant_pattern :: "segment list" where "tenant_pattern = tenants_pattern @ [Par]"
definition sites_pattern :: "segment list" where "sites_pattern = tenant_pattern @ [Lit ''sites'']"
definition site_pattern :: "segment list" where "site_pattern = sites_pattern @ [Par]"

definition route_table :: "(http_method \<times> segment list \<times> route) list" where
  "route_table =
    [(GET, [Lit ''v1'', Lit ''health''], RHealth),
     (GET, [Lit ''v1'', Lit ''capacity''], RCapacity),
     (POST, tenants_pattern, RCreateTenant),
     (GET, tenants_pattern, RListTenants),
     (GET, tenant_pattern, RGetTenant),
     (PATCH, tenant_pattern, RUpdateTenant),
     (DELETE, tenant_pattern, RDeleteTenant),
     (POST, sites_pattern, RCreateSite),
     (GET, sites_pattern, RListSites),
     (GET, site_pattern, RGetSite),
     (PATCH, site_pattern, RUpdateSite),
     (DELETE, site_pattern, RDeleteSite),
     (POST, tenant_pattern @ [Lit ''start''], RStartTenant),
     (POST, tenant_pattern @ [Lit ''stop''], RStopTenant),
     (POST, site_pattern @ [Lit ''start''], RStartSite),
     (POST, site_pattern @ [Lit ''stop''], RStopSite),
     (POST, site_pattern @ [Lit ''publish''], RPublish),
     (GET, site_pattern @ [Lit ''logs''], RLogs),
     (POST, [Lit ''v1'', Lit ''apply'', Par], RApply),
     (GET, [Lit ''v1'', Lit ''status''], RStatus),
     (POST, site_pattern @ [Lit ''pki'', Lit ''certs''], RIssueCert),
     (DELETE, site_pattern @ [Lit ''pki'', Lit ''certs'', Par], RRevokeCert)]"

text \<open>A path fits a pattern when the fixed segments agree; the parameters are the others, not empty.\<close>

fun fits :: "segment list \<Rightarrow> string list \<Rightarrow> string list option" where
  "fits [] [] = Some []"
| "fits (Lit x # ps) (y # ys) = (if x = y then fits ps ys else None)"
| "fits (Par # ps) (y # ys) = (if y = '''' then None else map_option (\<lambda>vs. y # vs) (fits ps ys))"
| "fits _ _ = None"

type_synonym mux = "(http_method \<times> segment list \<times> route) list \<Rightarrow> http_method \<Rightarrow> string list \<Rightarrow> (route \<times> string list) option"

section \<open>URLs and bodies\<close>

text \<open>
  The URLs of the clients are plain: no escapes.  The query is the part after the first question
  mark, a list of \<^verbatim>\<open>key=value\<close> joined by ampersands; \<^verbatim>\<open>Query().Get\<close> gives the first value of a key.
\<close>

fun cut :: "char \<Rightarrow> string \<Rightarrow> string \<times> string option" where
  "cut c [] = ([], None)"
| "cut c (x # xs) = (if x = c then ([], Some xs) else let (a, b) = cut c xs in (x # a, b))"

definition query_pairs :: "string option \<Rightarrow> (string \<times> string) list" where
  "query_pairs q = (case q of None \<Rightarrow> [] | Some s \<Rightarrow>
     map (\<lambda>p. let (k, v) = cut (CHR ''='') p in (k, case v of None \<Rightarrow> '''' | Some x \<Rightarrow> x))
       (filter (\<lambda>p. p \<noteq> '''') (split_on (CHR ''&'') s)))"

definition query_get :: "string \<Rightarrow> (string \<times> string) list \<Rightarrow> string" where
  "query_get k q = (case map_of q k of None \<Rightarrow> '''' | Some v \<Rightarrow> v)"

definition path_segments :: "string \<Rightarrow> string list" where
  "path_segments path = (case split_on (CHR ''/'') path of [] \<Rightarrow> [] | x # xs \<Rightarrow> if x = '''' then xs else x # xs)"

text \<open>
  A body is absent, or a JSON object with keys spelled as the tags of the structs; a field that is
  missing or null keeps its zero value, one of another type is an error, and of two values for a
  key the last one counts.
\<close>

datatype json = JString string | JNumber int | JNull

type_synonym json_body = "(string \<times> json) list option"

definition field :: "string \<Rightarrow> (string \<times> json) list \<Rightarrow> json" where
  "field k obj = (case map_of (rev obj) k of None \<Rightarrow> JNull | Some v \<Rightarrow> v)"

definition bad_type :: "string \<Rightarrow> string" where
  "bad_type k = ''json: cannot unmarshal into field '' @ k"

definition string_field :: "string \<Rightarrow> (string \<times> json) list \<Rightarrow> string + string" where
  "string_field k obj = (case field k obj of JString s \<Rightarrow> Inr s | JNull \<Rightarrow> Inr '''' | JNumber _ \<Rightarrow> Inl (bad_type k))"

definition optional_field :: "string \<Rightarrow> (string \<times> json) list \<Rightarrow> string + string option" where
  "optional_field k obj = (case field k obj of JString s \<Rightarrow> Inr (Some s) | JNull \<Rightarrow> Inr None | JNumber _ \<Rightarrow> Inl (bad_type k))"

definition int_field :: "string \<Rightarrow> (string \<times> json) list \<Rightarrow> string + int" where
  "int_field k obj = (case field k obj of JNumber n \<Rightarrow> Inr n | JNull \<Rightarrow> Inr 0 | JString _ \<Rightarrow> Inl (bad_type k))"

definition decode_body :: "((string \<times> json) list \<Rightarrow> string + 'r) \<Rightarrow> json_body \<Rightarrow> string + 'r" where
  "decode_body f b = (case b of None \<Rightarrow> Inl ''EOF'' | Some obj \<Rightarrow> f obj)"

definition and_then :: "string + 'a \<Rightarrow> ('a \<Rightarrow> string + 'b) \<Rightarrow> string + 'b" where
  "and_then r k = (case r of Inl e \<Rightarrow> Inl e | Inr x \<Rightarrow> k x)"

definition decode_create_tenant :: "(string \<times> json) list \<Rightarrow> string + create_tenant_req" where
  "decode_create_tenant obj =
     and_then (string_field ''slug'' obj) (\<lambda>a. and_then (string_field ''name'' obj) (\<lambda>b.
     and_then (string_field ''domain'' obj) (\<lambda>c. and_then (string_field ''retention'' obj) (\<lambda>d.
     and_then (string_field ''project_id'' obj) (\<lambda>e.
       Inr \<lparr>ct_slug = a, ct_name = b, ct_domain = c, ct_retention = d, ct_project_id = e\<rparr>)))))"

definition decode_update_tenant :: "(string \<times> json) list \<Rightarrow> string + update_tenant_req" where
  "decode_update_tenant obj =
     and_then (optional_field ''retention'' obj) (\<lambda>a. and_then (string_field ''name'' obj) (\<lambda>b.
     and_then (string_field ''domain'' obj) (\<lambda>c. and_then (optional_field ''project_id'' obj) (\<lambda>d.
       Inr \<lparr>ut_retention = a, ut_name = b, ut_domain = c, ut_project_id = d\<rparr>))))"

definition decode_create_site :: "(string \<times> json) list \<Rightarrow> string + create_site_req" where
  "decode_create_site obj =
     and_then (string_field ''slug'' obj) (\<lambda>a. and_then (string_field ''broker_kind'' obj) (\<lambda>b.
     and_then (string_field ''throughput'' obj) (\<lambda>c. and_then (string_field ''direction'' obj) (\<lambda>d.
     and_then (string_field ''payload_codec'' obj) (\<lambda>e.
       Inr \<lparr>cs_slug = a, cs_broker_kind = b, cs_throughput = c, cs_direction = d, cs_payload_codec = e\<rparr>)))))"

definition decode_update_site :: "(string \<times> json) list \<Rightarrow> string + update_site_req" where
  "decode_update_site obj =
     and_then (string_field ''payload_codec'' obj) (\<lambda>a. and_then (string_field ''direction'' obj) (\<lambda>b.
       Inr \<lparr>us_payload_codec = a, us_direction = b\<rparr>))"

definition decode_publish :: "(string \<times> json) list \<Rightarrow> string + publish_req" where
  "decode_publish obj =
     and_then (string_field ''topic'' obj) (\<lambda>a. and_then (string_field ''payload'' obj) (\<lambda>b.
     and_then (int_field ''qos'' obj) (\<lambda>c. Inr \<lparr>pb_topic = a, pb_payload = b, pb_qos = c\<rparr>)))"

definition decode_issue_cert :: "(string \<times> json) list \<Rightarrow> string + issue_cert_req" where
  "decode_issue_cert obj =
     and_then (string_field ''gateway'' obj) (\<lambda>a. and_then (int_field ''ttl_days'' obj) (\<lambda>b.
       Inr \<lparr>ic_gateway = a, ic_ttl_days = b\<rparr>))"

section \<open>Dispatch\<close>

record http_request =
  hr_method :: http_method
  hr_url :: string
  hr_body :: json_body

definition has_query :: "string \<Rightarrow> (string \<times> string) list \<Rightarrow> string option" where
  "has_query k q = map_of q k"

text \<open>The parameters a route has in its pattern.\<close>

definition no_param :: "string list \<Rightarrow> request \<Rightarrow> request option" where
  "no_param ps r = (case ps of [] \<Rightarrow> Some r | _ \<Rightarrow> None)"

definition param1 :: "string list \<Rightarrow> (string \<Rightarrow> request) \<Rightarrow> request option" where
  "param1 ps f = (case ps of [x] \<Rightarrow> Some (f x) | _ \<Rightarrow> None)"

definition param2 :: "string list \<Rightarrow> (string \<Rightarrow> string \<Rightarrow> request) \<Rightarrow> request option" where
  "param2 ps f = (case ps of [x, y] \<Rightarrow> Some (f x y) | _ \<Rightarrow> None)"

definition param3 :: "string list \<Rightarrow> (string \<Rightarrow> string \<Rightarrow> string \<Rightarrow> request) \<Rightarrow> request option" where
  "param3 ps f = (case ps of [x, y, z] \<Rightarrow> Some (f x y z) | _ \<Rightarrow> None)"

definition route_request :: "route \<Rightarrow> string list \<Rightarrow> (string \<times> string) list \<Rightarrow> json_body \<Rightarrow> request option" where
  "route_request rt ps q b =
     (case rt of
        RHealth \<Rightarrow> no_param ps (Health)
      | RCapacity \<Rightarrow> no_param ps (Capacity)
      | RCreateTenant \<Rightarrow> no_param ps (CreateTenant (decode_body decode_create_tenant b))
      | RListTenants \<Rightarrow> no_param ps (ListTenants (has_query ''project_id'' q))
      | RGetTenant \<Rightarrow> param1 ps (\<lambda>t. GetTenant t)
      | RUpdateTenant \<Rightarrow> param1 ps (\<lambda>t. UpdateTenant t (decode_body decode_update_tenant b))
      | RDeleteTenant \<Rightarrow> param1 ps (\<lambda>t. DeleteTenant t (query_get ''purge'' q))
      | RCreateSite \<Rightarrow> param1 ps (\<lambda>t. CreateSite t (decode_body decode_create_site b))
      | RListSites \<Rightarrow> param1 ps (\<lambda>t. ListSites t)
      | RGetSite \<Rightarrow> param2 ps (\<lambda>t s. GetSite t s)
      | RUpdateSite \<Rightarrow> param2 ps (\<lambda>t s. UpdateSite t s (decode_body decode_update_site b))
      | RDeleteSite \<Rightarrow> param2 ps (\<lambda>t s. DeleteSite t s (query_get ''purge'' q))
      | RStartTenant \<Rightarrow> param1 ps (\<lambda>t. StartTenant t)
      | RStopTenant \<Rightarrow> param1 ps (\<lambda>t. StopTenant t)
      | RStartSite \<Rightarrow> param2 ps (\<lambda>t s. StartSite t s)
      | RStopSite \<Rightarrow> param2 ps (\<lambda>t s. StopSite t s)
      | RPublish \<Rightarrow> param2 ps (\<lambda>t s. Publish t s (decode_body decode_publish b))
      | RLogs \<Rightarrow> param2 ps (\<lambda>t s. Logs t s (query_get ''service'' q) (query_get ''tail'' q))
      | RApply \<Rightarrow> param1 ps (\<lambda>p. Apply p (query_get ''wait'' q) None)
      | RStatus \<Rightarrow> no_param ps (Status)
      | RIssueCert \<Rightarrow> param2 ps (\<lambda>t s. IssueCert t s (decode_body decode_issue_cert b))
      | RRevokeCert \<Rightarrow> param3 ps (\<lambda>t s f. RevokeCert t s f))"

text \<open>A request that finds no route is answered by the multiplexer (404 or 405).\<close>

definition dispatch :: "mux \<Rightarrow> http_request \<Rightarrow> request option" where
  "dispatch mux r =
     (case cut (CHR ''?'') (hr_url r) of (path, q) \<Rightarrow>
        (case mux route_table (hr_method r) (path_segments path) of
           None \<Rightarrow> None
         | Some (rt, ps) \<Rightarrow> route_request rt ps (query_pairs q) (hr_body r)))"

section \<open>What the multiplexer promises\<close>

text \<open>
  The documented contract: a parameter stands for one segment, and a request is given to the
  route its method and path fit.  Where several routes fit, nothing is assumed.
\<close>

definition candidates :: "(http_method \<times> segment list \<times> route) list \<Rightarrow> http_method \<Rightarrow> string list \<Rightarrow> (route \<times> string list) list" where
  "candidates table m segs = List.map_filter (\<lambda>(m', p, r). if m' = m then map_option (\<lambda>vs. (r, vs)) (fits p segs) else None) table"

definition serves :: "mux \<Rightarrow> bool" where
  "serves mux \<longleftrightarrow> (\<forall>m segs r vs. candidates route_table m segs = [(r, vs)] \<longrightarrow> mux route_table m segs = Some (r, vs))"

definition first_fit :: mux where
  "first_fit table m segs = (case candidates table m segs of [] \<Rightarrow> None | c # cs \<Rightarrow> Some c)"

locale multiplexer =
  fixes mux :: mux
  assumes hit: "candidates route_table m segs = [(r, vs)] \<Longrightarrow> mux route_table m segs = Some (r, vs)"

lemma multiplexer_serves: "multiplexer mux \<longleftrightarrow> serves mux"
  by (simp add: multiplexer_def serves_def)

interpretation first_fit: multiplexer first_fit
  by unfold_locales (simp add: first_fit_def)

lemma first_fit_serves: "serves first_fit"
  using first_fit.multiplexer_axioms by (simp add: multiplexer_serves)

lemmas table_defs = candidates_def route_table_def tenants_pattern_def tenant_pattern_def sites_pattern_def site_pattern_def
  List.map_filter_simps

end
