(* ===== verification/Cli.thy ===== *)
theory Cli
  imports Router Migrate
begin

text \<open>
  The program \<^verbatim>\<open>cmd/controlai\<close>: the requests its commands send to the daemon, the commands that work
  on the registry and the files themselves, and the checks before the daemon starts.  Parsing the
  arguments (\<^verbatim>\<open>cobra\<close>) and printing are left out: a command is a value with the arguments and flags
  it was given.  The transport, \<^verbatim>\<open>docker\<close>, the shell and the network are parameters.
\<close>

section \<open>Commands that call the API\<close>

datatype tenant_command =
    TenantCreate string string string
  | TenantList
  | TenantRm string bool
  | TenantStart string
  | TenantStop string

datatype site_command =
    SiteCreate string string string string string string
  | SiteList string
  | SiteStop string string
  | SiteStart string string
  | SiteRm string string bool
  | SiteApply string string int

datatype command =
    TenantCmd tenant_command
  | SiteCmd site_command
  | CapacityCmd
  | StatusCmd
  | CertIssue string string int
  | CertRevoke string string
  | ApplyCmd string int

datatype install_error = ShellFailed "string list" string | InstallIO string io_error

datatype cli_error =
    Usage string
  | DaemonUnavailable string
  | HttpStatus nat
  | OpenStore string
  | TokenError token_error
  | CliStore store_error
  | MigrateError migrate_error
  | CliPki pki_error
  | CliRender string render_error
  | CliIO string io_error
  | StartShared string
  | Offenders "offender list"
  | StepFailed string install_error

definition api_get :: "string \<Rightarrow> http_request" where
  "api_get path = \<lparr>hr_method = GET, hr_url = path, hr_body = None\<rparr>"

definition api_post :: "string \<Rightarrow> json_body \<Rightarrow> http_request" where
  "api_post path body = \<lparr>hr_method = POST, hr_url = path, hr_body = body\<rparr>"

definition api_delete :: "string \<Rightarrow> http_request" where
  "api_delete path = \<lparr>hr_method = DELETE, hr_url = path, hr_body = None\<rparr>"

definition tenant_url :: "string \<Rightarrow> string" where
  "tenant_url t = ''/v1/tenants/'' @ t"

definition site_url :: "string \<Rightarrow> string \<Rightarrow> string" where
  "site_url t s = ''/v1/tenants/'' @ t @ ''/sites/'' @ s"

definition purge_suffix :: "bool \<Rightarrow> string" where
  "purge_suffix purge = (if purge then ''?purge=true'' else '''')"

text \<open>\<^verbatim>\<open>strings.SplitN(site, "/", 2)\<close> must give two parts.\<close>

definition site_flag :: "string \<Rightarrow> cli_error + string \<times> string" where
  "site_flag x =
     (if x = '''' then Inl (Usage ''--site is required (format: <tenant-id>/<site-id>)'')
      else case cut (CHR ''/'') x of
        (t, None) \<Rightarrow> Inl (Usage ''--site must be in format <tenant-id>/<site-id>, e.g. tnt_acme/ste_seoul'')
      | (t, Some s) \<Rightarrow> Inr (t, s))"

fun tenant_cmd :: "tenant_command \<Rightarrow> http_request" where
  "tenant_cmd (TenantCreate slug domain retention) = api_post ''/v1/tenants''
     (Some [(''domain'', JString domain), (''retention'', JString retention), (''slug'', JString slug)])"
| "tenant_cmd TenantList = api_get ''/v1/tenants''"
| "tenant_cmd (TenantRm t purge) = api_delete (tenant_url t @ purge_suffix purge)"
| "tenant_cmd (TenantStart t) = api_post (tenant_url t @ ''/start'') None"
| "tenant_cmd (TenantStop t) = api_post (tenant_url t @ ''/stop'') None"

fun site_cmd :: "site_command \<Rightarrow> http_request" where
  "site_cmd (SiteCreate t slug broker throughput direction codec) = api_post (tenant_url t @ ''/sites'')
     (Some [(''broker_kind'', JString broker), (''direction'', JString direction), (''payload_codec'', JString codec),
            (''slug'', JString slug), (''throughput'', JString throughput)])"
| "site_cmd (SiteList t) = api_get (tenant_url t @ ''/sites'')"
| "site_cmd (SiteStop t s) = api_post (site_url t s @ ''/stop'') None"
| "site_cmd (SiteStart t s) = api_post (site_url t s @ ''/start'') None"
| "site_cmd (SiteRm t s purge) = api_delete (site_url t s @ purge_suffix purge)"
| "site_cmd (SiteApply t s timeout) = api_post (''/v1/apply/'' @ t @ ''-'' @ s @ ''?wait='' @ itoa timeout) None"

definition cert_issue_command :: "string \<Rightarrow> string \<Rightarrow> int \<Rightarrow> cli_error + http_request" where
  "cert_issue_command site gateway ttl_days =
     (if site = '''' then Inl (Usage ''--site is required (format: <tenant-id>/<site-id>)'')
      else if gateway = '''' then Inl (Usage ''--gateway is required'')
      else case site_flag site of
        Inl e \<Rightarrow> Inl e
      | Inr (t, s) \<Rightarrow> Inr (api_post (site_url t s @ ''/pki/certs'')
          (Some [(''gateway'', JString gateway), (''ttl_days'', JNumber ttl_days)])))"

definition cert_revoke_command :: "string \<Rightarrow> string \<Rightarrow> cli_error + http_request" where
  "cert_revoke_command site fp =
     (case site_flag site of
        Inl e \<Rightarrow> Inl e
      | Inr (t, s) \<Rightarrow> Inr (api_delete (site_url t s @ ''/pki/certs/'' @ fp)))"

definition apply_cmd :: "string \<Rightarrow> int \<Rightarrow> http_request" where
  "apply_cmd p timeout = api_post (''/v1/apply/'' @ p @ ''?wait='' @ itoa timeout) None"

definition capacity_cmd :: http_request where
  "capacity_cmd = api_get ''/v1/capacity''"

definition status_cmd :: http_request where
  "status_cmd = api_get ''/v1/status''"

fun cli_request :: "command \<Rightarrow> cli_error + http_request" where
  "cli_request (TenantCmd c) = Inr (tenant_cmd c)"
| "cli_request (SiteCmd c) = Inr (site_cmd c)"
| "cli_request CapacityCmd = Inr capacity_cmd"
| "cli_request StatusCmd = Inr status_cmd"
| "cli_request (CertIssue site gateway ttl) = cert_issue_command site gateway ttl"
| "cli_request (CertRevoke site fp) = cert_revoke_command site fp"
| "cli_request (ApplyCmd p timeout) = Inr (apply_cmd p timeout)"

text \<open>The values of flags that were not given.\<close>

definition flag_or :: "'a \<Rightarrow> 'a option \<Rightarrow> 'a" where
  "flag_or d x = (case x of None \<Rightarrow> d | Some v \<Rightarrow> v)"

definition tenant_create_flags :: "string \<Rightarrow> string option \<Rightarrow> string option \<Rightarrow> command" where
  "tenant_create_flags slug domain retention =
     TenantCmd (TenantCreate slug (flag_or '''' domain) (flag_or ''7d'' retention))"

definition site_create_flags ::
  "string \<Rightarrow> string \<Rightarrow> string option \<Rightarrow> string option \<Rightarrow> string option \<Rightarrow> string option \<Rightarrow> command"
where
  "site_create_flags t slug broker throughput direction codec =
     SiteCmd (SiteCreate t slug (flag_or ''mosquitto'' broker) (flag_or ''low'' throughput) (flag_or ''uni'' direction)
       (flag_or ''cbor'' codec))"

definition site_apply_flags :: "string \<Rightarrow> string \<Rightarrow> int option \<Rightarrow> command" where
  "site_apply_flags t s timeout = SiteCmd (SiteApply t s (flag_or 120 timeout))"

definition apply_flags :: "string \<Rightarrow> int option \<Rightarrow> command" where
  "apply_flags p timeout = ApplyCmd p (flag_or 120 timeout)"

definition cert_issue_flags :: "string option \<Rightarrow> string option \<Rightarrow> int option \<Rightarrow> command" where
  "cert_issue_flags site gateway ttl = CertIssue (flag_or '''' site) (flag_or '''' gateway) (flag_or 365 ttl)"

text \<open>The transport gives the response or fails; a status from 400 on is an error of the command.\<close>

definition cli_call :: "(http_request \<Rightarrow> string + response) \<Rightarrow> command \<Rightarrow> cli_error option" where
  "cli_call transport c =
     (case cli_request c of
        Inl e \<Rightarrow> Some e
      | Inr r \<Rightarrow>
          (case transport r of
             Inl e \<Rightarrow> Some (DaemonUnavailable e)
           | Inr resp \<Rightarrow> if rs_status resp \<ge> 400 then Some (HttpStatus (rs_status resp)) else None))"

section \<open>The names of the commands\<close>

text \<open>
  The lines \<^verbatim>\<open>Use\<close> from the top of the command line down to each command.  The first word of such a
  line is the name of the command, by which the library finds it.
\<close>

fun tenant_uses :: "tenant_command \<Rightarrow> string list" where
  "tenant_uses (TenantCreate _ _ _) = [''tenant'', ''create <slug>'']"
| "tenant_uses TenantList = [''tenant'', ''list'']"
| "tenant_uses (TenantRm _ _) = [''tenant'', ''rm <tenant-id>'']"
| "tenant_uses (TenantStart _) = [''tenant'', ''start <tenant-id>'']"
| "tenant_uses (TenantStop _) = [''tenant'', ''stop <tenant-id>'']"

fun site_uses :: "site_command \<Rightarrow> string list" where
  "site_uses (SiteCreate _ _ _ _ _ _) = [''site'', ''create <tenant-id> <slug>'']"
| "site_uses (SiteList _) = [''site'', ''list <tenant-id>'']"
| "site_uses (SiteStop _ _) = [''site'', ''stop <tenant-id> <site-id>'']"
| "site_uses (SiteStart _ _) = [''site'', ''start <tenant-id> <site-id>'']"
| "site_uses (SiteRm _ _ _) = [''site'', ''rm <tenant-id> <site-id>'']"
| "site_uses (SiteApply _ _ _) = [''site'', ''apply <tenant-id> <site-id>'']"

fun command_uses :: "command \<Rightarrow> string list" where
  "command_uses (TenantCmd c) = tenant_uses c"
| "command_uses (SiteCmd c) = site_uses c"
| "command_uses CapacityCmd = [''capacity'']"
| "command_uses StatusCmd = [''status'']"
| "command_uses (CertIssue _ _ _) = [''pki'', ''cert'', ''cert issue --site <tenant-id/site-id> --gateway <name>'']"
| "command_uses (CertRevoke _ _) = [''pki'', ''cert'', ''cert revoke --site <tenant-id/site-id> <fingerprint>'']"
| "command_uses (ApplyCmd _ _) = [''apply <selector>'']"

definition first_word :: "string \<Rightarrow> string" where
  "first_word use = takeWhile (\<lambda>c. c \<noteq> CHR '' '') use"

text \<open>The words by which the documentation calls a command.\<close>

fun command_words :: "command \<Rightarrow> string list" where
  "command_words (TenantCmd c) = [''tenant'', case c of TenantCreate _ _ _ \<Rightarrow> ''create'' | TenantList \<Rightarrow> ''list''
     | TenantRm _ _ \<Rightarrow> ''rm'' | TenantStart _ \<Rightarrow> ''start'' | TenantStop _ \<Rightarrow> ''stop'']"
| "command_words (SiteCmd c) = [''site'', case c of SiteCreate _ _ _ _ _ _ \<Rightarrow> ''create'' | SiteList _ \<Rightarrow> ''list''
     | SiteStop _ _ \<Rightarrow> ''stop'' | SiteStart _ _ \<Rightarrow> ''start'' | SiteRm _ _ _ \<Rightarrow> ''rm'' | SiteApply _ _ _ \<Rightarrow> ''apply'']"
| "command_words CapacityCmd = [''capacity'']"
| "command_words StatusCmd = [''status'']"
| "command_words (CertIssue _ _ _) = [''pki'', ''cert'', ''issue'']"
| "command_words (CertRevoke _ _) = [''pki'', ''cert'', ''revoke'']"
| "command_words (ApplyCmd _ _) = [''apply'']"

text \<open>The words of a command lead to it.\<close>

definition reachable_command :: "command \<Rightarrow> bool" where
  "reachable_command c \<longleftrightarrow> map first_word (command_uses c) = command_words c"

lemma reachable_tenant [simp]: "reachable_command (TenantCmd t)"
  by (cases t) (simp_all add: reachable_command_def first_word_def)

lemma reachable_site [simp]: "reachable_command (SiteCmd s)"
  by (cases s) (simp_all add: reachable_command_def first_word_def)

lemma reachable_others [simp]:
  "reachable_command CapacityCmd" "reachable_command StatusCmd" "reachable_command (ApplyCmd p n)"
  by (simp_all add: reachable_command_def first_word_def)

text \<open>
  The two commands for certificates are not called as they are documented: below a command named
  \<^verbatim>\<open>cert\<close> both are named \<^verbatim>\<open>cert\<close> again, so their names do not tell them apart either.
\<close>

lemma cert_commands_misnamed:
  "\<not> reachable_command (CertIssue site gateway ttl)" "\<not> reachable_command (CertRevoke site fp)"
  "map first_word (command_uses (CertIssue site gateway ttl)) = [''pki'', ''cert'', ''cert'']"
  "map first_word (command_uses (CertRevoke site fp)) = [''pki'', ''cert'', ''cert'']"
  by (simp_all add: reachable_command_def first_word_def)

section \<open>What a command asks for\<close>

text \<open>The request of the API that a command stands for.\<close>

fun tenant_meaning :: "tenant_command \<Rightarrow> request" where
  "tenant_meaning (TenantCreate slug domain retention) =
     CreateTenant (Inr \<lparr>ct_slug = slug, ct_name = '''', ct_domain = domain, ct_retention = retention, ct_project_id = ''''\<rparr>)"
| "tenant_meaning TenantList = ListTenants None"
| "tenant_meaning (TenantRm t purge) = DeleteTenant t (if purge then ''true'' else '''')"
| "tenant_meaning (TenantStart t) = StartTenant t"
| "tenant_meaning (TenantStop t) = StopTenant t"

fun site_meaning :: "site_command \<Rightarrow> request" where
  "site_meaning (SiteCreate t slug broker throughput direction codec) =
     CreateSite t (Inr \<lparr>cs_slug = slug, cs_broker_kind = broker, cs_throughput = throughput, cs_direction = direction,
       cs_payload_codec = codec\<rparr>)"
| "site_meaning (SiteList t) = ListSites t"
| "site_meaning (SiteStop t s) = StopSite t s"
| "site_meaning (SiteStart t s) = StartSite t s"
| "site_meaning (SiteRm t s purge) = DeleteSite t s (if purge then ''true'' else '''')"
| "site_meaning (SiteApply t s timeout) = Apply (t @ ''-'' @ s) (itoa timeout) None"

text \<open>An identifier that needs no escapes in a URL, and the commands made of them.\<close>

definition plain_id :: "string \<Rightarrow> bool" where
  "plain_id x \<longleftrightarrow> x \<noteq> '''' \<and> list_all (\<lambda>c. is_lower c \<or> is_upper c \<or> is_digit c \<or> c = CHR ''_'' \<or> c = CHR ''-'') x"

fun tenant_plain :: "tenant_command \<Rightarrow> bool" where
  "tenant_plain (TenantRm t purge) = plain_id t"
| "tenant_plain (TenantStart t) = plain_id t"
| "tenant_plain (TenantStop t) = plain_id t"
| "tenant_plain _ = True"

fun site_plain :: "site_command \<Rightarrow> bool" where
  "site_plain (SiteCreate t slug broker throughput direction codec) = plain_id t"
| "site_plain (SiteList t) = plain_id t"
| "site_plain (SiteStop t s) = (plain_id t \<and> plain_id s)"
| "site_plain (SiteStart t s) = (plain_id t \<and> plain_id s)"
| "site_plain (SiteRm t s purge) = (plain_id t \<and> plain_id s)"
| "site_plain (SiteApply t s timeout) = (plain_id t \<and> plain_id s)"

fun meaning :: "command \<Rightarrow> request option" where
  "meaning (TenantCmd c) = (if tenant_plain c then Some (tenant_meaning c) else None)"
| "meaning (SiteCmd c) = (if site_plain c then Some (site_meaning c) else None)"
| "meaning CapacityCmd = Some Capacity"
| "meaning StatusCmd = Some Status"
| "meaning (CertIssue site gateway ttl) =
     (case cut (CHR ''/'') site of
        (t, Some s) \<Rightarrow> if plain_id t \<and> plain_id s \<and> gateway \<noteq> ''''
          then Some (IssueCert t s (Inr \<lparr>ic_gateway = gateway, ic_ttl_days = ttl\<rparr>)) else None
      | _ \<Rightarrow> None)"
| "meaning (CertRevoke site fp) =
     (case cut (CHR ''/'') site of
        (t, Some s) \<Rightarrow> if plain_id t \<and> plain_id s \<and> plain_id fp then Some (RevokeCert t s fp) else None
      | _ \<Rightarrow> None)"
| "meaning (ApplyCmd p timeout) = (if plain_id p then Some (Apply p (itoa timeout) None) else None)"

section \<open>Splitting a URL that was put together\<close>

lemma cut_absent: "c \<notin> set x \<Longrightarrow> cut c x = (x, None)"
  by (induction x) auto

lemma cut_present: "c \<notin> set x \<Longrightarrow> cut c (x @ c # y) = (x, Some y)"
  by (induction x) auto

lemma plain_id_chars:
  assumes "plain_id x"
  shows "CHR ''/'' \<notin> set x" "CHR ''?'' \<notin> set x" "CHR ''='' \<notin> set x" "CHR ''&'' \<notin> set x" "x \<noteq> ''''"
  using assms by (auto simp: plain_id_def list_all_iff is_lower_def is_upper_def is_digit_def)

lemma itoa_chars: "set (itoa i) \<subseteq> {c. is_digit c} \<union> {CHR ''-''}" "itoa i \<noteq> ''''"
  using nat_digits_digit by (auto simp: itoa_def list_all_iff)

lemma itoa_plain: "CHR ''?'' \<notin> set (itoa i)" "CHR ''='' \<notin> set (itoa i)" "CHR ''&'' \<notin> set (itoa i)"
  using itoa_chars(1)[of i] by (auto simp: is_digit_def)

lemmas split_url = path_segments_def split_on_single split_on_append plain_id_chars

lemma tenant_path:
  assumes "plain_id t"
  shows "path_segments (tenant_url t) = [''v1'', ''tenants'', t]"
    "CHR ''/'' \<notin> set x \<Longrightarrow> path_segments (tenant_url t @ CHR ''/'' # x) = [''v1'', ''tenants'', t, x]"
  using assms by (simp_all add: tenant_url_def split_url)

lemma site_path:
  assumes "plain_id t" "plain_id s"
  shows "path_segments (site_url t s) = [''v1'', ''tenants'', t, ''sites'', s]"
    "CHR ''/'' \<notin> set x \<Longrightarrow> path_segments (site_url t s @ CHR ''/'' # x) = [''v1'', ''tenants'', t, ''sites'', s, x]"
    "CHR ''/'' \<notin> set x \<Longrightarrow> CHR ''/'' \<notin> set y \<Longrightarrow>
       path_segments (site_url t s @ CHR ''/'' # x @ CHR ''/'' # y) = [''v1'', ''tenants'', t, ''sites'', s, x, y]"
    "CHR ''/'' \<notin> set x \<Longrightarrow> CHR ''/'' \<notin> set y \<Longrightarrow> CHR ''/'' \<notin> set z \<Longrightarrow>
       path_segments (site_url t s @ CHR ''/'' # x @ CHR ''/'' # y @ CHR ''/'' # z) = [''v1'', ''tenants'', t, ''sites'', s, x, y, z]"
  using assms by (simp_all add: site_url_def split_url)

lemma no_query:
  "plain_id t \<Longrightarrow> CHR ''?'' \<notin> set x \<Longrightarrow> cut (CHR ''?'') (tenant_url t @ x) = (tenant_url t @ x, None)"
  "plain_id t \<Longrightarrow> plain_id s \<Longrightarrow> CHR ''?'' \<notin> set x \<Longrightarrow> cut (CHR ''?'') (site_url t s @ x) = (site_url t s @ x, None)"
  by (simp_all add: cut_absent tenant_url_def site_url_def plain_id_chars)

lemmas api_defs = api_get_def api_post_def api_delete_def purge_suffix_def

lemmas route_params = route_request_def no_param_def param1_def param2_def param3_def query_pairs_def query_get_def has_query_def

lemmas body_defs = decode_body_def and_then_def string_field_def int_field_def field_def decode_create_tenant_def
  decode_create_site_def decode_issue_cert_def

lemma plain_id_join: "plain_id t \<Longrightarrow> plain_id s \<Longrightarrow> plain_id (t @ ''-'' @ s)"
  by (simp add: plain_id_def)

section \<open>Every command finds its handler\<close>

context multiplexer
begin

lemma serves_routes:
    "mux route_table GET [''v1'', ''capacity''] = Some (RCapacity, [])"
    "mux route_table GET [''v1'', ''status''] = Some (RStatus, [])"
    "mux route_table GET [''v1'', ''tenants''] = Some (RListTenants, [])"
    "mux route_table POST [''v1'', ''tenants''] = Some (RCreateTenant, [])"
    "t \<noteq> '''' \<Longrightarrow> mux route_table DELETE [''v1'', ''tenants'', t] = Some (RDeleteTenant, [t])"
    "t \<noteq> '''' \<Longrightarrow> mux route_table POST [''v1'', ''tenants'', t, ''start''] = Some (RStartTenant, [t])"
    "t \<noteq> '''' \<Longrightarrow> mux route_table POST [''v1'', ''tenants'', t, ''stop''] = Some (RStopTenant, [t])"
    "t \<noteq> '''' \<Longrightarrow> mux route_table POST [''v1'', ''tenants'', t, ''sites''] = Some (RCreateSite, [t])"
    "t \<noteq> '''' \<Longrightarrow> mux route_table GET [''v1'', ''tenants'', t, ''sites''] = Some (RListSites, [t])"
    "t \<noteq> '''' \<Longrightarrow> s \<noteq> '''' \<Longrightarrow> mux route_table DELETE [''v1'', ''tenants'', t, ''sites'', s] = Some (RDeleteSite, [t, s])"
    "t \<noteq> '''' \<Longrightarrow> s \<noteq> '''' \<Longrightarrow> mux route_table POST [''v1'', ''tenants'', t, ''sites'', s, ''start''] = Some (RStartSite, [t, s])"
    "t \<noteq> '''' \<Longrightarrow> s \<noteq> '''' \<Longrightarrow> mux route_table POST [''v1'', ''tenants'', t, ''sites'', s, ''stop''] = Some (RStopSite, [t, s])"
    "t \<noteq> '''' \<Longrightarrow> s \<noteq> '''' \<Longrightarrow> mux route_table POST [''v1'', ''tenants'', t, ''sites'', s, ''pki'', ''certs''] = Some (RIssueCert, [t, s])"
    "t \<noteq> '''' \<Longrightarrow> s \<noteq> '''' \<Longrightarrow> f \<noteq> '''' \<Longrightarrow>
       mux route_table DELETE [''v1'', ''tenants'', t, ''sites'', s, ''pki'', ''certs'', f] = Some (RRevokeCert, [t, s, f])"
    "p \<noteq> '''' \<Longrightarrow> mux route_table POST [''v1'', ''apply'', p] = Some (RApply, [p])"
  by (rule hit; simp add: table_defs)+

lemma tenant_cmd_dispatch:
  assumes "tenant_plain c"
  shows "dispatch mux (tenant_cmd c) = Some (tenant_meaning c)"
proof (cases c)
  case (TenantCreate slug domain retention)
  then show ?thesis
    by (simp add: dispatch_def api_defs path_segments_def serves_routes route_params body_defs)
next
  case TenantList
  then show ?thesis by (simp add: dispatch_def api_defs path_segments_def serves_routes route_params)
next
  case (TenantRm t purge)
  then have t: "plain_id t" using assms by simp
  have q: "cut (CHR ''?'') (tenant_url t @ purge_suffix purge) = (tenant_url t, if purge then Some ''purge=true'' else None)"
    using t by (simp add: purge_suffix_def cut_absent cut_present tenant_url_def plain_id_chars)
  show ?thesis
    by (simp add: TenantRm api_get_def api_delete_def dispatch_def q tenant_path[OF t] serves_routes
        plain_id_chars[OF t] route_params)
next
  case (TenantStart t)
  then show ?thesis using assms
    by (simp add: api_defs dispatch_def no_query tenant_path plain_id_chars serves_routes route_params)
next
  case (TenantStop t)
  then show ?thesis using assms
    by (simp add: api_defs dispatch_def no_query tenant_path plain_id_chars serves_routes route_params)
qed

lemma apply_dispatch:
  assumes "plain_id p"
  shows "dispatch mux (apply_cmd p n) = Some (Apply p (itoa n) None)"
proof -
  have "cut (CHR ''?'') ((''/v1/apply/'' @ p) @ CHR ''?'' # ''wait='' @ itoa n) = (''/v1/apply/'' @ p, Some (''wait='' @ itoa n))"
    using assms by (intro cut_present) (simp add: plain_id_chars)
  moreover have "path_segments (''/v1/apply/'' @ p) = [''v1'', ''apply'', p]"
    using assms by (simp add: split_url)
  moreover have "query_pairs (Some (''wait='' @ itoa n)) = [(''wait'', itoa n)]"
    by (simp add: query_pairs_def split_on_single itoa_plain)
  ultimately show ?thesis
    using assms by (simp add: dispatch_def apply_cmd_def api_post_def serves_routes plain_id_chars)
      (simp add: route_request_def param1_def query_get_def)
qed

lemma site_cmd_dispatch:
  assumes "site_plain c"
  shows "dispatch mux (site_cmd c) = Some (site_meaning c)"
proof (cases c)
  case (SiteRm t s purge)
  then have t: "plain_id t" "plain_id s" using assms by simp_all
  have q: "cut (CHR ''?'') (site_url t s @ purge_suffix purge) = (site_url t s, if purge then Some ''purge=true'' else None)"
    using t cut_present[of "CHR ''?''" "site_url t s"] no_query(2)[of t s "''''"]
    by (simp add: purge_suffix_def site_url_def plain_id_chars)
  show ?thesis
    by (simp add: SiteRm api_get_def api_delete_def dispatch_def q site_path[OF t] serves_routes
        plain_id_chars[OF t(1)] plain_id_chars[OF t(2)] route_params)
next
  case (SiteApply t s timeout)
  then show ?thesis using apply_dispatch[OF plain_id_join[of t s]] assms by (simp add: apply_cmd_def)
qed (use assms in \<open>simp_all add: api_defs dispatch_def no_query tenant_path site_path plain_id_chars serves_routes
    route_params body_defs\<close>)

lemma cert_dispatch:
  assumes "plain_id t" "plain_id s"
  shows "dispatch mux (api_post (site_url t s @ ''/pki/certs'') (Some [(''gateway'', JString g), (''ttl_days'', JNumber n)])) =
      Some (IssueCert t s (Inr \<lparr>ic_gateway = g, ic_ttl_days = n\<rparr>))"
    "plain_id f \<Longrightarrow> dispatch mux (api_delete (site_url t s @ ''/pki/certs/'' @ f)) = Some (RevokeCert t s f)"
  using assms site_path(3)[of t s "''pki''" "''certs''"] site_path(4)[of t s "''pki''" "''certs''" f]
  by (simp_all add: api_defs dispatch_def no_query plain_id_chars serves_routes, simp_all add: route_params body_defs)

text \<open>
  The method, the URL and the body that a command puts together are routed and decoded to exactly
  the request the command stands for.
\<close>

lemma cli_reaches_handler:
  assumes "meaning c = Some req"
  shows "\<exists>r. cli_request c = Inr r \<and> dispatch mux r = Some req"
proof (cases c)
  case (TenantCmd x)
  then show ?thesis using assms by (auto simp: tenant_cmd_dispatch split: if_splits)
next
  case (SiteCmd x)
  then show ?thesis using assms by (auto simp: site_cmd_dispatch split: if_splits)
next
  case (CertIssue site gateway ttl)
  then show ?thesis using assms
    by (auto simp: cert_issue_command_def site_flag_def cert_dispatch split: prod.splits option.splits if_splits)
next
  case (CertRevoke site fp)
  then obtain t s where c: "cut (CHR ''/'') site = (t, Some s)" and plain: "plain_id t" "plain_id s" "plain_id fp"
      and req: "req = RevokeCert t s fp"
    using assms by (auto split: prod.splits option.splits if_splits)
  then have site: "site_flag site = Inr (t, s)" by (auto simp: site_flag_def)
  show ?thesis
    using cert_dispatch(2)[OF plain] by (simp add: CertRevoke cert_revoke_command_def site req)
next
  case (ApplyCmd p timeout)
  then show ?thesis using assms by (auto simp: apply_dispatch split: if_splits)
qed (use assms in \<open>simp_all add: capacity_cmd_def status_cmd_def dispatch_def api_get_def path_segments_def serves_routes
    route_params\<close>)

end

text \<open>The defaults of \<^verbatim>\<open>site create\<close> and \<^verbatim>\<open>tenant create\<close> are values the daemon accepts.\<close>

lemma default_flags_valid:
  "site_create_flags t slug None None None None = SiteCmd (SiteCreate t slug b th dir codec) \<Longrightarrow>
     b \<in> set valid_broker_kinds \<and> th \<in> set valid_tiers \<and> dir \<in> set valid_directions \<and> codec \<in> set valid_codecs \<and>
     \<not> isl (site_profile b th dir)"
  "tenant_create_flags slug None None = TenantCmd (TenantCreate slug base ret) \<Longrightarrow> ret \<in> set valid_retentions"
  by (auto simp: site_create_flags_def tenant_create_flags_def flag_or_def valid_broker_kinds_def valid_tiers_def
      valid_directions_def valid_codecs_def valid_retentions_def site_profile_def profiles_def mk_key_def)

end
