(* ===== verification/Schema.thy ===== *)
theory Schema
  imports Store "HOL-Library.Sublist"
begin

text \<open>
  Opening the registry (\<^verbatim>\<open>sqlite.Open\<close>): the schema of \<^verbatim>\<open>migrations/0001_init.sql\<close> and the guarded
  migration 0002.  The database file is a list of tables with their columns and rows, and the
  names of its indexes; every statement may be refused, which stops \<^verbatim>\<open>Open\<close> where it is, and a
  query may break off after some of its rows.
\<close>

section \<open>The file\<close>

datatype sql_value = SNull | SText string | SInt int

record sql_table =
  tb_columns :: "string list"
  tb_rows :: "(string \<times> sql_value) list list"

datatype sq_fault = Refused string | Broken string nat

record sqlite_file =
  sq_tables :: "(string \<times> sql_table) list"
  sq_indexes :: "string list"
  sq_faults :: "sq_fault option list"

datatype ddl =
    Pragma string
  | CreateTable string "string list"
  | CreateIndex string string "string list"
  | AddColumn string string sql_value

definition empty_file :: sqlite_file where
  "empty_file = \<lparr>sq_tables = [], sq_indexes = [], sq_faults = []\<rparr>"

definition columns_of :: "string \<Rightarrow> sqlite_file \<Rightarrow> string list" where
  "columns_of t f = (case map_of (sq_tables f) t of None \<Rightarrow> [] | Some tb \<Rightarrow> tb_columns tb)"

definition add_column :: "string \<Rightarrow> sql_value \<Rightarrow> sql_table \<Rightarrow> sql_table" where
  "add_column c d tb = \<lparr>tb_columns = tb_columns tb @ [c], tb_rows = map (\<lambda>r. r @ [(c, d)]) (tb_rows tb)\<rparr>"

text \<open>A table or an index that exists is left alone (\<^verbatim>\<open>IF NOT EXISTS\<close>); an index needs its columns.\<close>

fun run_ddl :: "ddl \<Rightarrow> sqlite_file \<Rightarrow> string + sqlite_file" where
  "run_ddl (Pragma p) f = Inr f"
| "run_ddl (CreateTable t cols) f =
     (if t \<in> fst ` set (sq_tables f) then Inr f
      else Inr (f\<lparr>sq_tables := sq_tables f @ [(t, \<lparr>tb_columns = cols, tb_rows = []\<rparr>)]\<rparr>))"
| "run_ddl (CreateIndex i t cols) f =
     (if t \<notin> fst ` set (sq_tables f) then Inl (''no such table: main.'' @ t)
      else if i \<in> set (sq_indexes f) then Inr f
      else if \<not> set cols \<subseteq> set (columns_of t f) then Inl ''no such column''
      else Inr (f\<lparr>sq_indexes := sq_indexes f @ [i]\<rparr>))"
| "run_ddl (AddColumn t c d) f =
     (if t \<notin> fst ` set (sq_tables f) then Inl (''no such table: '' @ t)
      else if c \<in> set (columns_of t f) then Inl (''duplicate column name: '' @ c)
      else Inr (f\<lparr>sq_tables := map (\<lambda>(n, tb). (n, if n = t then add_column c d tb else tb)) (sq_tables f)\<rparr>))"

definition sq_point :: "sqlite_file \<Rightarrow> sq_fault option \<times> sqlite_file" where
  "sq_point f = (case sq_faults f of [] \<Rightarrow> (None, f) | x # xs \<Rightarrow> (x, f\<lparr>sq_faults := xs\<rparr>))"

definition fault_text :: "sq_fault \<Rightarrow> string" where
  "fault_text x = (case x of Refused e \<Rightarrow> e | Broken e n \<Rightarrow> e)"

definition sq_exec :: "ddl \<Rightarrow> sqlite_file \<Rightarrow> (string + unit) \<times> sqlite_file" where
  "sq_exec st f =
     (case sq_point f of
        (Some x, f1) \<Rightarrow> (Inl (fault_text x), f1)
      | (None, f1) \<Rightarrow> (case run_ddl st f1 of Inl e \<Rightarrow> (Inl e, f1) | Inr f2 \<Rightarrow> (Inr (), f2)))"

text \<open>A script runs outside a transaction: what ran before a failure stays.\<close>

fun sq_script :: "ddl list \<Rightarrow> sqlite_file \<Rightarrow> (string + unit) \<times> sqlite_file" where
  "sq_script [] f = (Inr (), f)"
| "sq_script (st # sts) f =
     (case sq_exec st f of (Inl e, f1) \<Rightarrow> (Inl e, f1) | (Inr _, f1) \<Rightarrow> sq_script sts f1)"

section \<open>Open and its migrations\<close>

definition v1_tables :: "(string \<times> string list) list" where
  "v1_tables =
    [(''tenants'', [''id'', ''name'', ''domain'', ''retention'', ''schema_version'', ''status'', ''created_at'', ''updated_at'']),
     (''sites'', [''id'', ''tenant_id'', ''broker_kind'', ''throughput'', ''direction'', ''payload_codec'', ''leaf_ttl_days'',
        ''schema_version'', ''status'', ''created_at'', ''updated_at'']),
     (''desired_state'', [''project_id'', ''tenant_id'', ''site_id'', ''state'', ''config_hash'', ''updated_at'']),
     (''actual_state_cache'', [''project_id'', ''file_path'', ''content_hash'', ''updated_at'']),
     (''audit_events'', [''id'', ''kind'', ''tenant_id'', ''site_id'', ''actor_ip'', ''detail'', ''success'', ''created_at'']),
     (''settings'', [''key'', ''value'', ''updated_at'']),
     (''auth_tokens'', [''id'', ''display_name'', ''hash'', ''prefix'', ''revoked'', ''created_at'', ''revoked_at'']),
     (''cas'', [''site_id'', ''cert_pem'', ''key_enc'', ''key_nonce'', ''fingerprint'', ''not_before'', ''not_after'', ''created_at'']),
     (''certs'', [''id'', ''site_id'', ''kind'', ''common_name'', ''cert_pem'', ''fingerprint'', ''not_before'', ''not_after'',
        ''revoked'', ''revoked_at'', ''created_at'']),
     (''emqx_api_keys'', [''site_id'', ''key_id'', ''key_secret'', ''created_at'']),
     (''tsdb_credentials'', [''tenant_id'', ''superuser_name'', ''superuser_pass'', ''ingest_name'', ''ingest_pass'', ''created_at''])]"

definition v1_table :: "string \<Rightarrow> ddl" where
  "v1_table t = CreateTable t (case map_of v1_tables t of None \<Rightarrow> [] | Some cols \<Rightarrow> cols)"

definition init_sql :: "ddl list" where
  "init_sql =
    [Pragma ''foreign_keys = ON'', Pragma ''journal_mode = WAL'',
     v1_table ''tenants'',
     v1_table ''sites'', CreateIndex ''idx_sites_tenant'' ''sites'' [''tenant_id''],
     v1_table ''desired_state'', v1_table ''actual_state_cache'',
     v1_table ''audit_events'', CreateIndex ''idx_audit_kind'' ''audit_events'' [''kind''],
     CreateIndex ''idx_audit_tenant'' ''audit_events'' [''tenant_id'', ''created_at''],
     CreateIndex ''idx_audit_created_at'' ''audit_events'' [''created_at''],
     v1_table ''settings'', v1_table ''auth_tokens'', v1_table ''cas'',
     v1_table ''certs'', CreateIndex ''idx_certs_site'' ''certs'' [''site_id''],
     CreateIndex ''idx_certs_expiry'' ''certs'' [''not_after'', ''revoked''],
     v1_table ''emqx_api_keys'', v1_table ''tsdb_credentials'']"

definition migration_0002_sql :: "ddl list" where
  "migration_0002_sql =
    [CreateIndex ''idx_tenants_project_id'' ''tenants'' [''project_id''],
     CreateIndex ''idx_audit_project_id'' ''audit_events'' [''project_id'']]"

definition column_exists :: "string \<Rightarrow> string \<Rightarrow> sqlite_file \<Rightarrow> (string + bool) \<times> sqlite_file" where
  "column_exists t c f =
     (case sq_point f of
        (Some (Refused e), f1) \<Rightarrow> (Inl (''PRAGMA table_info('' @ t @ ''): '' @ e), f1)
      | (Some (Broken e n), f1) \<Rightarrow> (if c \<in> set (take n (columns_of t f1)) then Inr True else Inl e, f1)
      | (None, f1) \<Rightarrow> (Inr (c \<in> set (columns_of t f1)), f1))"

definition ensure_column :: "string \<Rightarrow> string \<Rightarrow> sql_value \<Rightarrow> sqlite_file \<Rightarrow> (string + unit) \<times> sqlite_file" where
  "ensure_column t c d f =
     (case column_exists t c f of
        (Inl e, f1) \<Rightarrow> (Inl e, f1)
      | (Inr True, f1) \<Rightarrow> (Inr (), f1)
      | (Inr False, f1) \<Rightarrow>
          (case sq_exec (AddColumn t c d) f1 of
             (Inl e, f2) \<Rightarrow> (Inl (''alter '' @ t @ '' add '' @ c @ '': '' @ e), f2)
           | (Inr _, f2) \<Rightarrow> (Inr (), f2)))"

definition apply_migration_0002 :: "sqlite_file \<Rightarrow> (string + unit) \<times> sqlite_file" where
  "apply_migration_0002 f =
     (case ensure_column ''tenants'' ''project_id'' SNull f of
        (Inl e, f1) \<Rightarrow> (Inl e, f1)
      | (Inr _, f1) \<Rightarrow>
          (case ensure_column ''audit_events'' ''project_id'' (SText '''') f1 of
             (Inl e, f2) \<Rightarrow> (Inl e, f2)
           | (Inr _, f2) \<Rightarrow>
               (case sq_script migration_0002_sql f2 of
                  (Inl e, f3) \<Rightarrow> (Inl (''migration 0002 indexes: '' @ e), f3)
                | (Inr _, f3) \<Rightarrow> (Inr (), f3))))"

datatype open_error = OpenSqlite string | Migrate0001 string | Migrate0002 string

text \<open>\<^verbatim>\<open>sql.Open\<close> itself may refuse the data source; its outcome is the first argument.\<close>

definition open_store :: "string option \<Rightarrow> sqlite_file \<Rightarrow> (open_error + unit) \<times> sqlite_file" where
  "open_store refused f =
     (case refused of
        Some e \<Rightarrow> (Inl (OpenSqlite e), f)
      | None \<Rightarrow>
          (case sq_script init_sql f of
             (Inl e, f1) \<Rightarrow> (Inl (Migrate0001 e), f1)
           | (Inr _, f1) \<Rightarrow>
               (case apply_migration_0002 f1 of
                  (Inl e, f2) \<Rightarrow> (Inl (Migrate0002 e), f2)
                | (Inr _, f2) \<Rightarrow> (Inr (), f2))))"

section \<open>Files some version of the program has written\<close>

definition added_columns :: "string \<Rightarrow> string list" where
  "added_columns t = (if t = ''tenants'' \<or> t = ''audit_events'' then [''project_id''] else [])"

text \<open>Every table of the schema is missing, as version 1 made it, or has the columns of 0002.\<close>

definition schema_ok :: "sqlite_file \<Rightarrow> bool" where
  "schema_ok f \<longleftrightarrow>
     list_all (\<lambda>(t, cols). case map_of (sq_tables f) t of
         None \<Rightarrow> True | Some tb \<Rightarrow> tb_columns tb = cols \<or> tb_columns tb = cols @ added_columns t) v1_tables"

definition schema_complete :: "sqlite_file \<Rightarrow> bool" where
  "schema_complete f \<longleftrightarrow>
     list_all (\<lambda>(t, cols). t \<in> fst ` set (sq_tables f) \<and> columns_of t f = cols @ added_columns t) v1_tables \<and>
     list_all (\<lambda>st. case st of CreateIndex i t cols \<Rightarrow> i \<in> set (sq_indexes f) | _ \<Rightarrow> True) (init_sql @ migration_0002_sql)"

text \<open>No table, row or value of a row is lost: rows only get values for new columns.\<close>

definition grows :: "sqlite_file \<Rightarrow> sqlite_file \<Rightarrow> bool" where
  "grows f f' \<longleftrightarrow> set (sq_indexes f) \<subseteq> set (sq_indexes f') \<and>
     (\<forall>t tb. map_of (sq_tables f) t = Some tb \<longrightarrow>
        (\<exists>tb'. map_of (sq_tables f') t = Some tb' \<and> prefix (tb_columns tb) (tb_columns tb') \<and>
               list_all2 prefix (tb_rows tb) (tb_rows tb')))"

lemma grows_refl [intro, simp]: "grows f f"
  by (auto simp: grows_def list_all2_refl)

lemma grows_trans [trans]: "grows f g \<Longrightarrow> grows g h \<Longrightarrow> grows f h"
  unfolding grows_def
  by (meson prefix_order.trans list_all2_trans[of prefix prefix prefix] subset_trans)

lemma grows_faults [simp]: "grows f (g\<lparr>sq_faults := xs\<rparr>) = grows f g" "grows (f\<lparr>sq_faults := xs\<rparr>) g = grows f g"
  by (simp_all add: grows_def)

lemma sq_point_frame: "sq_point f = (x, f1) \<Longrightarrow> \<exists>xs. f1 = f\<lparr>sq_faults := xs\<rparr>"
proof (cases "sq_faults f")
  case Nil
  assume "sq_point f = (x, f1)"
  with Nil have "f1 = f\<lparr>sq_faults := []\<rparr>" by (simp add: sq_point_def)
  then show ?thesis by blast
qed (auto simp: sq_point_def)

lemma sq_point_grows: "sq_point f = (x, f1) \<Longrightarrow> grows f f1"
  using sq_point_frame by fastforce

lemma sq_point_ok [simp]: "sq_point f = (x, f1) \<Longrightarrow> schema_ok f1 = schema_ok f"
  using sq_point_frame by (fastforce simp: schema_ok_def)

lemma grows_column: "list_all2 prefix rows (map (\<lambda>r. r @ [v]) rows)"
  by (simp add: list_all2_conv_all_nth)

lemma map_of_update: "map_of (map (\<lambda>(n, tb). (n, if n = t then g tb else tb)) ts) x =
    (if x = t then map_option g (map_of ts x) else map_of ts x)"
  by (induction ts) auto

lemma run_ddl_grows: "run_ddl st f = Inr f1 \<Longrightarrow> grows f f1"
proof (cases st)
  case (AddColumn t c d)
  assume "run_ddl st f = Inr f1"
  with AddColumn show ?thesis
    by (auto simp: grows_def map_of_update add_column_def grows_column list_all2_refl split: if_splits)
qed (auto simp: grows_def map_add_Some_iff list_all2_refl split: if_splits)

lemma sq_exec_grows: "sq_exec st f = (r, f1) \<Longrightarrow> grows f f1"
  by (auto simp: sq_exec_def split: prod.splits option.splits sum.splits
      dest: sq_point_grows run_ddl_grows intro: grows_trans)

lemma sq_script_grows: "sq_script sts f = (r, f1) \<Longrightarrow> grows f f1"
  by (induction sts arbitrary: f) (auto split: prod.splits sum.splits dest!: sq_exec_grows intro: grows_trans)

lemma column_exists_grows: "column_exists t c f = (r, f1) \<Longrightarrow> grows f f1"
  by (auto simp: column_exists_def split: prod.splits option.splits sq_fault.splits dest: sq_point_grows)

lemma ensure_column_grows: "ensure_column t c d f = (r, f1) \<Longrightarrow> grows f f1"
  by (auto simp: ensure_column_def split: prod.splits sum.splits bool.splits
      dest!: column_exists_grows sq_exec_grows intro: grows_trans)

lemma migration_0002_grows: "apply_migration_0002 f = (r, f1) \<Longrightarrow> grows f f1"
  by (auto simp: apply_migration_0002_def split: prod.splits sum.splits
      dest!: ensure_column_grows sq_script_grows intro: grows_trans)

text \<open>
  Opening the registry never loses data: whichever statements of the migrations are refused or
  break off, every table, every row and every value that was in the file is still there.
\<close>

lemma open_store_grows: "grows f (snd (open_store refused f))"
  by (auto simp: open_store_def split: option.splits prod.splits sum.splits
      dest!: sq_script_grows migration_0002_grows intro: grows_trans)

section \<open>The schema after Open\<close>

lemma v1_tables_distinct: "distinct (map fst v1_tables)"
  by (simp add: v1_tables_def)

lemma v1_unique: "(t, cols) \<in> set v1_tables \<Longrightarrow> (t, cols') \<in> set v1_tables \<Longrightarrow> cols = cols'"
  using v1_tables_distinct by (meson eq_key_imp_eq_value)

lemma schema_ok_iff:
  "schema_ok f \<longleftrightarrow> (\<forall>t cols tb. (t, cols) \<in> set v1_tables \<longrightarrow> map_of (sq_tables f) t = Some tb \<longrightarrow>
     tb_columns tb = cols \<or> tb_columns tb = cols @ added_columns t)"
  unfolding schema_ok_def list_all_iff by (auto split: option.splits)

text \<open>The statements that keep the schema: the tables of version 1, indexes, and the new column.\<close>

fun keeps_schema :: "ddl \<Rightarrow> bool" where
  "keeps_schema (CreateTable t cols) = ((t, cols) \<in> set v1_tables)"
| "keeps_schema (AddColumn t c d) = (added_columns t = [c])"
| "keeps_schema _ = True"

lemma run_ddl_ok:
  assumes "schema_ok f" "keeps_schema st" "run_ddl st f = Inr f1"
  shows "schema_ok f1"
proof (cases st)
  case (CreateTable t cols)
  then show ?thesis
    using assms unfolding schema_ok_iff by (auto simp: map_add_Some_iff split: if_splits) (blast intro: v1_unique)+
next
  case (AddColumn t c d)
  have "tb_columns tb = cols' \<or> c \<in> set (tb_columns tb)"
    if "(t, cols') \<in> set v1_tables" "map_of (sq_tables f) t = Some tb" for cols' tb
    using assms(1,2) that AddColumn unfolding schema_ok_iff by fastforce
  then show ?thesis
    using assms AddColumn unfolding schema_ok_iff
    by (auto simp: map_of_update add_column_def columns_of_def split: if_splits) blast
qed (use assms in \<open>auto simp: schema_ok_def split: if_splits\<close>)

lemma sq_exec_ok: "sq_exec st f = (r, f1) \<Longrightarrow> schema_ok f \<Longrightarrow> keeps_schema st \<Longrightarrow> schema_ok f1"
  by (auto simp: sq_exec_def split: prod.splits option.splits sum.splits intro: run_ddl_ok sq_point_ok[THEN iffD2])

lemma sq_script_ok: "sq_script sts f = (r, f1) \<Longrightarrow> schema_ok f \<Longrightarrow> list_all keeps_schema sts \<Longrightarrow> schema_ok f1"
  by (induction sts arbitrary: f) (auto split: prod.splits sum.splits dest: sq_exec_ok)

lemma ensure_column_ok:
  "ensure_column t c d f = (r, f1) \<Longrightarrow> schema_ok f \<Longrightarrow> added_columns t = [c] \<Longrightarrow> schema_ok f1"
  by (auto simp: ensure_column_def column_exists_def split: prod.splits sum.splits bool.splits option.splits sq_fault.splits
      dest!: sq_exec_ok)

lemma scripts_keep: "list_all keeps_schema init_sql" "list_all keeps_schema migration_0002_sql"
  by (simp_all add: init_sql_def migration_0002_sql_def v1_table_def v1_tables_def)

lemma added_project_id: "added_columns ''tenants'' = [''project_id'']" "added_columns ''audit_events'' = [''project_id'']"
  by (simp_all add: added_columns_def)

lemma open_store_ok: "schema_ok f \<Longrightarrow> schema_ok (snd (open_store refused f))"
  by (auto simp: open_store_def apply_migration_0002_def added_project_id split: option.splits prod.splits sum.splits
      dest!: sq_script_ok[OF _ _ scripts_keep(1)] sq_script_ok[OF _ _ scripts_keep(2)] ensure_column_ok)

text \<open>
  A check of a script that needs no file: every index is on a table created before it, or known to
  be there, that has its columns.
\<close>

fun runs_on :: "(string \<times> string list) list \<Rightarrow> ddl list \<Rightarrow> bool" where
  "runs_on known [] = True"
| "runs_on known (Pragma p # sts) = runs_on known sts"
| "runs_on known (CreateTable t cols # sts) = runs_on ((t, cols) # known) sts"
| "runs_on known (CreateIndex i t cols # sts) =
     (list_ex (\<lambda>(t', cs). t' = t \<and> list_all (\<lambda>c. c \<in> set cs) cols) known \<and> runs_on known sts)"
| "runs_on known (AddColumn t c d # sts) = False"

definition has_columns :: "sqlite_file \<Rightarrow> string \<Rightarrow> string list \<Rightarrow> bool" where
  "has_columns f t cols \<longleftrightarrow> (\<exists>tb. map_of (sq_tables f) t = Some tb \<and> set cols \<subseteq> set (tb_columns tb))"

fun in_place :: "sqlite_file \<Rightarrow> ddl \<Rightarrow> bool" where
  "in_place f (CreateTable t cols) = has_columns f t cols"
| "in_place f (CreateIndex i t cols) = (i \<in> set (sq_indexes f))"
| "in_place f _ = True"

lemma has_columns_grows: "grows f f1 \<Longrightarrow> has_columns f t cols \<Longrightarrow> has_columns f1 t cols"
  unfolding grows_def has_columns_def by (meson set_mono_prefix subset_trans)

lemma in_place_grows: "grows f f1 \<Longrightarrow> in_place f st \<Longrightarrow> in_place f1 st"
  by (cases st) (auto simp: has_columns_grows grows_def)

lemma has_columns_in: "has_columns f t cols \<Longrightarrow> t \<in> fst ` set (sq_tables f) \<and> set cols \<subseteq> set (columns_of t f)"
  by (auto simp: has_columns_def columns_of_def image_iff dest: map_of_SomeD intro: bexI[rotated])

lemma sq_exec_runs:
  assumes "schema_ok f" "keeps_schema st" "sq_faults f = []" "runs_on known (st # sts)"
    "\<forall>(t, cs) \<in> set known. has_columns f t cs"
  shows "\<exists>f1. sq_exec st f = (Inr (), f1) \<and> sq_faults f1 = [] \<and> in_place f1 st"
proof (cases st)
  case (CreateTable t cols)
  have "tb_columns tb = cols \<or> tb_columns tb = cols @ added_columns t" if "map_of (sq_tables f) t = Some tb" for tb
    using that assms(1,2) CreateTable by (simp add: schema_ok_iff)
  then show ?thesis
    using CreateTable assms(3) by (cases "map_of (sq_tables f) t")
      (fastforce simp: sq_exec_def sq_point_def has_columns_def map_of_eq_None_iff map_add_Some_iff
        dest: map_of_SomeD)+
next
  case (CreateIndex i t cols)
  then have "has_columns f t cols"
    using assms(4,5) by (fastforce simp: list_ex_iff list_all_iff has_columns_def)
  then show ?thesis
    using CreateIndex assms(3) has_columns_in[of f t cols] by (auto simp: sq_exec_def sq_point_def)
qed (use assms in \<open>auto simp: sq_exec_def sq_point_def\<close>)

lemma sq_script_runs:
  assumes "runs_on known sts" "\<forall>(t, cs) \<in> set known. has_columns f t cs" "schema_ok f" "list_all keeps_schema sts"
    "sq_faults f = []"
  shows "\<exists>f1. sq_script sts f = (Inr (), f1) \<and> sq_faults f1 = [] \<and> list_all (in_place f1) sts"
  using assms
proof (induction sts arbitrary: f known)
  case (Cons st sts)
  obtain f1 where f1: "sq_exec st f = (Inr (), f1)" "sq_faults f1 = []" "in_place f1 st"
    using sq_exec_runs[of f st known sts] Cons.prems by auto
  define known1 where "known1 = (case st of CreateTable t cols \<Rightarrow> (t, cols) # known | _ \<Rightarrow> known)"
  have "runs_on known1 sts"
    using Cons.prems(1) by (cases st) (auto simp: known1_def)
  moreover have "\<forall>(t, cs) \<in> set known1. has_columns f1 t cs"
    using Cons.prems(2) f1(3) has_columns_grows[OF sq_exec_grows[OF f1(1)]]
    by (auto simp: known1_def split: ddl.splits)
  moreover have "schema_ok f1" "list_all keeps_schema sts"
    using Cons.prems f1(1) by (auto intro: sq_exec_ok)
  ultimately obtain f2 where f2: "sq_script sts f1 = (Inr (), f2)" "sq_faults f2 = []" "list_all (in_place f2) sts"
    using Cons.IH[of known1 f1] f1(2) by blast
  then show ?case
    using f1 in_place_grows[OF sq_script_grows[OF f2(1)] f1(3)] by simp
qed simp

lemma ensure_column_runs:
  assumes "has_columns f t []" "sq_faults f = []"
  shows "\<exists>f1. ensure_column t c d f = (Inr (), f1) \<and> sq_faults f1 = [] \<and> has_columns f1 t [c]"
proof -
  obtain tb where tb: "map_of (sq_tables f) t = Some tb" "t \<in> fst ` set (sq_tables f)"
    using assms(1) has_columns_in[OF assms(1)] by (auto simp: has_columns_def)
  then show ?thesis
    using assms(2) by (cases "c \<in> set (tb_columns tb)")
      (simp_all add: ensure_column_def column_exists_def sq_point_def sq_exec_def has_columns_def columns_of_def
        map_of_update add_column_def)
qed

lemma init_sql_runs: "runs_on [] init_sql"
  by (simp add: init_sql_def v1_table_def v1_tables_def)

lemma init_sql_creates: "(t, cols) \<in> set v1_tables \<Longrightarrow> CreateTable t cols \<in> set init_sql"
  by (auto simp: init_sql_def v1_table_def v1_tables_def)

lemma project_id_new: "(t, cols) \<in> set v1_tables \<Longrightarrow> added_columns t = [c] \<Longrightarrow> c \<notin> set cols"
  by (auto simp: v1_tables_def added_columns_def split: if_splits)

lemma migration_0002_runs:
  assumes "schema_ok f" "list_all (in_place f) init_sql" "sq_faults f = []"
  shows "\<exists>f1. apply_migration_0002 f = (Inr (), f1) \<and> has_columns f1 ''tenants'' [''project_id''] \<and>
    has_columns f1 ''audit_events'' [''project_id''] \<and> list_all (in_place f1) migration_0002_sql"
proof -
  have "has_columns f t []" if "t = ''tenants'' \<or> t = ''audit_events''" for t
    using assms(2) that by (auto simp: init_sql_def v1_table_def v1_tables_def has_columns_def)
  then have h: "has_columns f ''tenants'' []" "has_columns f ''audit_events'' []" by blast+
  obtain f1 where f1: "ensure_column ''tenants'' ''project_id'' SNull f = (Inr (), f1)" "sq_faults f1 = []"
      "has_columns f1 ''tenants'' [''project_id'']"
    using ensure_column_runs[OF h(1) assms(3)] by blast
  note g1 = has_columns_grows[OF ensure_column_grows[OF f1(1)]]
  obtain f2 where f2: "ensure_column ''audit_events'' ''project_id'' (SText '''') f1 = (Inr (), f2)" "sq_faults f2 = []"
      "has_columns f2 ''audit_events'' [''project_id'']"
    using ensure_column_runs[OF g1[OF h(2)] f1(2)] by blast
  have t2: "has_columns f2 ''tenants'' [''project_id'']"
    by (rule has_columns_grows[OF ensure_column_grows[OF f2(1)] f1(3)])
  have ok: "schema_ok f2"
    using ensure_column_ok[OF f2(1)] ensure_column_ok[OF f1(1) assms(1)] by (simp add: added_project_id)
  have "runs_on [(''tenants'', [''project_id'']), (''audit_events'', [''project_id''])] migration_0002_sql"
    by (simp add: migration_0002_sql_def)
  then obtain f3 where f3: "sq_script migration_0002_sql f2 = (Inr (), f3)" "list_all (in_place f3) migration_0002_sql"
    using sq_script_runs[OF _ _ ok scripts_keep(2) f2(2)] t2 f2(3) by fastforce
  then show ?thesis
    using f1(1) f2 t2 has_columns_grows[OF sq_script_grows[OF f3(1)]] by (auto simp: apply_migration_0002_def)
qed

lemma complete_from_parts:
  assumes "schema_ok f" "list_all (in_place f) (init_sql @ migration_0002_sql)"
    "has_columns f ''tenants'' [''project_id'']" "has_columns f ''audit_events'' [''project_id'']"
  shows "schema_complete f"
  unfolding schema_complete_def
proof
  have "t \<in> fst ` set (sq_tables f) \<and> columns_of t f = cols @ added_columns t" if v: "(t, cols) \<in> set v1_tables" for t cols
  proof -
    have "in_place f (CreateTable t cols)"
      using assms(2) init_sql_creates[OF v] by (simp add: list_all_iff del: in_place.simps)
    then have "has_columns f t cols" by simp
    then obtain tb where tb: "map_of (sq_tables f) t = Some tb" by (auto simp: has_columns_def)
    have "set (added_columns t) \<subseteq> set (tb_columns tb)"
      using assms(3,4) tb by (auto simp: added_columns_def has_columns_def split: if_splits)
    moreover have "added_columns t = [] \<or> added_columns t = [''project_id'']" by (simp add: added_columns_def)
    moreover have "tb_columns tb = cols \<or> tb_columns tb = cols @ added_columns t"
      using assms(1) v tb by (simp add: schema_ok_iff)
    ultimately have "tb_columns tb = cols @ added_columns t"
      using project_id_new[OF v] by auto
    then show ?thesis
      using tb map_of_SomeD[OF tb] by (force simp: columns_of_def)
  qed
  then show "list_all (\<lambda>(t, cols). t \<in> fst ` set (sq_tables f) \<and> columns_of t f = cols @ added_columns t) v1_tables"
    by (auto simp: list_all_iff)
  show "list_all (\<lambda>st. case st of CreateIndex i t cols \<Rightarrow> i \<in> set (sq_indexes f) | _ \<Rightarrow> True) (init_sql @ migration_0002_sql)"
    by (rule list.pred_mono_strong[OF assms(2)]) (auto split: ddl.split)
qed

lemma open_store_completes:
  assumes "schema_ok f" "sq_faults f = []"
  shows "\<exists>f1. open_store None f = (Inr (), f1) \<and> schema_complete f1"
proof -
  obtain f1 where f1: "sq_script init_sql f = (Inr (), f1)" "sq_faults f1 = []" "list_all (in_place f1) init_sql"
    using sq_script_runs[OF init_sql_runs _ assms(1) scripts_keep(1) assms(2)] by auto
  have ok1: "schema_ok f1" by (rule sq_script_ok[OF f1(1) assms(1) scripts_keep(1)])
  obtain f2 where f2: "apply_migration_0002 f1 = (Inr (), f2)" "has_columns f2 ''tenants'' [''project_id'']"
      "has_columns f2 ''audit_events'' [''project_id'']" "list_all (in_place f2) migration_0002_sql"
    using migration_0002_runs[OF ok1 f1(3,2)] by blast
  have o: "open_store None f = (Inr (), f2)" by (simp add: open_store_def f1(1) f2(1))
  have "list_all (in_place f2) init_sql"
    using f1(3) in_place_grows[OF migration_0002_grows[OF f2(1)]] by (auto simp: list_all_iff)
  then have "schema_complete f2"
    using open_store_ok[OF assms(1), of None] o f2 by (intro complete_from_parts) simp_all
  with o show ?thesis by blast
qed

text \<open>
  C36. An interrupted start does no harm: from a file of any version, or one that an earlier start
  left half-migrated, and whatever stopped an attempt, the next attempt that meets no failure
  succeeds and leaves the complete schema of the program.
\<close>

theorem open_resumes:
  assumes "schema_ok f"
  shows "\<exists>f1. open_store None ((snd (open_store refused f))\<lparr>sq_faults := []\<rparr>) = (Inr (), f1) \<and> schema_complete f1"
proof (rule open_store_completes)
  show "schema_ok ((snd (open_store refused f))\<lparr>sq_faults := []\<rparr>)"
    using open_store_ok[OF assms, of refused] by (simp add: schema_ok_def)
qed simp

definition half_migrated :: sqlite_file where
  "half_migrated =
     \<lparr>sq_tables = [(''tenants'', \<lparr>tb_columns = [''id'', ''name'', ''domain'', ''retention'', ''schema_version'', ''status'', ''created_at'', ''updated_at''],
        tb_rows = [[(''id'', SText ''tnt_a'')]]\<rparr>)],
      sq_indexes = [], sq_faults = [None, None, None, Some (Refused ''disk full'')]\<rparr>"

theorem open_resumes_witness:
  "open_store None half_migrated = (Inl (Migrate0001 ''disk full''), half_migrated\<lparr>sq_faults := []\<rparr>) \<and>
   (\<exists>f1. open_store None (half_migrated\<lparr>sq_faults := []\<rparr>) = (Inr (), f1) \<and> schema_complete f1)"
proof -
  have o: "open_store None half_migrated = (Inl (Migrate0001 ''disk full''), half_migrated\<lparr>sq_faults := []\<rparr>)"
    by (simp add: open_store_def init_sql_def v1_table_def v1_tables_def half_migrated_def sq_exec_def sq_point_def fault_text_def)
  have "schema_ok half_migrated"
    by (simp add: schema_ok_def v1_tables_def half_migrated_def)
  from open_resumes[OF this, of None] o show ?thesis by simp
qed

text \<open>A complete file is not touched again.\<close>

lemma sq_script_in_place:
  "list_all (\<lambda>st. run_ddl st f = Inr f) sts \<Longrightarrow> sq_faults f = [] \<Longrightarrow> sq_script sts f = (Inr (), f)"
  by (induction sts) (auto simp: sq_exec_def sq_point_def)

lemma complete_in_place:
  assumes "schema_complete f"
  shows "list_all (\<lambda>st. run_ddl st f = Inr f) (init_sql @ migration_0002_sql)"
  using assms by (simp add: schema_complete_def init_sql_def migration_0002_sql_def v1_table_def v1_tables_def added_columns_def)

lemma reopen_is_noop:
  assumes "schema_complete f" "sq_faults f = []"
  shows "open_store None f = (Inr (), f)"
proof -
  have s: "sq_script init_sql f = (Inr (), f)" "sq_script migration_0002_sql f = (Inr (), f)"
    using complete_in_place[OF assms(1)] assms(2) by (simp_all add: sq_script_in_place)
  have "''project_id'' \<in> set (columns_of t f)" if "t = ''tenants'' \<or> t = ''audit_events''" for t
    using assms(1) that by (auto simp: schema_complete_def v1_tables_def added_columns_def)
  then have "ensure_column t ''project_id'' d f = (Inr (), f)" if "t = ''tenants'' \<or> t = ''audit_events''" for t d
    using that assms(2) by (simp add: ensure_column_def column_exists_def sq_point_def)
  then show ?thesis
    by (simp add: open_store_def apply_migration_0002_def s)
qed

section \<open>What a successful Open guarantees\<close>

lemma sq_exec_in_place:
  assumes "sq_exec st f = (Inr (), f1)" "schema_ok f" "keeps_schema st" "\<And>t c d. st \<noteq> AddColumn t c d"
  shows "in_place f1 st"
proof -
  obtain f0 where s: "sq_point f = (None, f0)" "run_ddl st f0 = Inr f1"
    using assms(1) by (auto simp: sq_exec_def split: prod.splits option.splits sum.splits)
  then have f0: "schema_ok f0" "run_ddl st f0 = Inr f1" using assms(2) sq_point_ok[OF s(1)] by simp_all
  show ?thesis
  proof (cases st)
    case (CreateTable t cols)
    show ?thesis
    proof (cases "map_of (sq_tables f0) t")
      case None
      then show ?thesis
        using f0 CreateTable by (auto simp: has_columns_def map_of_eq_None_iff map_add_Some_iff)
    next
      case (Some tb)
      then have "tb_columns tb = cols \<or> tb_columns tb = cols @ added_columns t"
        using f0(1) assms(3) CreateTable by (simp add: schema_ok_iff)
      moreover have "f1 = f0" using f0(2) CreateTable map_of_SomeD[OF Some] by (force split: if_splits)
      ultimately show ?thesis using Some CreateTable by (auto simp: has_columns_def)
    qed
  qed (use f0 assms(4) in \<open>auto split: if_splits\<close>)
qed

lemma sq_script_in_place_after:
  assumes "sq_script sts f = (Inr (), f1)" "schema_ok f" "list_all keeps_schema sts" "\<forall>t c d. AddColumn t c d \<notin> set sts"
  shows "list_all (in_place f1) sts"
  using assms
proof (induction sts arbitrary: f)
  case (Cons st sts)
  then obtain f2 where f2: "sq_exec st f = (Inr (), f2)" "sq_script sts f2 = (Inr (), f1)"
    by (auto split: prod.splits sum.splits)
  have "in_place f2 st" using sq_exec_in_place[OF f2(1) Cons.prems(2)] Cons.prems(3,4) by auto
  then have "in_place f1 st" by (rule in_place_grows[OF sq_script_grows[OF f2(2)]])
  moreover have "list_all (in_place f1) sts"
    using Cons.IH[OF f2(2)] sq_exec_ok[OF f2(1) Cons.prems(2)] Cons.prems(3,4) by auto
  ultimately show ?case by simp
qed simp

lemma columns_of_has: "c \<in> set (columns_of t f) \<Longrightarrow> has_columns f t [c]"
  by (cases "map_of (sq_tables f) t") (simp_all add: columns_of_def has_columns_def)

lemma ensure_column_after:
  assumes "ensure_column t c d f = (Inr (), f1)"
  shows "has_columns f1 t [c]"
proof -
  obtain b f0 where c: "column_exists t c f = (Inr b, f0)"
      "if b then f1 = f0 else sq_exec (AddColumn t c d) f0 = (Inr (), f1)"
    using assms by (auto simp: ensure_column_def split: prod.splits sum.splits bool.splits)
  show ?thesis
  proof (cases b)
    case True
    then have "c \<in> set (columns_of t f0)"
      using c(1) by (auto simp: column_exists_def split: prod.splits option.splits sq_fault.splits if_splits dest: in_set_takeD)
    then show ?thesis using True c(2) columns_of_has by simp
  next
    case False
    then obtain f2 where f2: "run_ddl (AddColumn t c d) f2 = Inr f1"
      using c(2) by (auto simp: sq_exec_def split: prod.splits option.splits sum.splits)
    then obtain tb where "map_of (sq_tables f2) t = Some tb"
      by (auto split: if_splits) (metis map_of_eq_None_iff not_None_eq fst_conv image_eqI)
    then show ?thesis using f2 by (auto simp: has_columns_def map_of_update add_column_def split: if_splits)
  qed
qed

lemma open_store_success:
  assumes "open_store refused f = (Inr (), f1)" "schema_ok f"
  shows "schema_complete f1"
proof -
  obtain g1 g2 g3 where g: "sq_script init_sql f = (Inr (), g1)" "ensure_column ''tenants'' ''project_id'' SNull g1 = (Inr (), g2)"
      "ensure_column ''audit_events'' ''project_id'' (SText '''') g2 = (Inr (), g3)" "sq_script migration_0002_sql g3 = (Inr (), f1)"
    using assms(1) by (auto simp: open_store_def apply_migration_0002_def split: option.splits prod.splits sum.splits)
  have ok: "schema_ok g1" "schema_ok g2" "schema_ok g3" "schema_ok f1"
  proof -
    show "schema_ok g1" by (rule sq_script_ok[OF g(1) assms(2) scripts_keep(1)])
    then show "schema_ok g2" by (rule ensure_column_ok[OF g(2) _ added_project_id(1)])
    then show "schema_ok g3" by (rule ensure_column_ok[OF g(3) _ added_project_id(2)])
    then show "schema_ok f1" by (rule sq_script_ok[OF g(4) _ scripts_keep(2)])
  qed
  have later: "grows g1 f1" "grows g2 f1" "grows g3 f1"
    using ensure_column_grows[OF g(2)] ensure_column_grows[OF g(3)] sq_script_grows[OF g(4)] by (blast intro: grows_trans)+
  have "list_all (in_place g1) init_sql"
    using sq_script_in_place_after[OF g(1) assms(2) scripts_keep(1)] by (auto simp: init_sql_def v1_table_def)
  then have "list_all (in_place f1) init_sql"
    using in_place_grows[OF later(1)] by (auto simp: list_all_iff)
  moreover have "list_all (in_place f1) migration_0002_sql"
    using sq_script_in_place_after[OF g(4) ok(3) scripts_keep(2)] by (auto simp: migration_0002_sql_def)
  ultimately show ?thesis
    using complete_from_parts[OF ok(4)] has_columns_grows[OF later(2) ensure_column_after[OF g(2)]]
      has_columns_grows[OF later(3) ensure_column_after[OF g(3)]] by simp
qed

end
