(* ===== verification/Upgrade.thy ===== *)
theory Upgrade
  imports Schema "HOL-Library.Monad_Syntax"
begin

text \<open>
  From the database file to the registry: how the rows of the table of tenants are scanned
  (\<^verbatim>\<open>GetTenant\<close> and \<^verbatim>\<open>ListTenants\<close> of \<^verbatim>\<open>internal/store/sqlite/store.go\<close>), and what \<^verbatim>\<open>Open\<close> makes of a file
  that the first version of the program has written.  How the driver reads a timestamp is an argument.
\<close>

section \<open>Scanning a row\<close>

text \<open>\<^verbatim>\<open>database/sql\<close> converts numbers to text and back, but \<^verbatim>\<open>NULL\<close> fits neither.\<close>

fun as_text :: "sql_value \<Rightarrow> string option" where
  "as_text SNull = None"
| "as_text (SText s) = Some s"
| "as_text (SInt i) = Some (itoa i)"

fun as_int :: "sql_value \<Rightarrow> int option" where
  "as_int SNull = None"
| "as_int (SText s) = (case atoi s of (i, ok) \<Rightarrow> if ok then Some i else None)"
| "as_int (SInt i) = Some i"

definition column :: "(string \<times> sql_value) list \<Rightarrow> string \<Rightarrow> (sql_value \<Rightarrow> 'a option) \<Rightarrow> 'a option" where
  "column row c conv = Option.bind (map_of row c) conv"

text \<open>The columns of version 1.\<close>

definition scan_base :: "(sql_value \<Rightarrow> instant option) \<Rightarrow> (string \<times> sql_value) list \<Rightarrow> tenant_row option" where
  "scan_base time row = do {
     i \<leftarrow> column row ''id'' as_text;
     n \<leftarrow> column row ''name'' as_text;
     d \<leftarrow> column row ''domain'' as_text;
     r \<leftarrow> column row ''retention'' as_text;
     v \<leftarrow> column row ''schema_version'' as_int;
     s \<leftarrow> column row ''status'' as_text;
     c \<leftarrow> column row ''created_at'' time;
     u \<leftarrow> column row ''updated_at'' time;
     Some \<lparr>t_id = i, t_name = n, t_domain = d, t_retention = r, t_schema_version = v, t_status = s,
       t_project_id = '''', t_created_at = c, t_updated_at = u\<rparr>
   }"

text \<open>The project tag as it is stored; \<^verbatim>\<open>COALESCE(project_id,'')\<close> is the part of \<^const>\<open>read_tenant\<close>.\<close>

fun as_tag :: "sql_value \<Rightarrow> string option option" where
  "as_tag SNull = Some None"
| "as_tag (SText s) = Some (Some s)"
| "as_tag (SInt i) = Some (Some (itoa i))"

definition scan_tenant :: "(sql_value \<Rightarrow> instant option) \<Rightarrow> (string \<times> sql_value) list \<Rightarrow> stored_tenant option" where
  "scan_tenant time row = do {
     p \<leftarrow> column row ''project_id'' as_tag;
     t \<leftarrow> scan_base time row;
     Some (p, t)
   }"

text \<open>The table of tenants as the statements of the store see it; without the table or the column they fail.\<close>

definition file_tenants :: "(sql_value \<Rightarrow> instant option) \<Rightarrow> sqlite_file \<Rightarrow> stored_tenant list option" where
  "file_tenants time f =
     (case map_of (sq_tables f) ''tenants'' of None \<Rightarrow> None | Some tb \<Rightarrow> those (map (scan_tenant time) (tb_rows tb)))"

section \<open>What Open does to the table\<close>

text \<open>The table of tenants is left alone, or gets the new column, empty in every row.\<close>

definition upgrades :: "sqlite_file \<Rightarrow> sqlite_file \<Rightarrow> bool" where
  "upgrades f f' \<longleftrightarrow> (\<forall>tb. map_of (sq_tables f) ''tenants'' = Some tb \<longrightarrow>
     map_of (sq_tables f') ''tenants'' = Some tb \<or>
     ''project_id'' \<notin> set (tb_columns tb) \<and> map_of (sq_tables f') ''tenants'' = Some (add_column ''project_id'' SNull tb))"

lemma upgrades_refl [simp]: "upgrades f f" "upgrades f (f\<lparr>sq_faults := xs\<rparr>)"
  by (simp_all add: upgrades_def)

lemma upgrades_trans: "upgrades f g \<Longrightarrow> upgrades g h \<Longrightarrow> upgrades f h"
  unfolding upgrades_def by (fastforce simp: add_column_def)

fun upgrade_ddl :: "ddl \<Rightarrow> bool" where
  "upgrade_ddl (AddColumn t c d) = (t = ''tenants'' \<longrightarrow> c = ''project_id'' \<and> d = SNull)"
| "upgrade_ddl _ = True"

lemma run_ddl_upgrades: "run_ddl st f = Inr f1 \<Longrightarrow> upgrade_ddl st \<Longrightarrow> upgrades f f1"
  by (cases st) (auto simp: upgrades_def map_add_Some_iff map_of_update columns_of_def split: if_splits)

lemma sq_exec_upgrades: "sq_exec st f = (r, f1) \<Longrightarrow> upgrade_ddl st \<Longrightarrow> upgrades f f1"
proof -
  have "sq_point f = (x, f0) \<Longrightarrow> upgrades f f0" for x f0 using sq_point_frame upgrades_refl(2) by metis
  then show "sq_exec st f = (r, f1) \<Longrightarrow> upgrade_ddl st \<Longrightarrow> upgrades f f1"
    by (auto simp: sq_exec_def split: prod.splits option.splits sum.splits dest: run_ddl_upgrades intro: upgrades_trans)
qed

lemma sq_script_upgrades: "sq_script sts f = (r, f1) \<Longrightarrow> list_all upgrade_ddl sts \<Longrightarrow> upgrades f f1"
  by (induction sts arbitrary: f) (auto split: prod.splits sum.splits dest!: sq_exec_upgrades intro: upgrades_trans)

lemma ensure_column_upgrades: "ensure_column t c d f = (r, f1) \<Longrightarrow> upgrade_ddl (AddColumn t c d) \<Longrightarrow> upgrades f f1"
proof -
  have p: "column_exists t c f = (x, f0) \<Longrightarrow> upgrades f f0" for x f0
    by (auto simp: column_exists_def split: prod.splits option.splits sq_fault.splits dest!: sq_point_frame)
  show "ensure_column t c d f = (r, f1) \<Longrightarrow> upgrade_ddl (AddColumn t c d) \<Longrightarrow> upgrades f f1"
    by (auto simp: ensure_column_def simp del: upgrade_ddl.simps split: prod.splits sum.splits bool.splits
        dest!: p sq_exec_upgrades intro: upgrades_trans)
qed

lemma scripts_upgrade: "list_all upgrade_ddl init_sql" "list_all upgrade_ddl migration_0002_sql"
  by (simp_all add: init_sql_def migration_0002_sql_def v1_table_def)

lemma open_store_upgrades: "upgrades f (snd (open_store refused f))"
  by (auto simp: open_store_def apply_migration_0002_def split: option.splits prod.splits sum.splits
      dest!: sq_script_upgrades[OF _ scripts_upgrade(1)] sq_script_upgrades[OF _ scripts_upgrade(2)] ensure_column_upgrades
      intro: upgrades_trans)

section \<open>The registry after an upgrade\<close>

lemma those_map_Some: "those (map f xs) = Some ys \<Longrightarrow> those (map (\<lambda>x. map_option g (f x)) xs) = Some (map g ys)"
  by (induction xs arbitrary: ys) (auto split: option.splits)

lemma scan_base_append: "c \<notin> set (map fst row) \<Longrightarrow> c = ''project_id'' \<Longrightarrow> scan_base time (row @ [(c, v)]) = scan_base time row"
  by (simp add: scan_base_def column_def map_add_def split: option.splits)

lemma scan_upgraded:
  assumes "''project_id'' \<notin> set (map fst row)"
  shows "scan_tenant time (row @ [(''project_id'', SNull)]) = map_option (\<lambda>t. (None, t)) (scan_base time row)"
proof -
  have "map_of row ''project_id'' = None" using assms by (simp add: map_of_eq_None_iff)
  then have "column (row @ [(''project_id'', SNull)]) ''project_id'' as_tag = Some None"
    by (simp add: column_def map_add_def)
  then show ?thesis
    using scan_base_append[OF assms refl, of time SNull] by (simp add: scan_tenant_def map_option_case split: option.split)
qed

lemma open_store_tenants:
  assumes "open_store refused f = (Inr (), f1)" "schema_ok f" "map_of (sq_tables f) ''tenants'' = Some tb"
  shows "map_of (sq_tables f1) ''tenants'' =
    Some (if ''project_id'' \<in> set (tb_columns tb) then tb else add_column ''project_id'' SNull tb)"
proof -
  have u: "map_of (sq_tables f1) ''tenants'' = Some tb \<or>
      ''project_id'' \<notin> set (tb_columns tb) \<and> map_of (sq_tables f1) ''tenants'' = Some (add_column ''project_id'' SNull tb)"
    using open_store_upgrades[of f refused] assms by (simp add: upgrades_def)
  have "schema_complete f1" by (rule open_store_success[OF assms(1,2)])
  then have "''project_id'' \<in> set (columns_of ''tenants'' f1)"
    by (simp add: schema_complete_def v1_tables_def added_columns_def)
  then show ?thesis using u by (auto simp: columns_of_def add_column_def)
qed

lemma insort_key_map: "insort_key f (g x) (map g xs) = map g (insort_key (\<lambda>y. f (g y)) x xs)"
  by (induction xs) auto

lemma sort_key_map: "sort_key f (map g xs) = map g (sort_key (\<lambda>x. f (g x)) xs)"
  by (induction xs) (simp_all add: insort_key_map)

lemma scan_base_untagged: "those (map (scan_base time) rows) = Some ts \<Longrightarrow> t \<in> set ts \<Longrightarrow> t_project_id t = ''''"
  by (induction rows arbitrary: ts) (auto simp: scan_base_def Option.bind_eq_Some_conv split: option.splits)

lemma untagged_listing:
  assumes "db_tenants db = map (\<lambda>t. (None, t)) ts" "db_faults db = []" "\<forall>t \<in> set ts. t_project_id t = ''''"
  shows "list_tenants db = ((None, sort_key t_id ts), db)" "list_tenants_filtered (Some '''') db = list_tenants db"
    "p \<noteq> '''' \<Longrightarrow> list_tenants_filtered (Some p) db = ((None, []), db)"
proof -
  have "read_tenant (None, t) = t" if "t \<in> set ts" for t
    using assms(3) that by (simp add: read_tenant_def coalesce_def)
  then have "map read_tenant (sort_key st_id (map (\<lambda>t. (None, t)) ts)) = sort_key t_id ts"
    by (auto simp: sort_key_map intro!: map_idI)
  then show "list_tenants db = ((None, sort_key t_id ts), db)"
    using assms(1,2) by (simp add: list_tenants_def list_tenants_query_def sql_query_def sql_point_def)
  show "list_tenants_filtered (Some '''') db = list_tenants db" "p \<noteq> '''' \<Longrightarrow> list_tenants_filtered (Some p) db = ((None, []), db)"
    using assms(1,2)
    by (simp_all add: list_tenants_filtered_def list_tenants_def list_tenants_query_def sql_query_def sql_point_def filter_map comp_def)
qed

text \<open>
  C37. An upgrade keeps the tenants: when the program opens a file of its first version, the tenants
  that were in it are read with every value unchanged and without a project tag, so that the
  registry that works on the file lists all of them, also when asked for the untagged ones, and none
  for a project; from a file that has the column already, the same tenants are read as before.
\<close>

theorem upgrade_keeps_tenants:
  assumes "open_store refused f = (Inr (), f1)" "schema_ok f" "map_of (sq_tables f) ''tenants'' = Some tb"
    and "\<forall>row \<in> set (tb_rows tb). map fst row = tb_columns tb"
  shows "if ''project_id'' \<in> set (tb_columns tb) then file_tenants time f1 = file_tenants time f
    else \<forall>ts. those (map (scan_base time) (tb_rows tb)) = Some ts \<longrightarrow>
      file_tenants time f1 = Some (map (\<lambda>t. (None, t)) ts) \<and>
      (\<forall>db p. db_faults db = [] \<and> Some (db_tenants db) = file_tenants time f1 \<longrightarrow>
        list_tenants db = ((None, sort_key t_id ts), db) \<and> list_tenants_filtered (Some '''') db = list_tenants db \<and>
        (p \<noteq> '''' \<longrightarrow> list_tenants_filtered (Some p) db = ((None, []), db)))"
proof (cases "''project_id'' \<in> set (tb_columns tb)")
  case True
  then show ?thesis using open_store_tenants[OF assms(1-3)] assms(3) by (simp add: file_tenants_def)
next
  case False
  have t: "file_tenants time f1 = Some (map (\<lambda>t. (None, t)) ts)" if ts: "those (map (scan_base time) (tb_rows tb)) = Some ts" for ts
  proof -
    have "map (scan_tenant time) (map (\<lambda>r. r @ [(''project_id'', SNull)]) (tb_rows tb)) =
        map (\<lambda>r. map_option (\<lambda>t. (None, t)) (scan_base time r)) (tb_rows tb)"
      using False assms(4) by (auto intro: scan_upgraded)
    then show ?thesis
      using open_store_tenants[OF assms(1-3)] False those_map_Some[OF ts, of "\<lambda>t. (None, t)"]
      by (simp add: file_tenants_def add_column_def del: map_map)
  qed
  show ?thesis
    using False t untagged_listing scan_base_untagged by auto
qed

text \<open>A file of version 1 with two tenants, listed by the upgraded registry in the order of their identifiers.\<close>

definition old_row :: "string \<Rightarrow> (string \<times> sql_value) list" where
  "old_row i = [(''id'', SText i), (''name'', SText ''N''), (''domain'', SText ''d.example''), (''retention'', SText ''7d''),
     (''schema_version'', SInt 1), (''status'', SText ''active''), (''created_at'', SInt 5), (''updated_at'', SInt 6)]"

definition old_file :: sqlite_file where
  "old_file = \<lparr>sq_tables = [(''tenants'', \<lparr>tb_columns = map fst (old_row ''''), tb_rows = [old_row ''tnt_b'', old_row ''tnt_a'']\<rparr>)],
     sq_indexes = [], sq_faults = []\<rparr>"

theorem upgrade_keeps_tenants_witness:
  "\<exists>f1 ts db. open_store None old_file = (Inr (), f1) \<and> file_tenants as_int f1 = Some (db_tenants db) \<and>
     list_tenants db = ((None, ts), db) \<and> map t_id ts = [''tnt_a'', ''tnt_b''] \<and> map t_created_at ts = [5, 5] \<and>
     list_tenants_filtered (Some ''p-1'') db = ((None, []), db)"
proof -
  have ok: "schema_ok old_file"
    by (simp add: schema_ok_def v1_tables_def old_file_def old_row_def)
  obtain f1 where o: "open_store None old_file = (Inr (), f1)"
    using open_store_completes[OF ok] by (auto simp: old_file_def)
  let ?t = "\<lambda>i. \<lparr>t_id = i, t_name = ''N'', t_domain = ''d.example'', t_retention = ''7d'', t_schema_version = 1,
      t_status = ''active'', t_project_id = '''', t_created_at = 5, t_updated_at = 6\<rparr>"
  let ?ts = "[?t ''tnt_b'', ?t ''tnt_a'']"
  let ?tb = "\<lparr>tb_columns = map fst (old_row ''''), tb_rows = [old_row ''tnt_b'', old_row ''tnt_a'']\<rparr>"
  define db where "db = (empty_db 0)\<lparr>db_tenants := map (\<lambda>t. (None, t)) ?ts\<rparr>"
  have tb: "map_of (sq_tables old_file) ''tenants'' = Some ?tb" by (simp add: old_file_def)
  have r: "\<forall>row \<in> set (tb_rows ?tb). map fst row = tb_columns ?tb" by (simp add: old_row_def)
  have n: "''project_id'' \<notin> set (tb_columns ?tb)" by (simp add: old_row_def)
  have b: "those (map (scan_base as_int) (tb_rows ?tb)) = Some ?ts"
    by (simp add: scan_base_def column_def old_row_def)
  have f: "db_faults db = []" by (simp add: db_def empty_db_def)
  note u = upgrade_keeps_tenants[OF o ok tb r, of as_int, unfolded if_not_P[OF n], rule_format, OF b]
  have t: "file_tenants as_int f1 = Some (db_tenants db)" using u by (simp add: db_def)
  have "list_tenants db = ((None, sort_key t_id ?ts), db)" "list_tenants_filtered (Some ''p-1'') db = ((None, []), db)"
    using u f t by auto
  moreover have "sort_key t_id ?ts = [?t ''tnt_a'', ?t ''tnt_b'']" by simp
  ultimately show ?thesis using o t by (intro exI[of _ f1] exI[of _ "[?t ''tnt_a'', ?t ''tnt_b'']"] exI[of _ db]) simp
qed

end
