(* ===== verification/Admin.thy ===== *)
theory Admin
  imports Cli Schema StoreInv
begin

text \<open>
  The commands of \<^verbatim>\<open>cmd/controlai\<close> that do not go through the API: tokens, migration and backups
  (on the registry and the files), a certificate authority by hand, the shared proxy, and the
  installation as a service; with the log level of \<^verbatim>\<open>internal/log\<close>.  Whether the registry opens is
  an argument (\<^term>\<open>None\<close>: it does); \<^verbatim>\<open>docker\<close>, the shell and the dialled ports are parameters.
\<close>

section \<open>Logging\<close>

datatype log_level = LevelDebug | LevelInfo | LevelWarn | LevelError

definition log_init :: "string \<Rightarrow> log_level" where
  "log_init level =
     (let l = map to_lower level in
      if l = ''debug'' then LevelDebug else if l = ''warn'' then LevelWarn else if l = ''error'' then LevelError else LevelInfo)"

definition initial_level :: log_level where
  "initial_level = LevelInfo"

text \<open>
  The logger is its level: \<^verbatim>\<open>slog\<close> writes a record whose level is not below that of the handler and
  drops it otherwise.
\<close>

definition level_value :: "log_level \<Rightarrow> int" where
  "level_value l = (case l of LevelDebug \<Rightarrow> -4 | LevelInfo \<Rightarrow> 0 | LevelWarn \<Rightarrow> 4 | LevelError \<Rightarrow> 8)"

type_synonym 'a log_records = "(log_level \<times> string \<times> 'a list) list"

definition log_at :: "log_level \<Rightarrow> log_level \<Rightarrow> string \<Rightarrow> 'a list \<Rightarrow> 'a log_records \<Rightarrow> 'a log_records" where
  "log_at logger l msg args out = (if level_value l \<ge> level_value logger then out @ [(l, msg, args)] else out)"

definition log_debug :: "log_level \<Rightarrow> string \<Rightarrow> 'a list \<Rightarrow> 'a log_records \<Rightarrow> 'a log_records" where
  "log_debug logger = log_at logger LevelDebug"

definition log_info :: "log_level \<Rightarrow> string \<Rightarrow> 'a list \<Rightarrow> 'a log_records \<Rightarrow> 'a log_records" where
  "log_info logger = log_at logger LevelInfo"

definition log_warn :: "log_level \<Rightarrow> string \<Rightarrow> 'a list \<Rightarrow> 'a log_records \<Rightarrow> 'a log_records" where
  "log_warn logger = log_at logger LevelWarn"

definition log_error :: "log_level \<Rightarrow> string \<Rightarrow> 'a list \<Rightarrow> 'a log_records \<Rightarrow> 'a log_records" where
  "log_error logger = log_at logger LevelError"

text \<open>An error is never dropped, and an unknown level name leaves the logger as it started.\<close>

lemma error_is_logged: "log_error logger msg args out = out @ [(LevelError, msg, args)]"
  by (simp add: log_error_def log_at_def level_value_def split: log_level.split)

lemma unknown_level: "map to_lower level \<notin> {''debug'', ''warn'', ''error''} \<Longrightarrow> log_init level = initial_level"
  by (simp add: log_init_def initial_level_def Let_def)

section \<open>Tokens\<close>

definition with_store :: "string option \<Rightarrow> (db \<Rightarrow> (cli_error + 'a) \<times> db) \<Rightarrow> db \<Rightarrow> (cli_error + 'a) \<times> db" where
  "with_store opened k db = (case opened of Some e \<Rightarrow> (Inl (OpenStore e), db) | None \<Rightarrow> k db)"

definition token_create_cmd ::
  "(string \<Rightarrow> string) \<Rightarrow> string + string \<Rightarrow> string \<Rightarrow> string option \<Rightarrow> string \<Rightarrow> db \<Rightarrow> (cli_error + (string \<times> token_row)) \<times> db"
where
  "token_create_cmd sha rnd uuid_bytes opened name =
     with_store opened (\<lambda>db.
       case create_token sha rnd uuid_bytes name db of
         (Inl e, db1) \<Rightarrow> (Inl (TokenError e), db1)
       | (Inr t, db1) \<Rightarrow> (Inr t, snd (emit (new_event kind_token_create '''' '''' '''' True '''') db1)))"

definition token_list_cmd :: "string option \<Rightarrow> db \<Rightarrow> (cli_error + (string \<times> string \<times> string) list) \<times> db" where
  "token_list_cmd opened =
     with_store opened (\<lambda>db.
       case list_tokens db of
         ((Some e, _), db1) \<Rightarrow> (Inl (CliStore e), db1)
       | ((None, rows), db1) \<Rightarrow> (Inr (map (\<lambda>r. (k_id r, k_display_name r, k_prefix r)) rows), db1))"

definition token_revoke_cmd :: "string option \<Rightarrow> string \<Rightarrow> db \<Rightarrow> (cli_error + unit) \<times> db" where
  "token_revoke_cmd opened tid =
     with_store opened (\<lambda>db.
       case revoke_token tid db of
         (Inl e, db1) \<Rightarrow> (Inl (CliStore e), db1)
       | (Inr _, db1) \<Rightarrow> (Inr (), snd (emit (new_event kind_token_revoke '''' '''' '''' True '''') db1)))"

section \<open>Migration\<close>

definition migrate_event :: "(string \<Rightarrow> string) \<Rightarrow> string \<Rightarrow> event" where
  "migrate_event quote f =
     new_event kind_migrate_apply '''' ''''
       (''{\"file\":'' @ quote f @ '',\"target_version\":'' @ itoa max_schema_version @ ''}'') True ''''"

text \<open>The events are written after the files; a registry that does not open is only a warning.\<close>

definition migrate_cmd ::
  "(string \<Rightarrow> string) \<Rightarrow> yaml_lib \<Rightarrow> migrations \<Rightarrow> walk_entry list \<Rightarrow> bool \<Rightarrow> string option \<Rightarrow> fs \<Rightarrow> db \<Rightarrow>
     (cli_error + string list) \<times> fs \<times> db"
where
  "migrate_cmd quote yl reg tree dry_run opened s db =
     (case walk_and_migrate yl reg max_schema_version dry_run tree [] s of
        ((Some e, _), s1) \<Rightarrow> (Inl (MigrateError e), s1, db)
      | ((None, migrated), s1) \<Rightarrow>
          if dry_run \<or> migrated = [] \<or> opened \<noteq> None then (Inr migrated, s1, db)
          else (Inr migrated, s1, fold (\<lambda>f db. snd (emit (migrate_event quote f) db)) migrated db))"

section \<open>Backups\<close>

definition cli_manager :: "string \<Rightarrow> manager" where
  "cli_manager data_dir = \<lparr>mg_data_dir = data_dir, mg_backup_root = ''''\<rparr>"

definition backup_run_cmd ::
  "(string \<Rightarrow> string) \<Rightarrow> (string \<Rightarrow> string option) \<Rightarrow> (string list \<Rightarrow> dump_run) \<Rightarrow> string \<Rightarrow> string \<Rightarrow> instant \<Rightarrow> dir_state \<Rightarrow>
     (backup_error + string) \<times> dir_state"
where
  "backup_run_cmd gzip stat exec data_dir tenant t d = backup_run gzip stat exec (cli_manager data_dir) tenant t d"

text \<open>A path whose status cannot be read is printed without its time.\<close>

definition backup_ls_cmd ::
  "(string \<Rightarrow> string option) \<Rightarrow> string \<Rightarrow> string \<Rightarrow> dir_state \<Rightarrow> (io_error + (string \<times> string option) list) \<times> dir_state"
where
  "backup_ls_cmd mtime data_dir tenant d =
     (case list_backups (cli_manager data_dir) tenant d of
        (Inl e, d1) \<Rightarrow> (Inl e, d1)
      | (Inr paths, d1) \<Rightarrow> (Inr (map (\<lambda>p. (p, mtime p)) paths), d1))"

section \<open>A certificate authority by hand\<close>

text \<open>The authority is printed and dropped: neither the registry nor a file keeps it.\<close>

definition ca_create_cmd :: "(cert \<Rightarrow> string) \<Rightarrow> instant \<Rightarrow> randomness \<Rightarrow> string \<Rightarrow> string \<Rightarrow> cli_error + string" where
  "ca_create_cmd fp t rnd env_value site =
     (case master_key False env_value of
        Inl e \<Rightarrow> Inl (CliPki e)
      | Inr key \<Rightarrow>
          if site = '''' then Inl (Usage ''--site is required'')
          else case generate_ca fp t rnd ''manual'' site key of
            Inl e \<Rightarrow> Inl (CliPki e)
          | Inr c \<Rightarrow> Inr (ca_fingerprint c))"

section \<open>The ports of the shared proxy\<close>

datatype ports_result = PortsOk | PortsCancelled | PortsMissing "string list"

definition shared_ports :: "string list" where
  "shared_ports = [''80'', ''443'', ''8883'']"

definition max_wait :: duration where "max_wait = 30 * second"
definition base_delay :: duration where "base_delay = second div 2"

text \<open>The delay after \<open>k\<close> doublings; it is doubled while it is below five seconds.\<close>

definition ports_delay :: "nat \<Rightarrow> duration" where
  "ports_delay k = base_delay * 2 ^ k"

definition next_doubling :: "nat \<Rightarrow> nat" where
  "next_doubling k = (if ports_delay k < 5 * second then Suc k else k)"

text \<open>
  A dial answers whether the port accepted the connection, and takes time.  The ports are kept in
  a Go map: the order of a round is given by \<open>ord\<close>.
\<close>

fun dial_round :: "(string \<Rightarrow> instant \<Rightarrow> bool \<times> nat) \<Rightarrow> string list \<Rightarrow> instant \<Rightarrow> string list \<times> instant" where
  "dial_round dial [] t = ([], t)"
| "dial_round dial (p # ps) t =
     (case dial p t of (ok, n) \<Rightarrow>
        (case dial_round dial ps (t + int n) of (rest, t') \<Rightarrow> (if ok then rest else p # rest, t')))"

lemma ports_delay_pos: "0 < ports_delay k"
  by (simp add: ports_delay_def base_delay_def second_def)

lemma dial_round_time: "dial_round dial ps t = (rest, t') \<Longrightarrow> t \<le> t'"
  by (induction ps arbitrary: t rest) (force split: prod.splits)+

lemma round_advances:
  "dial_round dial ps t = (rest, t1) \<Longrightarrow> t < d \<Longrightarrow> d - (t1 + ports_delay k) < d - t"
  using dial_round_time[of dial ps t rest t1] ports_delay_pos[of k] by simp

function ports_loop ::
  "(string \<Rightarrow> instant \<Rightarrow> bool \<times> nat) \<Rightarrow> (instant \<Rightarrow> string list \<Rightarrow> string list) \<Rightarrow> instant option \<Rightarrow> instant \<Rightarrow> nat \<Rightarrow> string list \<Rightarrow>
     instant \<Rightarrow> ports_result \<times> instant"
where
  "ports_loop dial ord cancelled deadline k unreachable t =
     (if t < deadline then
        (case dial_round dial (ord t unreachable) t of (rest, t1) \<Rightarrow>
           if rest = [] then (PortsOk, t1)
           else case cancelled of
             Some c \<Rightarrow> if c \<le> t1 + ports_delay k then (PortsCancelled, max t1 c)
                       else ports_loop dial ord cancelled deadline (next_doubling k) rest (t1 + ports_delay k)
           | None \<Rightarrow> ports_loop dial ord cancelled deadline (next_doubling k) rest (t1 + ports_delay k))
      else (PortsMissing (map (\<lambda>p. CHR '':'' # p) (ord t unreachable)), t))"
  by pat_completeness auto

termination
  by (relation "measure (\<lambda>(dial, ord, cancelled, deadline, k, unreachable, t). nat (deadline - t))")
    (auto dest: round_advances[OF sym])

declare ports_loop.simps [simp del]

definition verify_ports_reachable ::
  "(string \<Rightarrow> instant \<Rightarrow> bool \<times> nat) \<Rightarrow> (instant \<Rightarrow> string list \<Rightarrow> string list) \<Rightarrow> instant option \<Rightarrow> instant \<Rightarrow> ports_result \<times> instant"
where
  "verify_ports_reachable dial ord cancelled t = ports_loop dial ord cancelled (t + max_wait) 0 shared_ports t"

section \<open>The shared proxy\<close>

definition no_tenant :: tenant_ctx where
  "no_tenant = \<lparr>tx_id = '''', tx_name = '''', tx_domain = '''', tx_retention = '''', tx_chunk_time_interval = '''',
     tx_compression_on = False, tx_schema_version = 0\<rparr>"

definition shared_render_ctx :: "string \<Rightarrow> bool \<Rightarrow> render_context" where
  "shared_render_ctx domain acme =
     \<lparr>rx_tenant = no_tenant, rx_site = None, rx_shared = Some \<lparr>sh_acme_enabled = acme, sh_domain = domain\<rparr>,
      rx_creds = None, rx_pki = None\<rparr>"

definition shared_dir :: "string \<Rightarrow> string" where
  "shared_dir data_dir = data_dir @ ''/shared''"

definition shared_up :: "string \<Rightarrow> string list" where
  "shared_up data_dir = up_cmd ''controlai-shared'' (shared_dir data_dir @ ''/docker-compose.yml'') []"

text \<open>
  \<open>docker\<close> gives the error of a command line.  Ports that do not answer are only a warning: their
  result is printed.
\<close>

definition shared_init_cmd ::
  "template_engine \<Rightarrow> (string \<Rightarrow> string) \<Rightarrow> (string list \<Rightarrow> string option) \<Rightarrow> (string \<Rightarrow> instant \<Rightarrow> bool \<times> nat) \<Rightarrow>
     (instant \<Rightarrow> string list \<Rightarrow> string list) \<Rightarrow> instant option \<Rightarrow> string \<Rightarrow> string \<Rightarrow> bool \<Rightarrow> instant \<Rightarrow> fs \<Rightarrow>
     (cli_error + ports_result) \<times> string list list \<times> fs"
where
  "shared_init_cmd exec sha docker dial ord cancelled data_dir domain acme t s =
     (case render_shared exec sha (shared_render_ctx domain acme) of
        Inl e \<Rightarrow> (Inl (CliRender ''render shared'' e), [], s)
      | Inr results \<Rightarrow>
          (case write_results (shared_dir data_dir) results s of
             (Inl e, s1) \<Rightarrow> (Inl (CliRender ''write shared'' e), [], s1)
           | (Inr _, s1) \<Rightarrow>
               (case os_mkdir_all (shared_dir data_dir @ ''/traefik/dynamic'') s1 of
                  (Inl e, s2) \<Rightarrow> (Inl (CliIO ''create dynamic dir'' e), [], s2)
                | (Inr _, s2) \<Rightarrow>
                    (case docker (shared_up data_dir) of
                       Some e \<Rightarrow> (Inl (StartShared e), [shared_up data_dir], s2)
                     | None \<Rightarrow> (Inr (fst (verify_ports_reachable dial ord cancelled t)), [shared_up data_dir], s2)))))"

section \<open>Installation\<close>

text \<open>A host has its files and the shell commands that were run; \<open>shell\<close> gives a command's error.\<close>

record host =
  ho_fs :: fs
  ho_ran :: "string list list"

type_synonym install_step = "host \<Rightarrow> install_error option \<times> host"

definition run_shell :: "(string list \<Rightarrow> string option) \<Rightarrow> string list \<Rightarrow> install_step" where
  "run_shell shell cmd h = (map_option (ShellFailed cmd) (shell cmd), h\<lparr>ho_ran := ho_ran h @ [cmd]\<rparr>)"

definition ignoring :: "install_step \<Rightarrow> install_step" where
  "ignoring st h = (None, snd (st h))"

fun in_turn :: "install_step list \<Rightarrow> install_step" where
  "in_turn [] h = (None, h)"
| "in_turn (st # sts) h = (case st h of (Some e, h1) \<Rightarrow> (Some e, h1) | (None, h1) \<Rightarrow> in_turn sts h1)"

definition host_mkdir :: "string \<Rightarrow> install_step" where
  "host_mkdir d h = (case os_mkdir_all d (ho_fs h) of
     (Inl e, s) \<Rightarrow> (Some (InstallIO (''mkdir '' @ d) e), h\<lparr>ho_fs := s\<rparr>) | (Inr _, s) \<Rightarrow> (None, h\<lparr>ho_fs := s\<rparr>))"

definition host_write :: "string \<Rightarrow> string \<Rightarrow> install_step" where
  "host_write path text h = (case os_write_file path (RawBytes text) (ho_fs h) of
     (Inl e, s) \<Rightarrow> (Some (InstallIO path e), h\<lparr>ho_fs := s\<rparr>) | (Inr _, s) \<Rightarrow> (None, h\<lparr>ho_fs := s\<rparr>))"

definition systemd_service_unit :: string where
  "systemd_service_unit = lines
     [''[Unit]'',
      ''Description=controlai '' @ [CHR 0xE2, CHR 0x80, CHR 0x94] @ '' multi-tenant IoT data-pipeline control plane'',
      ''Documentation=https://github.com/your-org/controlai'',
      ''After=network.target docker.service'',
      ''Requires=docker.service'',
      '''',
      ''[Service]'',
      ''Type=exec'',
      ''User=controlai'',
      ''Group=controlai'',
      ''EnvironmentFile=-/etc/controlai/env'',
      ''ExecStart=/usr/local/bin/controlai daemon start'',
      ''ExecReload=/bin/kill -HUP $MAINPID'',
      ''KillMode=process'',
      ''Restart=on-failure'',
      ''RestartSec=5s'',
      ''TimeoutStartSec=30'',
      ''TimeoutStopSec=30'',
      '''',
      ''# Runtime directory: /run/controlai/ owned by controlai:controlai, created'',
      ''# at start and cleaned up at stop. Daemon binds /run/controlai/controlai.sock here.'',
      ''RuntimeDirectory=controlai'',
      ''RuntimeDirectoryMode=0755'',
      '''',
      ''# Security hardening'',
      ''NoNewPrivileges=yes'',
      ''ProtectSystem=strict'',
      ''ProtectHome=yes'',
      ''ReadWritePaths=/var/lib/controlai /var/backups/controlai'',
      ''PrivateTmp=yes'',
      '''',
      ''[Install]'',
      ''WantedBy=multi-user.target'']"

definition binary_path :: string where "binary_path = ''/usr/local/bin/controlai''"
definition service_path :: string where "service_path = ''/etc/systemd/system/controlai.service''"
definition backup_service_path :: string where "backup_service_path = ''/etc/systemd/system/controlai-backup@.service''"

definition install_dirs :: "string list" where
  "install_dirs = [''/var/lib/controlai'', ''/var/lib/controlai/tenants'', ''/var/lib/controlai/shared'', ''/var/backups/controlai'']"

definition enable_service :: "string list" where
  "enable_service = [''systemctl'', ''enable'', ''controlai.service'']"

definition install_steps :: "(string list \<Rightarrow> string option) \<Rightarrow> string \<Rightarrow> (string \<times> install_step) list" where
  "install_steps shell self =
    [(''create controlai system user/group'', in_turn
       [ignoring (run_shell shell [''groupadd'', ''--system'', ''controlai'']),
        ignoring (run_shell shell [''useradd'', ''--system'', ''--no-create-home'', ''--gid'', ''controlai'',
          ''--shell'', ''/usr/sbin/nologin'', ''--comment'', ''controlai daemon'', ''controlai''])]),
     (''create data directories'', in_turn (map host_mkdir install_dirs @
       [ignoring (run_shell shell [''chown'', ''-R'', ''controlai:controlai'', ''/var/lib/controlai'']),
        ignoring (run_shell shell [''chown'', ''-R'', ''controlai:controlai'', ''/var/backups/controlai''])])),
     (''install binary to /usr/local/bin/controlai'', in_turn
       (if self = binary_path then []
        else [run_shell shell [''install'', ''-m'', ''0755'', ''-o'', ''root'', ''-g'', ''root'', self, binary_path]])),
     (''write systemd unit file'', host_write service_path systemd_service_unit),
     (''write systemd backup service template'', host_write backup_service_path systemd_backup_service_unit),
     (''reload systemd and enable controlai.service'', in_turn
       [run_shell shell [''systemctl'', ''daemon-reload''], run_shell shell enable_service])]"

fun run_steps :: "(string \<times> install_step) list \<Rightarrow> host \<Rightarrow> cli_error option \<times> host" where
  "run_steps [] h = (None, h)"
| "run_steps ((desc, st) # sts) h =
     (case st h of (Some e, h1) \<Rightarrow> (Some (StepFailed desc e), h1) | (None, h1) \<Rightarrow> run_steps sts h1)"

text \<open>\<^verbatim>\<open>os.Executable\<close> gives the path of the program or an error.\<close>

definition install_cmd :: "(string list \<Rightarrow> string option) \<Rightarrow> string + string \<Rightarrow> host \<Rightarrow> cli_error option \<times> host" where
  "install_cmd shell self h =
     (case self of
        Inl e \<Rightarrow> (Some (StepFailed ''determine executable path'' (InstallIO '''' (IOError e))), h)
      | Inr path \<Rightarrow> run_steps (install_steps shell path) h)"

section \<open>The port check\<close>

lemma dial_round_facts:
  assumes "\<forall>p t. int (snd (dial p t)) \<le> second" "dial_round dial ps t = (rest, t')"
  shows "t' \<le> t + int (length ps) * second \<and> length rest \<le> length ps \<and> set rest \<subseteq> set ps \<and>
    (\<forall>p \<in> set ps. p \<in> set rest \<or> (\<exists>u. t \<le> u \<and> u \<le> t' \<and> fst (dial p u)))"
  using assms(2)
proof (induction ps arbitrary: t t' rest)
  case (Cons p ps)
  obtain ok n where d: "dial p t = (ok, n)" by fastforce
  obtain r t1 where r: "dial_round dial ps (t + int n) = (r, t1)" by fastforce
  have out: "rest = (if ok then r else p # r)" "t' = t1" using Cons.prems d r by (auto split: if_splits)
  have n: "int n \<le> second" using assms(1) d by (metis snd_conv)
  note IH = Cons.IH[OF r]
  then have accepted: "\<forall>p \<in> set ps. p \<in> set r \<or> (\<exists>u. t + int n \<le> u \<and> u \<le> t1 \<and> fst (dial p u))" by simp
  have tn: "t + int n \<le> t'" using dial_round_time[OF r] out by simp
  have p: "\<exists>u. t \<le> u \<and> u \<le> t' \<and> fst (dial p u)" if ok
    using that d tn by (intro exI[of _ t]) simp
  have q: "\<exists>u. t \<le> u \<and> u \<le> t' \<and> fst (dial q u)" if qs: "q \<in> set ps" and nr: "q \<notin> set r" for q
  proof -
    obtain u where "t + int n \<le> u" "u \<le> t1" "fst (dial q u)" using bspec[OF accepted qs] nr by auto
    then show ?thesis using out by (intro exI[of _ u]) simp
  qed
  have "q \<in> set rest \<or> (\<exists>u. t \<le> u \<and> u \<le> t' \<and> fst (dial q u))" if "q \<in> set (p # ps)" for q
  proof (cases "q \<in> set rest")
    case False
    then show ?thesis using that out p q[of q] by (cases "q = p") (simp_all split: if_splits)
  qed simp
  moreover have "t' \<le> t + int (length (p # ps)) * second"
    using IH n out by (simp add: algebra_simps)
  moreover have "length rest \<le> length (p # ps)" "set rest \<subseteq> set (p # ps)"
    using IH out by auto
  ultimately show ?case by blast
qed simp

lemma doublings: "k \<le> 4 \<Longrightarrow> next_doubling k \<le> 4 \<and> ports_delay k \<le> 8 * second"
proof -
  assume "k \<le> 4"
  then have "k \<in> {0, 1, 2, 3, 4}" by auto
  then show ?thesis by (auto simp: next_doubling_def ports_delay_def base_delay_def second_def)
qed

lemma ports_loop_facts:
  assumes "\<forall>p t. int (snd (dial p t)) \<le> second" "\<forall>t xs. mset (ord t xs) = mset xs"
    and "ports_loop dial ord cancelled deadline k us t = (r, t')" "k \<le> 4" "length us \<le> 3" "us \<noteq> []"
  shows "t' \<le> max t (deadline + 11 * second) \<and> t \<le> t' \<and>
    (r = PortsOk \<longrightarrow> (\<forall>p \<in> set us. \<exists>u. t \<le> u \<and> u \<le> t' \<and> fst (dial p u))) \<and>
    (\<forall>ms. r = PortsMissing ms \<longrightarrow> deadline \<le> t' \<and> ms \<noteq> [] \<and> set ms \<subseteq> (\<lambda>p. CHR '':'' # p) ` set us)"
  using assms
proof (induction dial ord cancelled deadline k us t rule: ports_loop.induct)
  case (1 dial ord cancelled deadline k us t)
  have ord: "set (ord t us) = set us" "length (ord t us) = length us" "ord t us \<noteq> []"
    using 1(4,8) mset_eq_setD mset_eq_length by (metis, metis, metis mset_zero_iff_right)
  show ?case
  proof (cases "t < deadline")
    case False
    then show ?thesis using 1(5) ord by (auto simp: ports_loop.simps)
  next
    case True
    obtain rest t1 where d: "dial_round dial (ord t us) t = (rest, t1)" by fastforce
    note df = dial_round_facts[OF 1(3) d] dial_round_time[OF d]
    have t1: "t1 \<le> deadline + 3 * second" "length rest \<le> 3"
      using df ord True 1(7) by (auto simp: second_def)
    have dl: "ports_delay k \<le> 8 * second" "next_doubling k \<le> 4" "0 < ports_delay k"
      using doublings[OF 1(6)] ports_delay_pos by auto
    show ?thesis
    proof (cases "rest = [] \<or> (\<exists>c. cancelled = Some c \<and> c \<le> t1 + ports_delay k)")
      case True
      then show ?thesis
        using 1(5) \<open>t < deadline\<close> d df ord t1 dl by (auto simp: ports_loop.simps second_def split: if_splits)
    next
      case False
      have l: "ports_loop dial ord cancelled deadline (next_doubling k) rest (t1 + ports_delay k) = (r, t')"
        using 1(5)[unfolded ports_loop.simps[of dial ord cancelled deadline k us t]] \<open>t < deadline\<close> d False
        by (auto split: option.splits if_splits)
      have IH: "t' \<le> max (t1 + ports_delay k) (deadline + 11 * second) \<and> t1 + ports_delay k \<le> t' \<and>
        (r = PortsOk \<longrightarrow> (\<forall>p \<in> set rest. \<exists>u. t1 + ports_delay k \<le> u \<and> u \<le> t' \<and> fst (dial p u))) \<and>
        (\<forall>ms. r = PortsMissing ms \<longrightarrow> deadline \<le> t' \<and> ms \<noteq> [] \<and> set ms \<subseteq> (\<lambda>p. CHR '':'' # p) ` set rest)"
        using 1(1)[OF \<open>t < deadline\<close> d[symmetric]] 1(2)[OF \<open>t < deadline\<close> d[symmetric]] 1(3,4) l dl(2) t1(2) False
        by (cases cancelled) blast+
      then have later: "r = PortsOk \<Longrightarrow> \<forall>p \<in> set rest. \<exists>u. t1 + ports_delay k \<le> u \<and> u \<le> t' \<and> fst (dial p u)" by simp
      have this_round: "\<forall>p \<in> set us. p \<in> set rest \<or> (\<exists>u. t \<le> u \<and> u \<le> t1 \<and> fst (dial p u))" using df ord by simp
      have "\<exists>u. t \<le> u \<and> u \<le> t' \<and> fst (dial p u)" if ok: "r = PortsOk" and us: "p \<in> set us" for p
      proof (cases "p \<in> set rest")
        case True
        then obtain u where "t1 + ports_delay k \<le> u" "u \<le> t'" "fst (dial p u)" using bspec[OF later[OF ok] True] by auto
        then show ?thesis using df dl by (intro exI[of _ u]) simp
      next
        case False
        then obtain u where "t \<le> u" "u \<le> t1" "fst (dial p u)" using bspec[OF this_round us] False by auto
        then show ?thesis using IH dl by (intro exI[of _ u]) simp
      qed
      moreover have "(\<lambda>p. CHR '':'' # p) ` set rest \<subseteq> (\<lambda>p. CHR '':'' # p) ` set us"
        using df ord by (intro image_mono) simp
      then have "\<forall>ms. r = PortsMissing ms \<longrightarrow> set ms \<subseteq> (\<lambda>p. CHR '':'' # p) ` set us" using IH by blast
      ultimately show ?thesis using IH df t1 dl by (auto simp: second_def)
    qed
  qed
qed

text \<open>
  C39. The check of the shared proxy's ports ends and tells the truth: when a dial takes at most its
  second, it is over 41 seconds after it began at the latest, in whatever order the ports are tried;
  it reports success only if every port accepted a connection meanwhile, and when it gives up the
  thirty seconds are over and it names ports of the list.
\<close>

theorem ports_check_sound:
  assumes "\<forall>p t. int (snd (dial p t)) \<le> second" "\<forall>t xs. mset (ord t xs) = mset xs"
    and "verify_ports_reachable dial ord cancelled t = (r, t')"
  shows "t \<le> t' \<and> t' \<le> t + 41 * second \<and>
    (r = PortsOk \<longrightarrow> (\<forall>p \<in> set shared_ports. \<exists>u. t \<le> u \<and> u \<le> t' \<and> fst (dial p u))) \<and>
    (\<forall>ms. r = PortsMissing ms \<longrightarrow> t + max_wait \<le> t' \<and> ms \<noteq> [] \<and> set ms \<subseteq> (\<lambda>p. CHR '':'' # p) ` set shared_ports)"
  using ports_loop_facts[OF assms(1,2) assms(3)[unfolded verify_ports_reachable_def]]
  by (simp add: shared_ports_def max_wait_def second_def)

text \<open>Two ports are open from the start and the third one after ten seconds.\<close>

definition late_port :: "string \<Rightarrow> instant \<Rightarrow> bool \<times> nat" where
  "late_port p t = (p \<noteq> ''8883'' \<or> 10 * second \<le> t, 0)"

theorem ports_check_sound_witness:
  "verify_ports_reachable late_port (\<lambda>t xs. rev xs) None 0 = (PortsOk, 15500000000) \<and>
   (\<exists>u. 0 \<le> u \<and> u \<le> 15500000000 \<and> fst (late_port ''8883'' u))"
proof -
  have v: "verify_ports_reachable late_port (\<lambda>t xs. rev xs) None 0 = (PortsOk, 15500000000)"
    by (simp add: verify_ports_reachable_def shared_ports_def max_wait_def ports_loop.simps late_port_def second_def
        ports_delay_def next_doubling_def base_delay_def)
  then show ?thesis
    using ports_check_sound[of late_port "\<lambda>t xs. rev xs" None 0 PortsOk 15500000000]
    by (simp add: late_port_def second_def shared_ports_def)
qed

section \<open>Tokens\<close>

lemma list_tokens_inv: "db_inv db \<Longrightarrow> db_inv (snd (list_tokens db))"
  by (simp add: list_tokens_def dbi.sql_query_P)

lemma token_cmds_keep_registry:
  assumes "db_inv db"
  shows "db_inv (snd (token_create_cmd sha rnd uuid_bytes opened name db))"
    "db_inv (snd (token_list_cmd opened db))"
    "db_inv (snd (token_revoke_cmd opened tid db))"
  using assms create_token_inv[OF assms, of sha rnd uuid_bytes name] list_tokens_inv[OF assms] write_inv(10)[OF assms, of tid]
  by (auto simp: token_create_cmd_def token_list_cmd_def token_revoke_cmd_def with_store_def
      split: option.split prod.split sum.split intro: emit_inv)

section \<open>Migration leaves a trail\<close>

lemma visit_untouched:
  assumes "visit yl reg target dry path s = (r, s1)" "r = Inr False \<or> q \<notin> {path, path @ ''.bak''}"
  shows "fs_files s1 q = fs_files s q"
  using assms
  by (auto simp: visit_def would_migrate_def migrate_file_def rewrite_file_def
      split: if_splits prod.splits sum.splits dest!: read_file_cases write_file_cases)

lemma walk_changes:
  assumes "walk_and_migrate yl reg target dry es acc s = ((None, out), s1)"
  shows "\<exists>did. out = acc @ did \<and> (\<forall>q. fs_files s1 q \<noteq> fs_files s q \<longrightarrow> (\<exists>p \<in> set did. q \<in> {p, p @ ''.bak''}))"
  using assms
proof (induction es arbitrary: acc s)
  case (Cons e es)
  show ?case
  proof (cases e)
    case (WalkFile path)
    then obtain did s2 where v: "visit yl reg target dry path s = (Inr did, s2)"
        and w: "walk_and_migrate yl reg target dry es (if did then acc @ [path] else acc) s2 = ((None, out), s1)"
      using Cons.prems by (auto split: prod.splits sum.splits)
    obtain rest where rest: "out = (if did then acc @ [path] else acc) @ rest"
        "\<forall>q. fs_files s1 q \<noteq> fs_files s2 q \<longrightarrow> (\<exists>p \<in> set rest. q \<in> {p, p @ ''.bak''})"
      using Cons.IH[OF w] by blast
    let ?did = "(if did then [path] else []) @ rest"
    have "\<exists>p \<in> set ?did. q \<in> {p, p @ ''.bak''}" if diff: "fs_files s1 q \<noteq> fs_files s q" for q
    proof (cases "fs_files s1 q = fs_files s2 q")
      case True
      then have "did \<and> q \<in> {path, path @ ''.bak''}" using diff visit_untouched[OF v, of q] by auto
      then show ?thesis by auto
    next
      case False
      then obtain p where "p \<in> set rest" "q \<in> {p, p @ ''.bak''}" using rest(2) by blast
      then show ?thesis by auto
    qed
    then show ?thesis using rest(1) by (intro exI[of _ ?did]) (cases did; simp)
  qed (use Cons in auto)
qed simp

lemma emit_appends:
  "db_faults db = [] \<Longrightarrow> ev_detail ev \<noteq> '''' \<Longrightarrow>
     \<exists>ev'. db_events (snd (emit ev db)) = db_events db @ [ev'] \<and> same_event ev' ev \<and> ev_detail ev' = ev_detail ev \<and>
       db_faults (snd (emit ev db)) = []"
  by (simp add: emit_def sql_exec_def sql_point_def insert_event_def same_event_def)

lemma migrate_events_appended:
  "db_faults db = [] \<Longrightarrow>
     \<exists>new. db_events (fold (\<lambda>f db. snd (emit (migrate_event quote f) db)) files db) = db_events db @ new \<and>
       list_all2 (\<lambda>f ev. same_event ev (migrate_event quote f) \<and> ev_detail ev = ev_detail (migrate_event quote f)) files new"
proof (induction files arbitrary: db)
  case (Cons f files)
  have "ev_detail (migrate_event quote f) \<noteq> ''''"
    by (simp add: migrate_event_def new_event_def)
  from emit_appends[OF Cons.prems this] obtain ev where
    ev: "db_events (snd (emit (migrate_event quote f) db)) = db_events db @ [ev]" "same_event ev (migrate_event quote f)"
      "ev_detail ev = ev_detail (migrate_event quote f)" "db_faults (snd (emit (migrate_event quote f) db)) = []"
    by blast
  obtain new where "db_events (fold (\<lambda>f db. snd (emit (migrate_event quote f) db)) files (snd (emit (migrate_event quote f) db))) =
        db_events db @ [ev] @ new"
      "list_all2 (\<lambda>f ev. same_event ev (migrate_event quote f) \<and> ev_detail ev = ev_detail (migrate_event quote f)) files new"
    using Cons.IH[OF ev(4)] ev(1) by auto
  then show ?case using ev by (intro exI[of _ "ev # new"]) simp
qed simp

text \<open>
  C40. A migration leaves a complete trail: when the command succeeds and the registry opens and
  takes the events, there is one new audit event for every migrated file, naming it, and any file
  whose content differs from before is one of them or its backup.
\<close>

theorem migrate_trail_complete:
  assumes "migrate_cmd quote yl reg tree False None s db = (Inr migrated, s', db')" "db_faults db = []"
  shows "(\<exists>new. db_events db' = db_events db @ new \<and>
            list_all2 (\<lambda>f ev. same_event ev (migrate_event quote f) \<and> ev_detail ev = ev_detail (migrate_event quote f)) migrated new) \<and>
         (\<forall>q. fs_files s' q \<noteq> fs_files s q \<longrightarrow> (\<exists>p \<in> set migrated. q \<in> {p, p @ ''.bak''}))"
proof -
  have w: "walk_and_migrate yl reg max_schema_version False tree [] s = ((None, migrated), s')"
    and db: "db' = fold (\<lambda>f db. snd (emit (migrate_event quote f) db)) migrated db"
    using assms(1) by (auto simp: migrate_cmd_def split: prod.splits option.splits if_splits)
  show ?thesis
    using walk_changes[OF w] migrate_events_appended[OF assms(2), of quote migrated] db by simp
qed

definition version_0_yaml :: yaml_lib where
  "version_0_yaml = \<lparr>yl_unmarshal = (\<lambda>b. if b = RawBytes ''v0'' then Inr (Some Map.empty) else Inr (Some [''schema_version'' \<mapsto> YInt 1])),
     yl_marshal = (\<lambda>m. Inr (RawBytes ''v1''))\<rparr>"

definition version_0_tree :: fs where
  "version_0_tree = \<lparr>fs_files = [''/t/site.yaml'' \<mapsto> RawBytes ''v0''], fs_faults = []\<rparr>"

theorem migrate_trail_complete_witness:
  "\<exists>s' db'. migrate_cmd id version_0_yaml [0 \<mapsto> Inr] [WalkDir ''/t'', WalkFile ''/t/site.yaml''] False None version_0_tree (empty_db 0) =
       (Inr [''/t/site.yaml''], s', db') \<and> map ev_kind (db_events db') = [''migrate.apply''] \<and>
     fs_files s' ''/t/tenant.yaml'' = None"
proof -
  have a: "apply_migrations [0 \<mapsto> Inr] path 1 0 (Some Map.empty) = Inr (Some [''schema_version'' \<mapsto> YInt 1])" for path
    by (subst apply_migrations.simps, simp, subst apply_migrations.simps, simp)
  have v: "schema_version (Some Map.empty) = (0, Some ''schema_version missing'')" by (simp add: schema_version_def)
  have b: "path_base ''/t/site.yaml'' = ''site.yaml''" by (simp add: path_base_def Let_def)
  obtain s' where m: "migrate_file version_0_yaml [0 \<mapsto> Inr] ''/t/site.yaml'' 1 version_0_tree = (Inr True, s')"
    by (simp add: migrate_file_def version_0_tree_def os_read_file_def os_write_file_def pop_io_fault_def version_0_yaml_def
        v rewrite_file_def a)
  obtain db' where c: "migrate_cmd id version_0_yaml [0 \<mapsto> Inr] [WalkDir ''/t'', WalkFile ''/t/site.yaml''] False None version_0_tree
      (empty_db 0) = (Inr [''/t/site.yaml''], s', db')"
    by (simp add: migrate_cmd_def max_schema_version_def visit_def b schema_files_def m)
  have "db_faults (empty_db 0) = []" "db_events (empty_db 0) = []" by (simp_all add: empty_db_def)
  with migrate_trail_complete[OF c] have t: "\<exists>ev. db_events db' = [ev] \<and> same_event ev (migrate_event id ''/t/site.yaml'')"
      "\<forall>q. fs_files s' q \<noteq> fs_files version_0_tree q \<longrightarrow> q \<in> {''/t/site.yaml'', ''/t/site.yaml.bak''}"
    by (auto simp: list_all2_Cons1)
  then have "map ev_kind (db_events db') = [''migrate.apply'']"
    by (auto simp: same_event_def migrate_event_def new_event_def kind_migrate_apply_def)
  moreover have "fs_files s' ''/t/tenant.yaml'' = None"
    using spec[OF t(2), of "''/t/tenant.yaml''"] by (auto simp: version_0_tree_def)
  ultimately show ?thesis using c by (intro exI[of _ s'] exI[of _ db'] conjI)
qed

section \<open>Installation\<close>

lemma run_steps_append:
  "run_steps (a @ b) h = (case run_steps a h of (Some e, h1) \<Rightarrow> (Some e, h1) | (None, h1) \<Rightarrow> run_steps b h1)"
  by (induction a arbitrary: h) (auto split: prod.splits option.splits)

text \<open>A step that does not run the command \<open>cmd\<close>.\<close>

definition without :: "string list \<Rightarrow> install_step \<Rightarrow> bool" where
  "without cmd st \<longleftrightarrow> (\<forall>h r h'. st h = (r, h') \<longrightarrow> cmd \<in> set (ho_ran h') \<longrightarrow> cmd \<in> set (ho_ran h))"

lemma without_intros:
  "c \<noteq> cmd \<Longrightarrow> without cmd (run_shell shell c)"
  "without cmd st \<Longrightarrow> without cmd (ignoring st)"
  "without cmd (host_mkdir d)"
  "without cmd (host_write p text)"
proof -
  assume "without cmd st"
  then show "without cmd (ignoring st)"
    unfolding without_def ignoring_def by (metis prod.collapse snd_conv)
qed (auto simp: without_def run_shell_def host_mkdir_def host_write_def split: prod.splits sum.splits)

lemma without_in_turn: "\<forall>st \<in> set sts. without cmd st \<Longrightarrow> without cmd (in_turn sts)"
proof (induction sts)
  case (Cons st sts)
  then have "without cmd st" "without cmd (in_turn sts)" by auto
  then show ?case unfolding without_def by (auto split: prod.splits option.splits)
qed (simp add: without_def)

lemma without_run_steps:
  "\<forall>(d, st) \<in> set sts. without cmd st \<Longrightarrow> run_steps sts h = (r, h') \<Longrightarrow> cmd \<in> set (ho_ran h') \<Longrightarrow> cmd \<in> set (ho_ran h)"
proof (induction sts arbitrary: h)
  case (Cons x sts)
  obtain d st where x: "x = (d, st)" by fastforce
  obtain q h1 where q: "st h = (q, h1)" by fastforce
  have w: "cmd \<in> set (ho_ran h1) \<Longrightarrow> cmd \<in> set (ho_ran h)"
    using Cons.prems(1) x q unfolding without_def by auto
  show ?case
    using Cons x q w by (cases q) auto
qed simp

lemma host_write_done:
  "host_write p text h = (None, h') \<Longrightarrow>
     fs_files (ho_fs h') p = Some (RawBytes text) \<and> (\<forall>q. q \<noteq> p \<longrightarrow> fs_files (ho_fs h') q = fs_files (ho_fs h) q)"
  by (auto simp: host_write_def os_write_file_def pop_io_fault_def split: prod.splits sum.splits option.splits list.splits)

definition copy_binary :: "string \<Rightarrow> string list" where
  "copy_binary self = [''install'', ''-m'', ''0755'', ''-o'', ''root'', ''-g'', ''root'', self, binary_path]"

text \<open>The last four steps; the ones before them do not enable the service.\<close>

definition install_back :: "(string list \<Rightarrow> string option) \<Rightarrow> string \<Rightarrow> (string \<times> install_step) list" where
  "install_back shell self =
     [(''install binary to /usr/local/bin/controlai'', in_turn (if self = binary_path then [] else [run_shell shell (copy_binary self)])),
      (''write systemd unit file'', host_write service_path systemd_service_unit),
      (''write systemd backup service template'', host_write backup_service_path systemd_backup_service_unit),
      (''reload systemd and enable controlai.service'', in_turn
        [run_shell shell [''systemctl'', ''daemon-reload''], run_shell shell enable_service])]"

lemma install_steps_parts:
  obtains front where "install_steps shell self = front @ install_back shell self"
    "\<forall>(d, st) \<in> set front. without enable_service st"
proof
  show "install_steps shell self = take 2 (install_steps shell self) @ install_back shell self"
    by (simp add: install_steps_def install_back_def copy_binary_def)
  show "\<forall>(d, st) \<in> set (take 2 (install_steps shell self)). without enable_service st"
    by (auto simp: install_steps_def intro!: without_in_turn without_intros) (simp_all add: enable_service_def)
qed

lemma install_back_enables:
  assumes "run_steps (install_back shell self) h = (r, h')" "enable_service \<notin> set (ho_ran h)"
  shows "(enable_service \<in> set (ho_ran h') \<longrightarrow>
            fs_files (ho_fs h') service_path = Some (RawBytes systemd_service_unit) \<and>
            fs_files (ho_fs h') backup_service_path = Some (RawBytes systemd_backup_service_unit) \<and>
            (self = binary_path \<or> shell (copy_binary self) = None)) \<and>
    (r = None \<longleftrightarrow> enable_service \<in> set (ho_ran h') \<and> shell enable_service = None)"
proof -
  have other: "copy_binary self \<noteq> enable_service" "[''systemctl'', ''daemon-reload''] \<noteq> enable_service" "service_path \<noteq> backup_service_path"
    by (simp_all add: copy_binary_def enable_service_def service_path_def backup_service_path_def)
  define bin where "bin = in_turn (if self = binary_path then [] else [run_shell shell (copy_binary self)])"
  obtain r1 h1 where 1: "bin h = (r1, h1)" by fastforce
  obtain r2 h2 where 2: "host_write service_path systemd_service_unit h1 = (r2, h2)" by fastforce
  obtain r3 h3 where 3: "host_write backup_service_path systemd_backup_service_unit h2 = (r3, h3)" by fastforce
  have n1: "enable_service \<notin> set (ho_ran h1)" and b: "r1 = None \<Longrightarrow> self = binary_path \<or> shell (copy_binary self) = None"
    using 1 assms(2) other by (auto simp: bin_def run_shell_def split: if_splits option.splits)
  have n2: "enable_service \<notin> set (ho_ran h2)" using n1 2 without_intros(4) unfolding without_def by blast
  have n3: "enable_service \<notin> set (ho_ran h3)" using n2 3 without_intros(4) unfolding without_def by blast
  show ?thesis
    using assms(1) 1 2 3 n1 n2 n3 b other host_write_done[of service_path systemd_service_unit h1 h2]
      host_write_done[of backup_service_path systemd_backup_service_unit h2 h3]
    unfolding install_back_def bin_def[symmetric]
    by (cases r1; cases r2; cases r3) (auto simp: run_shell_def split: option.splits)
qed

text \<open>
  The service is enabled only when it is all there: if the installation ran \<^verbatim>\<open>systemctl enable\<close>,
  both unit files are on disk with exactly their content, and the binary is in place (it was the
  one running, or it was copied without an error); and the installation succeeds exactly when it got
  that far and \<^verbatim>\<open>systemctl\<close> accepted it.
\<close>

lemma install_enables_last:
  assumes "install_cmd shell (Inr self) h = (r, h')" "enable_service \<notin> set (ho_ran h)"
  shows "(enable_service \<in> set (ho_ran h') \<longrightarrow>
            fs_files (ho_fs h') service_path = Some (RawBytes systemd_service_unit) \<and>
            fs_files (ho_fs h') backup_service_path = Some (RawBytes systemd_backup_service_unit) \<and>
            (self = binary_path \<or> shell (copy_binary self) = None)) \<and>
    (r = None \<longleftrightarrow> enable_service \<in> set (ho_ran h') \<and> shell enable_service = None)"
proof -
  obtain front where front: "install_steps shell self = front @ install_back shell self"
      "\<forall>(d, st) \<in> set front. without enable_service st"
    by (rule install_steps_parts)
  obtain q h1 where q: "run_steps front h = (q, h1)" by fastforce
  have h1: "enable_service \<notin> set (ho_ran h1)"
    using without_run_steps[OF front(2) q] assms(2) by blast
  show ?thesis
  proof (cases q)
    case None
    then have "run_steps (install_back shell self) h1 = (r, h')"
      using assms(1) front(1) q by (simp add: install_cmd_def run_steps_append)
    then show ?thesis by (rule install_back_enables[OF _ h1])
  next
    case (Some e)
    then show ?thesis
      using assms(1) front(1) q h1 by (auto simp: install_cmd_def run_steps_append)
  qed
qed

text \<open>A host where the group exists already and everything else works.\<close>

definition group_exists :: "string list \<Rightarrow> string option" where
  "group_exists cmd = (if hd cmd = ''groupadd'' then Some ''exit status 9'' else None)"

definition new_host :: host where
  "new_host = \<lparr>ho_fs = \<lparr>fs_files = Map.empty, fs_faults = []\<rparr>, ho_ran = []\<rparr>"

lemma install_enables_last_witness:
  "\<exists>h'. install_cmd group_exists (Inr ''/tmp/controlai'') new_host = (None, h') \<and> enable_service \<in> set (ho_ran h') \<and>
     fs_files (ho_fs h') service_path = Some (RawBytes systemd_service_unit)"
proof -
  obtain h' where h': "install_cmd group_exists (Inr ''/tmp/controlai'') new_host = (None, h')"
    by (simp add: install_cmd_def install_steps_def run_shell_def ignoring_def host_mkdir_def host_write_def os_mkdir_all_def
        os_write_file_def pop_io_fault_def group_exists_def new_host_def install_dirs_def enable_service_def binary_path_def)
  have "enable_service \<notin> set (ho_ran new_host)" by (simp add: new_host_def)
  from install_enables_last[OF h' this] h' show ?thesis by auto
qed

end
