(* ===== verification/Concurrent.thy ===== *)
theory Concurrent
  imports ServerProps
begin

text \<open>
  The goroutines of the daemon beside each other: a tick of the reconciler (\<^verbatim>\<open>tick\<close> of
  \<^verbatim>\<open>internal/recon/reconciler.go\<close>), started by its own loop or by \<^verbatim>\<open>go s.recon.Trigger\<close>, works on the
  rows it has read at its start while requests are answered and other ticks run, and the deletion
  of a tenant has started its background run before it deletes the rows.  One step is one request,
  one part of a deletion, one listing, the certificates of one site, or for one project the
  decision, the compose command, or the bookkeeping after it.
\<close>

section \<open>A tick in its parts\<close>

text \<open>What is left to do: the rows as they were read, before and after the listing of the sites.\<close>

datatype tick_phase =
    Listed "desired_state_row list"
  | Trusting "site_row list" "desired_state_row list"
  | Projects "desired_state_row list"
  | Acting desired_state_row "desired_state_row list"
  | Concluding desired_state_row "recon_error option" "desired_state_row list"

text \<open>The rows a tick may still run a command for.\<close>

fun phase_rows :: "tick_phase \<Rightarrow> desired_state_row list" where
  "phase_rows (Listed ds) = ds"
| "phase_rows (Trusting ss ds) = ds"
| "phase_rows (Projects ds) = ds"
| "phase_rows (Acting d ds) = d # ds"
| "phase_rows (Concluding d r ds) = ds"

text \<open>
  \<^verbatim>\<open>reconcileProject\<close> in three parts: whether a command is due (\<^term>\<open>None\<close>) or the result without
  one, the command, and what is recorded after it succeeded; then the part of \<^verbatim>\<open>tick\<close> that follows,
  which works on the backoff record as it is by then (\<^verbatim>\<open>ps\<close> is a pointer into the shared map).
\<close>

definition decide :: "'d env \<Rightarrow> desired_state_row \<Rightarrow> 'd world \<Rightarrow> recon_error option option \<times> 'd world" where
  "decide env d w =
     (if d_state d = ''running'' then
        (case needs_up env d w of (False, w1) \<Rightarrow> (Some None, w1) | (True, w1) \<Rightarrow> (None, w1))
      else if d_state d = ''stopped'' then
        (if env_sdk env \<and> containers_of env (d_project_id d) w = Inr [] then (Some None, w) else (None, w))
      else if d_state d = ''removed'' then (None, w)
      else (Some (Some (UnknownState (d_state d) (d_project_id d))), w))"

definition act :: "'d env \<Rightarrow> desired_state_row \<Rightarrow> string \<Rightarrow> 'd world \<Rightarrow> recon_error option \<times> 'd world" where
  "act env d file w =
     (if d_state d = ''running'' then
        run_compose env (d_project_id d) file [''up'', ''-d'', ''--no-deps'']
          (if d_site_id d \<noteq> '''' \<and> d_tenant_id d \<noteq> ''''
           then snd (ensure_traefik_dynamic env (d_tenant_id d) (d_site_id d) w) else w)
      else if d_state d = ''stopped'' \<or> d_state d = ''removed'' then run_compose env (d_project_id d) file [''down''] w
      else (Some (UnknownState (d_state d) (d_project_id d)), w))"

definition applied :: "desired_state_row \<Rightarrow> 'd world \<Rightarrow> 'd world" where
  "applied d w =
     (if d_state d = ''running'' then
        audit (recon_event d kind_reconciler_success ''{\"action\":\"up\"}'' True)
          (if d_config_hash d \<noteq> ''''
           then snd (on_db (upsert_combined_hash (d_project_id d) (d_config_hash d)) w) else w)
      else if d_state d = ''stopped'' then
        audit (recon_event d kind_reconciler_success ''{\"action\":\"down\"}'' True) w
      else w)"

definition book :: "'d env \<Rightarrow> desired_state_row \<Rightarrow> recon_error option \<Rightarrow> 'd world \<Rightarrow> 'd world" where
  "book env d r w =
     (let pid = d_project_id d in
      case r of
        Some e \<Rightarrow>
          let n = ps_failure_count (state_of w pid) + 1; delay = backoff_delay n; retry = db_now (w_db w) + delay;
              w1 = Reconciler.set_state pid \<lparr>ps_failure_count = n, ps_next_retry = Some retry\<rparr> w;
              w2 = audit (recon_event d kind_reconciler_failure
                     (''{\"err\":'' @ env_quote env (recon_error_text env e) @ '',\"backoff_s\":'' @
                      itoa (delay div second) @ ''}'') False) w1
          in audit (recon_event d kind_reconciler_backoff
               (''{\"next_retry\":'' @ env_quote env (env_rfc3339 env retry) @ ''}'') True) w2
      | None \<Rightarrow> Reconciler.set_state pid \<lparr>ps_failure_count = 0, ps_next_retry = None\<rparr> w)"

definition conclude :: "'d env \<Rightarrow> desired_state_row \<Rightarrow> recon_error option \<Rightarrow> 'd world \<Rightarrow> 'd world" where
  "conclude env d r w = book env d r (if r = None then applied d w else w)"

text \<open>The record of a project is made when it is missing.\<close>

definition touch :: "string \<Rightarrow> 'd world \<Rightarrow> 'd world" where
  "touch pid w = Reconciler.set_state pid (state_of w pid) w"

definition tick_begin :: "'d env \<Rightarrow> 'd world \<Rightarrow> tick_phase option \<times> 'd world" where
  "tick_begin env w =
     (case on_db list_desired_states w of
        ((Some _, _), w1) \<Rightarrow> (None, w1)
      | ((None, ds), w1) \<Rightarrow> (Some (if length (env_master_key env) > 0 then Listed ds else Projects ds), w1))"

fun tick_move :: "'d env \<Rightarrow> tick_phase \<Rightarrow> 'd world \<Rightarrow> tick_phase option \<times> 'd world" where
  "tick_move env (Listed ds) w =
     (case on_db list_all_sites w of
        ((Some _, _), w1) \<Rightarrow> (Some (Projects ds), w1)
      | ((None, sites), w1) \<Rightarrow> (Some (Trusting sites ds), w1))"
| "tick_move env (Trusting (s # sites) ds) w = (Some (Trusting sites ds), trust_site env s w)"
| "tick_move env (Trusting [] ds) w = (Some (Projects ds), w)"
| "tick_move env (Projects (d # ds)) w =
     (if in_backoff (state_of w (d_project_id d)) (db_now (w_db w)) then (Some (Projects ds), touch (d_project_id d) w)
      else case decide env d (touch (d_project_id d) w) of
        (Some r, w1) \<Rightarrow> (Some (Projects ds), book env d r w1)
      | (None, w1) \<Rightarrow> (Some (Acting d ds), w1))"
| "tick_move env (Acting d ds) w = (case act env d (compose_file env d) w of (r, w1) \<Rightarrow> (Some (Concluding d r ds), w1))"
| "tick_move env (Concluding d r ds) w = (Some (Projects ds), conclude env d r w)"
| "tick_move env (Projects []) w = (None, w\<lparr>w_last_tick := Some (db_now (w_db w))\<rparr>)"

text \<open>Undisturbed, the parts are the whole.\<close>

lemma reconcile_parts:
  "reconcile_project env d file w =
     (case decide env d w of
        (Some r, w1) \<Rightarrow> (r, w1)
      | (None, w1) \<Rightarrow> (case act env d file w1 of (r, w2) \<Rightarrow> (r, if r = None then applied d w2 else w2)))"
  by (auto simp: reconcile_project_def decide_def act_def applied_def reconcile_up_def Let_def
      split: prod.splits option.splits bool.splits)

lemma touch_fields [simp]:
  "w_db (touch p w) = w_db w" "w_trace (touch p w) = w_trace w" "w_docker (touch p w) = w_docker w"
  "w_fs (touch p w) = w_fs w" "w_states (touch p w) = (w_states w)(p \<mapsto> state_of w p)" "state_of (touch p w) p = state_of w p"
  by (simp_all add: touch_def state_of_def)

lemma tick_project_parts:
  "tick_project env d w =
     (let w1 = touch (d_project_id d) w in
      if in_backoff (state_of w (d_project_id d)) (db_now (w_db w)) then w1
      else case reconcile_project env d (compose_file env d) w1 of (r, w2) \<Rightarrow> book env d r w2)"
proof -
  have "state_of w2 (d_project_id d) = state_of w (d_project_id d)"
    if "reconcile_project env d (compose_file env d) (touch (d_project_id d) w) = (r, w2)" for r w2
    using same_states.R_project[OF that] by (simp add: state_of_def)
  then show ?thesis
    by (auto simp: tick_project_def touch_def[symmetric] book_def Let_def split: prod.splits option.splits)
qed

lemma tick_move_project:
  assumes "tick_project env d w = w'"
  shows "tick_move env (Projects (d # ds)) w = (Some (Projects ds), w') \<or>
    (\<exists>w1 r w2. tick_move env (Projects (d # ds)) w = (Some (Acting d ds), w1) \<and>
       tick_move env (Acting d ds) w1 = (Some (Concluding d r ds), w2) \<and>
       tick_move env (Concluding d r ds) w2 = (Some (Projects ds), w'))"
proof (cases "in_backoff (state_of w (d_project_id d)) (db_now (w_db w))")
  case True
  then show ?thesis using assms by (simp add: tick_project_parts Let_def)
next
  case False
  obtain x w1 where x: "decide env d (touch (d_project_id d) w) = (x, w1)" by fastforce
  obtain r w2 where r: "act env d (compose_file env d) w1 = (r, w2)" by fastforce
  show ?thesis using assms False x r
    by (cases x) (auto simp: tick_project_parts reconcile_parts conclude_def Let_def)
qed

section \<open>The daemon with work in flight\<close>

text \<open>
  A tick in flight is tagged with whether it is the loop's own, of which there is one at a time; a
  deletion in flight has its tenant, the purge flag and the project tag it has looked up.
\<close>

record 'd busy =
  bz_daemon :: "'d daemon"
  bz_ticks :: "(bool \<times> tick_phase) list"
  bz_deletes :: "(string \<times> bool \<times> string) list"

definition drop_nth :: "nat \<Rightarrow> 'a list \<Rightarrow> 'a list" where
  "drop_nth i xs = take i xs @ drop (Suc i) xs"

definition started :: "bool \<Rightarrow> tick_phase option \<Rightarrow> (bool \<times> tick_phase) list \<Rightarrow> (bool \<times> tick_phase) list" where
  "started loop ph ticks = (case ph of None \<Rightarrow> ticks | Some p \<Rightarrow> ticks @ [(loop, p)])"

definition moved :: "nat \<Rightarrow> tick_phase option \<Rightarrow> (bool \<times> tick_phase) list \<Rightarrow> (bool \<times> tick_phase) list" where
  "moved i ph ticks = (case ph of None \<Rightarrow> drop_nth i ticks | Some p \<Rightarrow> ticks[i := (fst (ticks ! i), p)])"

text \<open>The environment: time passes, calls fail, Docker changes.\<close>

inductive world_step :: "'d daemon \<Rightarrow> 'd daemon \<Rightarrow> bool" where
  Passes: "world_step s (set_world s ((dm_world s)\<lparr>w_db := (w_db (dm_world s))\<lparr>db_now := db_now (w_db (dm_world s)) + int n\<rparr>\<rparr>))"
| Fails: "world_step s (set_world s ((dm_world s)\<lparr>w_db := (w_db (dm_world s))\<lparr>db_faults := fs\<rparr>, w_fs := (w_fs (dm_world s))\<lparr>fs_faults := gs\<rparr>\<rparr>))"
| Docker: "world_step s (set_world s ((dm_world s)\<lparr>w_docker := d\<rparr>))"

inductive busy_step :: "'d server_cfg \<Rightarrow> 'd busy \<Rightarrow> 'd busy \<Rightarrow> bool" for cfg where
  Unix: "busy_step cfg b (b\<lparr>bz_daemon := snd (run_state (handle cfg req) (bz_daemon b))\<rparr>)"
| Tcp: "busy_step cfg b (b\<lparr>bz_daemon := snd (run_state (tcp_handler cfg hdr req) (bz_daemon b))\<rparr>)"
| Mark: "run_state (delete_tenant_mark cfg tid purge) (bz_daemon b) = (pid, s) \<Longrightarrow>
    busy_step cfg b (b\<lparr>bz_daemon := s, bz_deletes := bz_deletes b @ [(tid, purge, pid)]\<rparr>)"
| Finish: "i < length (bz_deletes b) \<Longrightarrow> bz_deletes b ! i = (tid, purge, pid) \<Longrightarrow>
    run_state (delete_tenant_finish tid purge pid) (bz_daemon b) = (resp, s) \<Longrightarrow>
    busy_step cfg b (b\<lparr>bz_daemon := s, bz_deletes := drop_nth i (bz_deletes b)\<rparr>)"
| Ticker: "\<forall>t \<in> set (bz_ticks b). \<not> fst t \<Longrightarrow> tick_begin (sc_env cfg) (dm_world (bz_daemon b)) = (ph, w) \<Longrightarrow>
    busy_step cfg b (b\<lparr>bz_daemon := set_world (bz_daemon b) w, bz_ticks := started True ph (bz_ticks b)\<rparr>)"
| Trigger: "0 < dm_pending (bz_daemon b) \<Longrightarrow> tick_begin (sc_env cfg) (dm_world (bz_daemon b)) = (ph, w) \<Longrightarrow>
    busy_step cfg b (b\<lparr>bz_daemon := set_world ((bz_daemon b)\<lparr>dm_pending := dm_pending (bz_daemon b) - 1\<rparr>) w,
      bz_ticks := started False ph (bz_ticks b)\<rparr>)"
| Move: "i < length (bz_ticks b) \<Longrightarrow> tick_move (sc_env cfg) (snd (bz_ticks b ! i)) (dm_world (bz_daemon b)) = (ph, w) \<Longrightarrow>
    busy_step cfg b (b\<lparr>bz_daemon := set_world (bz_daemon b) w, bz_ticks := moved i ph (bz_ticks b)\<rparr>)"
| World: "world_step (bz_daemon b) s \<Longrightarrow> busy_step cfg b (b\<lparr>bz_daemon := s\<rparr>)"

definition idle :: "'d daemon \<Rightarrow> 'd busy" where
  "idle s = \<lparr>bz_daemon = s, bz_ticks = [], bz_deletes = []\<rparr>"

lemma idle_fields [simp]: "bz_daemon (idle s) = s" "bz_ticks (idle s) = []" "bz_deletes (idle s) = []"
  by (simp_all add: idle_def)

section \<open>Undisturbed ticks\<close>

text \<open>A daemon with one tick in flight.\<close>

definition ticking :: "'d daemon \<Rightarrow> bool \<Rightarrow> tick_phase option \<Rightarrow> 'd world \<Rightarrow> 'd busy" where
  "ticking s loop ph w = \<lparr>bz_daemon = set_world s w, bz_ticks = started loop ph [], bz_deletes = []\<rparr>"

lemma ticking_move:
  assumes "tick_move (sc_env cfg) p w = (ph, w')"
  shows "busy_step cfg (ticking s loop (Some p) w) (ticking s loop ph w')"
  using busy_step.Move[of 0 "ticking s loop (Some p) w" cfg ph w'] assms
  by (cases ph) (simp_all add: ticking_def started_def moved_def drop_nth_def set_world_def)

lemma ticking_moves:
  "tick_move (sc_env cfg) p w = (ph, w') \<Longrightarrow> (busy_step cfg)\<^sup>*\<^sup>* (ticking s loop ph w') b \<Longrightarrow>
     (busy_step cfg)\<^sup>*\<^sup>* (ticking s loop (Some p) w) b"
  by (meson converse_rtranclp_into_rtranclp ticking_move)

lemma ticking_projects:
  "w2 = fold (tick_project (sc_env cfg)) ds w \<Longrightarrow>
     (busy_step cfg)\<^sup>*\<^sup>* (ticking s loop (Some (Projects ds)) w) (ticking s loop None (w2\<lparr>w_last_tick := Some (db_now (w_db w2))\<rparr>))"
proof (induction ds arbitrary: w)
  case Nil
  then show ?case by (auto intro!: ticking_moves[of cfg "Projects []"])
next
  case (Cons d ds)
  let ?e = "sc_env cfg"
  let ?last = "ticking s loop None (w2\<lparr>w_last_tick := Some (db_now (w_db w2))\<rparr>)"
  have r: "(busy_step cfg)\<^sup>*\<^sup>* (ticking s loop (Some (Projects ds)) (tick_project ?e d w)) ?last"
    using Cons by simp
  show ?case using tick_move_project[of ?e d w _ ds, OF refl]
  proof (elim disjE exE conjE)
    assume "tick_move ?e (Projects (d # ds)) w = (Some (Projects ds), tick_project ?e d w)"
    then show ?thesis using r by (rule ticking_moves)
  next
    fix w1 r' w3
    assume m: "tick_move ?e (Projects (d # ds)) w = (Some (Acting d ds), w1)"
      "tick_move ?e (Acting d ds) w1 = (Some (Concluding d r' ds), w3)"
      "tick_move ?e (Concluding d r' ds) w3 = (Some (Projects ds), tick_project ?e d w)"
    show ?thesis by (rule ticking_moves[OF m(1) ticking_moves[OF m(2) ticking_moves[OF m(3) r]]])
  qed
qed

lemma ticking_sites:
  "(busy_step cfg)\<^sup>*\<^sup>* (ticking s loop (Some (Projects ds)) (fold (trust_site (sc_env cfg)) sites w)) b \<Longrightarrow>
     (busy_step cfg)\<^sup>*\<^sup>* (ticking s loop (Some (Trusting sites ds)) w) b"
  by (induction sites arbitrary: w) (auto intro!: ticking_moves[OF tick_move.simps(2)] ticking_moves[OF tick_move.simps(3)])

text \<open>Without anything in between, the parts of a tick are the tick.\<close>

lemma ticking_tick:
  assumes "tick_begin (sc_env cfg) w = (ph, w1)"
  shows "(busy_step cfg)\<^sup>*\<^sup>* (ticking s loop ph w1) (ticking s loop None (tick (sc_env cfg) w))"
proof -
  obtain e ds w1' where l: "on_db list_desired_states w = ((e, ds), w1')" by (metis prod.collapse)
  obtain e' sites w2 where a: "on_db list_all_sites w1' = ((e', sites), w2)" by (metis prod.collapse)
  note projects = ticking_projects[OF refl, of cfg s loop ds]
  have listed: "(busy_step cfg)\<^sup>*\<^sup>* (ticking s loop (Some (Listed ds)) w1')
      (ticking s loop None (let w3 = fold (tick_project (sc_env cfg)) ds (ensure_all_trust_files (sc_env cfg) w1')
         in w3\<lparr>w_last_tick := Some (db_now (w_db w3))\<rparr>))"
    by (cases e')
      (auto simp: ensure_all_trust_files_def a Let_def intro!: ticking_moves[of cfg "Listed ds"] ticking_sites projects)
  show ?thesis
    using assms l listed projects
    by (cases e) (auto simp: tick_begin_def tick_def Let_def split: if_splits)
qed

lemma ticker_runs: "(busy_step cfg)\<^sup>*\<^sup>* (idle s) (idle (set_world s (tick (sc_env cfg) (dm_world s))))"
proof -
  obtain ph w where b: "tick_begin (sc_env cfg) (dm_world s) = (ph, w)" by fastforce
  have "busy_step cfg (idle s) (ticking s True ph w)"
    using busy_step.Ticker[of "idle s" cfg ph w] b by (simp add: idle_def ticking_def)
  also have "(busy_step cfg)\<^sup>*\<^sup>* (ticking s True ph w) (idle (set_world s (tick (sc_env cfg) (dm_world s))))"
    using ticking_tick[OF b, of s True] by (simp add: ticking_def idle_def started_def)
  finally show ?thesis .
qed

lemma trigger_runs:
  assumes "0 < dm_pending s"
  shows "(busy_step cfg)\<^sup>*\<^sup>* (idle s) (idle (s\<lparr>dm_world := trigger (sc_env cfg) (dm_world s), dm_pending := dm_pending s - 1\<rparr>))"
proof -
  let ?s = "s\<lparr>dm_pending := dm_pending s - 1\<rparr>"
  obtain ph w where b: "tick_begin (sc_env cfg) (dm_world s) = (ph, w)" by fastforce
  have "busy_step cfg (idle s) (ticking ?s False ph w)"
    using busy_step.Trigger[of "idle s" cfg ph w] b assms by (simp add: idle_def ticking_def set_world_def)
  also have "(busy_step cfg)\<^sup>*\<^sup>* (ticking ?s False ph w) (idle (set_world ?s (tick (sc_env cfg) (dm_world s))))"
    using ticking_tick[OF b, of ?s False] by (simp add: ticking_def idle_def started_def)
  also have "set_world ?s (tick (sc_env cfg) (dm_world s)) = s\<lparr>dm_world := trigger (sc_env cfg) (dm_world s), dm_pending := dm_pending s - 1\<rparr>"
    by (simp add: set_world_def trigger_def)
  finally show ?thesis .
qed

lemma idle_world: "world_step s s' \<Longrightarrow> busy_step cfg (idle s) (idle s')"
  using busy_step.World[of "idle s" s' cfg] by (simp add: idle_def)

lemma daemon_step_busy: "daemon_step cfg s s' \<Longrightarrow> (busy_step cfg)\<^sup>*\<^sup>* (idle s) (idle s')"
proof (induction rule: daemon_step.induct)
  case (Unix s req)
  show ?case using busy_step.Unix[of cfg "idle s" req] by (simp add: idle_def r_into_rtranclp)
next
  case (Tcp s hdr req)
  show ?case using busy_step.Tcp[of cfg "idle s" hdr req] by (simp add: idle_def r_into_rtranclp)
next
  case (Trigger s)
  then show ?case by (rule trigger_runs)
next
  case (Ticker s)
  show ?case by (rule ticker_runs)
qed (auto intro!: r_into_rtranclp idle_world intro: world_step.intros)

text \<open>
  Taking the ticks one at a time loses nothing but interleavings: every run of the daemon in
  which each tick of the reconciler and each deletion is one step is a run of the daemon in which
  they are in flight, with the same state at the end and nothing left in flight; so what holds in
  every state of the second holds in every state of the first.
\<close>

lemma atomic_ticks_are_runs:
  assumes "(daemon_step cfg)\<^sup>*\<^sup>* s s'"
  shows "(busy_step cfg)\<^sup>*\<^sup>* (idle s) (idle s')"
  using assms by (induction rule: rtranclp_induct) (auto dest: daemon_step_busy)

lemma atomic_ticks_are_runs_witness:
  "(busy_step example_cfg)\<^sup>*\<^sup>* (idle (initial_daemon 0 []))
     (idle (set_world (initial_daemon 0 []) (tick example_env (dm_world (initial_daemon 0 [])))))"
  using atomic_ticks_are_runs[of example_cfg "initial_daemon 0 []"
      "set_world (initial_daemon 0 []) (tick example_env (dm_world (initial_daemon 0 [])))"]
    daemon_step.Ticker[of example_cfg "initial_daemon 0 []"]
  by (simp add: example_cfg_def r_into_rtranclp)

section \<open>Invariants of every interleaving\<close>

text \<open>The two parts of a deletion are requests.\<close>

context request_rel
begin

lemma resp_delete_parts:
  "state_io_rel R (delete_tenant_mark cfg tid purge)" "state_io_rel R (delete_tenant_finish tid purge pid)"
  unfolding delete_tenant_mark_def delete_tenant_finish_def by (intro resp_parts R_write api_writes)+

lemma R_on_db: "read_only f \<Longrightarrow> on_db f (dm_world s) = (r, w) \<Longrightarrow> R s (set_world s w)"
  using R_read by (auto simp: on_db_def split: prod.splits dest!: read_onlyD)

lemma R_begin: "tick_begin env (dm_world s) = (ph, w) \<Longrightarrow> R s (set_world s w)"
  using R_on_db[of list_desired_states s] by (auto simp: tick_begin_def get_state read_only_def split: prod.splits option.splits)

lemma R_world: "world_step s s' \<Longrightarrow> R s s'"
proof (induction rule: world_step.induct)
  case (Fails s gs fs)
  let ?s1 = "set_world s ((dm_world s)\<lparr>w_db := (w_db (dm_world s))\<lparr>db_faults := fs\<rparr>\<rparr>)"
  have "R ?s1 (set_world ?s1 ((dm_world ?s1)\<lparr>w_fs := (w_fs (dm_world s))\<lparr>fs_faults := gs\<rparr>\<rparr>))" by (rule R_files)
  then show ?case using R_read[of s fs] R_trans by (fastforce simp: set_world_def)
qed (auto intro: R_time R_docker)

end

text \<open>
  A relation that requests respect, and the parts of a tick, is respected by every step of the
  daemon with work in flight.
\<close>

locale busy_rel = request_rel cfg R for cfg :: "'d server_cfg" and R :: "'d daemon \<Rightarrow> 'd daemon \<Rightarrow> bool" +
  assumes R_trust: "R s (set_world s (trust_site (sc_env cfg) st (dm_world s)))"
    and R_touch: "R s (set_world s (touch p (dm_world s)))"
    and R_decide: "decide (sc_env cfg) d (dm_world s) = (x, w) \<Longrightarrow> R s (set_world s w)"
    and R_act: "act (sc_env cfg) d file (dm_world s) = (r, w) \<Longrightarrow> R s (set_world s w)"
    and R_applied: "R s (set_world s (applied d (dm_world s)))"
    and R_book: "R s (set_world s (book (sc_env cfg) d r (dm_world s)))"
    and R_last: "R s (set_world s ((dm_world s)\<lparr>w_last_tick := l\<rparr>))"
begin

lemma R_conclude: "R s (set_world s (conclude (sc_env cfg) d r (dm_world s)))"
proof -
  let ?s = "set_world s (if r = None then applied d (dm_world s) else dm_world s)"
  have "R s ?s" using R_applied[of s d] R_refl[of s] by (simp add: set_world_def)
  moreover have "R ?s (set_world ?s (book (sc_env cfg) d r (dm_world ?s)))" by (rule R_book)
  ultimately have "R s (set_world ?s (book (sc_env cfg) d r (dm_world ?s)))" by (rule R_trans)
  then show ?thesis by (simp add: conclude_def set_world_def)
qed

lemma R_move:
  assumes "tick_move (sc_env cfg) ph (dm_world s) = (ph', w)"
  shows "R s (set_world s w)"
proof (cases "(sc_env cfg, ph, dm_world s)" rule: tick_move.cases)
  case (1 env ds w1)
  then show ?thesis
    using assms R_on_db[of list_all_sites s] by (auto simp: get_state read_only_def split: prod.splits option.splits)
next
  case (4 env d ds w1)
  let ?p = "d_project_id d"
  let ?s = "set_world s (touch ?p (dm_world s))"
  obtain x w2 where x: "decide (sc_env cfg) d (dm_world ?s) = (x, w2)" by fastforce
  have 0: "R s ?s" by (rule R_touch)
  have 1: "R s (set_world s w2)" using R_decide[OF x] R_trans[OF 0] by (fastforce simp: set_world_def)
  have "R (set_world s w2) (set_world (set_world s w2) (book (sc_env cfg) d r (dm_world (set_world s w2))))" for r
    by (rule R_book)
  then have 2: "R s (set_world s (book (sc_env cfg) d r w2))" for r
    using R_trans[OF 1] by (fastforce simp: set_world_def)
  show ?thesis using assms 4 x 0 1 2 by (auto split: if_splits option.splits)
next
  case (5 env d ds w1)
  then show ?thesis using assms by (auto split: prod.splits intro: R_act)
next
  case (2 env st sites ds w1)
  then show ?thesis using assms R_trust by auto
next
  case (6 env d r ds w1)
  then show ?thesis using assms R_conclude by auto
next
  case (7 env w1)
  then show ?thesis using assms R_last by auto
next
  case (3 env ds w1)
  then show ?thesis using assms R_refl[of s] by (auto simp: set_world_def)
qed

lemma R_busy: "busy_step cfg b b' \<Longrightarrow> R (bz_daemon b) (bz_daemon b')"
proof (induction rule: busy_step.induct)
  case (Unix b req)
  then show ?case using resp_handle by (simp add: state_io_rel_def)
next
  case (Tcp b hdr req)
  then show ?case using resp_tcp by (simp add: state_io_rel_def)
next
  case (Mark tid purge b pid s)
  then show ?case using resp_delete_parts(1) unfolding state_io_rel_def by (metis busy.select_convs(1) busy.surjective busy.update_convs(1,3) snd_conv)
next
  case (Finish i b tid purge pid resp s)
  then show ?case using resp_delete_parts(2) unfolding state_io_rel_def by (metis busy.select_convs(1) busy.surjective busy.update_convs(1,3) snd_conv)
next
  case (Trigger b ph w)
  let ?s = "(bz_daemon b)\<lparr>dm_pending := dm_pending (bz_daemon b) - 1\<rparr>"
  have "R (bz_daemon b) ?s" by (rule R_pending)
  moreover have "R ?s (set_world ?s w)" using Trigger by (intro R_begin) auto
  ultimately show ?case using R_trans by auto
qed (auto intro: R_begin R_move R_world)

lemma R_busy_steps: "(busy_step cfg)\<^sup>*\<^sup>* b b' \<Longrightarrow> R (bz_daemon b) (bz_daemon b')"
  by (induction rule: rtranclp_induct) (auto intro: R_refl R_trans R_busy)

end

text \<open>The parts of a tick respect what the tick respects.\<close>

context world_rel
begin

lemma R_decide: "decide env d w = (x, w') \<Longrightarrow> R w w'"
  by (auto simp: decide_def R_refl split: if_splits prod.splits bool.splits dest: R_needs_up)

lemma R_act: "act env d file w = (r, w') \<Longrightarrow> R w w'"
  by (auto simp: act_def R_refl split: if_splits intro: R_trans[OF R_traefik[OF prod.collapse[symmetric]] R_compose] R_compose)

lemma R_applied: "R w (applied d w)"
proof -
  have "R w (snd (on_db (upsert_combined_hash (d_project_id d) (d_config_hash d)) w))"
    by (rule R_combined) (rule prod.collapse[symmetric])
  then show ?thesis by (auto simp: applied_def R_refl intro: R_audit R_then_audit)
qed

end

context tick_rel
begin

lemma R_touch: "R w (touch p w)"
  unfolding touch_def by (rule R_state)

lemma R_book: "R w (book env d r w)"
  by (auto simp: book_def Let_def split: option.split intro!: R_then_audit R_state)

lemma R_begin: "tick_begin env w = (ph, w') \<Longrightarrow> R w w'"
  by (auto simp: tick_begin_def split: prod.splits option.splits dest: R_on_db)

lemma R_concluded: "R w (conclude env d r w)"
proof -
  let ?v = "if r = None then applied d w else w"
  have "R w ?v" using R_applied R_refl by simp
  then show ?thesis using R_trans[OF _ R_book] by (simp add: conclude_def)
qed

lemma R_moves:
  assumes "tick_move env ph w = (ph', w')"
  shows "R w w'"
proof (cases "(env, ph, w)" rule: tick_move.cases)
  case (4 env d ds w1)
  have "R w (book env d r w2)" "R w w2" if "decide env d (touch (d_project_id d) w) = (x, w2)" for x r w2
    using R_trans[OF R_touch R_decide[OF that]] R_trans[OF _ R_book] by blast+
  then show ?thesis using assms 4 R_touch by (auto split: if_splits prod.splits option.splits)
qed (use assms R_trust_site R_concluded R_last R_refl in \<open>auto split: prod.splits option.splits dest: R_on_db R_act\<close>)

end

text \<open>
  The tables that only clients write: ticks leave them alone, they record hashes and events.
\<close>

definition client_tables ::
  "db \<Rightarrow> (stored_tenant list \<times> site_row list \<times> desired_state_row list) \<times> (token_row list \<times> (string \<times> string) list) \<times>
     (ca_cert_row list \<times> cert_row list \<times> emqx_api_key list \<times> tsdb_creds list)"
where
  "client_tables db = ((db_tenants db, db_sites db, db_desired db), (db_tokens db, db_settings db),
     (db_cas db, db_certs db, db_emqx db, db_tsdb db))"

interpretation tables_kept: tick_rel "\<lambda>v w :: 'd world. client_tables (w_db w) = client_tables (w_db v)"
  by unfold_locales
    (auto simp: client_tables_def on_db_def upsert_combined_hash_def upsert_file_hash_def raw_exec_def sql_exec_def sql_point_def
      audit_def emit_def insert_event_def
      upsert_hash_stmt_def run_compose_def Let_def split: prod.splits sum.splits option.splits list.splits)

text \<open>Predicates on the database that statements and time do not disturb hold throughout.\<close>

context provision_predicate
begin

lemma P_busy_rel:
  fixes cfg :: "'d server_cfg"
  assumes "\<And>f db r db'. api_write f \<Longrightarrow> f db = (r, db') \<Longrightarrow> P db \<Longrightarrow> P db'"
  shows "busy_rel cfg (\<lambda>s s'. P (w_db (dm_world s)) \<longrightarrow> P (w_db (dm_world s')))"
proof -
  have r: "request_rel cfg (\<lambda>s s'. P (w_db (dm_world s)) \<longrightarrow> P (w_db (dm_world s')))"
    by (rule daemon_rel.axioms(1)[OF P_daemon_rel]) (rule assms)
  note t = tick_rel.axioms(1)[OF P_tick_rel]
  show ?thesis
  proof (intro busy_rel.intro[OF r] busy_rel_axioms.intro, unfold set_world_fields, goal_cases)
    case (7 s l)
    then show ?case by simp
  qed (fact world_rel.R_trust_site[OF t] tick_rel.R_touch[OF P_tick_rel] world_rel.R_decide[OF t] world_rel.R_act[OF t]
      world_rel.R_applied[OF t] tick_rel.R_book[OF P_tick_rel])+
qed

end

interpretation registry_busy: busy_rel cfg "\<lambda>s s' :: 'd daemon. db_inv (w_db (dm_world s)) \<longrightarrow> db_inv (w_db (dm_world s'))"
  for cfg :: "'d server_cfg"
  by (rule inv_prov.P_busy_rel) (rule api_write_inv)

interpretation documented_busy: busy_rel cfg "\<lambda>s s' :: 'd daemon. api_ok (w_db (dm_world s)) \<longrightarrow> api_ok (w_db (dm_world s'))"
  for cfg :: "'d server_cfg"
  by (rule api_prov.P_busy_rel) (rule api_write_api)

definition busy_reachable :: "'d server_cfg \<Rightarrow> 'd busy \<Rightarrow> bool" where
  "busy_reachable cfg b \<longleftrightarrow> (\<exists>t d. (busy_step cfg)\<^sup>*\<^sup>* (idle (initial_daemon t d)) b)"

lemma moved_loops:
  assumes "i < length ticks"
  shows "length (filter fst (moved i ph ticks)) \<le> length (filter fst ticks)"
proof -
  have t: "ticks = take i ticks @ ticks ! i # drop (Suc i) ticks" using assms by (simp add: id_take_nth_drop)
  have u: "ticks[i := x] = take i ticks @ x # drop (Suc i) ticks" for x using assms by (simp add: upd_conv_take_nth_drop)
  show ?thesis
    using arg_cong[OF t, of "\<lambda>ts. length (filter fst ts)"] by (cases ph) (simp_all add: moved_def drop_nth_def u)
qed

lemma one_loop_step:
  "busy_step cfg b b' \<Longrightarrow> length (filter fst (bz_ticks b)) \<le> 1 \<Longrightarrow> length (filter fst (bz_ticks b')) \<le> 1"
proof (induction rule: busy_step.induct)
  case (Ticker b ph w)
  then show ?case by (auto simp: started_def filter_empty_conv split: option.splits)
next
  case (Move i b ph w)
  then show ?case using moved_loops[OF Move(1), of ph] by simp
qed (auto simp: started_def split: option.splits)

text \<open>
  C23. Whatever clients send on either transport, however requests, the parts of the deletions and
  of any number of ticks of the reconciler are interleaved, and whatever fails: the registry keeps
  its consistency, every tenant and site in it has an identifier of the documented form, every
  project tag is a valid one, every site has a broker, tier and direction that the capacity table
  knows, and the loop of the reconciler never overtakes itself.
\<close>

theorem interleavings_keep_registry_typed:
  assumes "busy_reachable cfg b"
  shows "db_inv (reg (bz_daemon b)) \<and>
    (\<forall>x \<in> set (db_tenants (reg (bz_daemon b))). rx_match tenant_id_pattern (st_id x) \<and> project_id_ok (t_project_id (read_tenant x))) \<and>
    (\<forall>r \<in> set (db_sites (reg (bz_daemon b))). rx_match site_id_pattern (s_id r) \<and>
       (\<exists>p. site_profile (s_broker_kind r) (s_throughput r) (s_direction r) = Inr p)) \<and>
    length (filter fst (bz_ticks b)) \<le> 1"
proof -
  obtain t d where r: "(busy_step cfg)\<^sup>*\<^sup>* (idle (initial_daemon t d)) b"
    using assms by (auto simp: busy_reachable_def)
  have "db_inv (reg (initial_daemon t d))" "api_ok (reg (initial_daemon t d))"
    using empty_db_inv[of t] by (simp_all add: initial_daemon_def api_ok_def, simp add: empty_db_def)
  then have "db_inv (reg (bz_daemon b))" "api_ok (reg (bz_daemon b))"
    using registry_busy.R_busy_steps[OF r] documented_busy.R_busy_steps[OF r] by simp_all
  moreover have "length (filter fst (bz_ticks b)) \<le> 1"
    using r by (induction rule: rtranclp_induct) (auto dest: one_loop_step)
  ultimately show ?thesis by (auto simp: api_ok_def tenant_ok_def site_ok_def read_tenant_def)
qed

theorem interleavings_keep_registry_typed_witness:
  "\<exists>b. busy_reachable example_cfg b \<and> length (bz_ticks b) = 1 \<and> map st_id (db_tenants (reg (bz_daemon b))) = [''tnt_a''] \<and>
     db_inv (reg (bz_daemon b))"
proof -
  obtain s where s: "run_state (handle_create_tenant example_cfg (Inr example_tenant_req)) (initial_daemon 0 []) =
      (write_json 201 (IdBody ''tnt_a'' ''p-1''), s) \<and> map st_id (db_tenants (reg s)) = [''tnt_a'']"
    using example_created by (rule exE)
  let ?b0 = "idle (initial_daemon 0 ([] :: string list))"
  have l: "on_db list_desired_states (dm_world (bz_daemon ?b0)) = ((None, []), dm_world (bz_daemon ?b0))"
    by (simp add: on_db_def list_desired_states_def sql_query_def sql_point_def initial_daemon_def empty_db_def)
  have "tick_begin (sc_env example_cfg) (dm_world (bz_daemon ?b0)) = (Some (Projects []), dm_world (bz_daemon ?b0))"
    using l by (simp add: tick_begin_def) (simp add: example_cfg_def example_env_def)
  note begin_step = busy_step.Ticker[OF _ this]
  define b1 where "b1 = \<lparr>bz_daemon = initial_daemon 0 ([] :: string list), bz_ticks = [(True, Projects [])], bz_deletes = []\<rparr>"
  have "busy_step example_cfg ?b0 b1"
    using begin_step by (simp add: b1_def started_def set_world_def idle_def)
  moreover have "busy_step example_cfg b1 (b1\<lparr>bz_daemon := s\<rparr>)"
    using busy_step.Unix[of example_cfg b1 "CreateTenant (Inr example_tenant_req)"]
    unfolding handle.simps(3) by (simp add: b1_def conjunct1[OF s])
  ultimately have r: "busy_reachable example_cfg (b1\<lparr>bz_daemon := s\<rparr>)"
    unfolding busy_reachable_def by (meson converse_rtranclp_into_rtranclp r_into_rtranclp)
  show ?thesis
    using interleavings_keep_registry_typed[OF r] conjunct2[OF s] r by (intro exI[of _ "b1\<lparr>bz_daemon := s\<rparr>"]) (simp add: b1_def)
qed

end
