(* ===== verification/Interleaving.thy ===== *)
theory Interleaving
  imports Concurrent
begin

text \<open>
  What the interleavings of the daemon guarantee about single projects, and what they do not: no
  project is held back for longer than the last delay of the ladder, a tick works on the rows it
  has read, so it can start again what was stopped meanwhile, and a project whose row is gone is
  never touched again, not even to take its containers down.
\<close>

section \<open>Backoff\<close>

text \<open>A project is held back after a failure only, and not longer than the ladder says.\<close>

definition held_ok :: "instant \<Rightarrow> project_state \<Rightarrow> bool" where
  "held_ok t ps \<longleftrightarrow>
     (case ps_next_retry ps of
        None \<Rightarrow> ps_failure_count ps = 0
      | Some u \<Rightarrow> 1 \<le> ps_failure_count ps \<and> u \<le> t + backoff_delay (ps_failure_count ps))"

definition backoff_ok :: "'d world \<Rightarrow> bool" where
  "backoff_ok w \<longleftrightarrow> (\<forall>p ps. w_states w p = Some ps \<longrightarrow> held_ok (clock w) ps)"

abbreviation held_rel :: "'d daemon \<Rightarrow> 'd daemon \<Rightarrow> bool" where
  "held_rel s s' \<equiv> clock (dm_world s) \<le> clock (dm_world s') \<and> (backoff_ok (dm_world s) \<longrightarrow> backoff_ok (dm_world s'))"

lemma held_later: "held_ok t ps \<Longrightarrow> t \<le> t' \<Longrightarrow> held_ok t' ps"
  by (auto simp: held_ok_def split: option.splits)

lemma backoff_same: "backoff_ok v \<Longrightarrow> clock v \<le> clock w \<Longrightarrow> w_states w = w_states v \<Longrightarrow> backoff_ok w"
  by (auto simp: backoff_ok_def intro: held_later)

lemma backoff_set:
  "backoff_ok v \<Longrightarrow> clock v \<le> clock w \<Longrightarrow> w_states w = (w_states v)(p \<mapsto> ps) \<Longrightarrow> held_ok (clock w) ps \<Longrightarrow> backoff_ok w"
  by (auto simp: backoff_ok_def intro: held_later)

lemma state_of_ok: "backoff_ok w \<Longrightarrow> held_ok (clock w) (state_of w p)"
  by (auto simp: backoff_ok_def state_of_def held_ok_def[of _ "\<lparr>ps_failure_count = 0, ps_next_retry = None\<rparr>"] split: option.split)

lemma next_state_ok: "held_ok u ps \<Longrightarrow> held_ok t (next_state ps r t)"
  by (auto simp: next_state_def held_ok_def split: option.splits)

lemma book_fields [simp]:
  "clock (book env d r w) = clock w" "w_trace (book env d r w) = w_trace w"
  "w_states (book env d r w) = (w_states w)(d_project_id d \<mapsto> next_state (state_of w (d_project_id d)) r (clock w))"
  by (simp_all add: book_def next_state_def Let_def split: option.split)

lemma backoff_book: "backoff_ok w \<Longrightarrow> backoff_ok (book env d r w)"
  by (rule backoff_set[of w _ "d_project_id d"]) (auto intro: next_state_ok[OF state_of_ok])

lemma backoff_touch: "backoff_ok w \<Longrightarrow> backoff_ok (touch p w)"
  by (rule backoff_set[of w _ p]) (use state_of_ok[of w p] in auto)

lemma clock_keeps:
  "clk.keeps u (insert_tenant t)" "clk.keeps u (update_tenant_stmt tid f)" "clk.keeps u (delete_desired_stmt sd)"
  "clk.keeps u (delete_sites_stmt ss)" "clk.keeps u (delete_tenant_stmt tid)" "clk.keeps u (insert_site s)"
  "clk.keeps u (update_site_stmt sid g)" "clk.keeps u (upsert_desired_stmt d)" "clk.keeps u (upsert_hash_stmt hk hv)"
  "clk.keeps u (insert_event ev)" "clk.keeps u (upsert_tsdb_stmt c)" "clk.keeps u (upsert_emqx_stmt ek)"
  "clk.keeps u (store_ca_stmt a)" "clk.keeps u (insert_cert ce)" "clk.keeps u (revoke_cert_stmt fp)"
  by (auto simp: clk.keeps_def stmts Let_def split: if_splits)

interpretation clk: written_predicate "\<lambda>db. db_now db = t" for t
  by unfold_locales (rule clock_keeps)+

lemma render_now:
  "render_and_write_tsdb exec sha rnd tenant dir db f = (r, db', f') \<Longrightarrow> db_now db' = db_now db"
  "render_and_write_site exec sha rnds site dir db f = (r', db'', f'') \<Longrightarrow> db_now db'' = db_now db"
  using clk.P_render_tsdb[OF refl] clk.P_render_site[OF refl] by blast+

lemma api_write_now:
  assumes "api_write f"
  shows "db_now (snd (f db)) = db_now db"
proof -
  have p: "\<forall>(w, st) \<in> set sts. clk.keeps (db_now db) st \<Longrightarrow> db_now (snd (with_tx what sts db)) = db_now db" for what sts
    by (rule clk.with_tx_P) simp_all
  note q = clk.calls_P(1-4)[OF _ refl]
  from assms show ?thesis unfolding api_write_def
    by (elim disjE exE conjE)
      (auto simp: create_tenant_def create_site_def update_tenant_retention_def update_tenant_status_def
        delete_tenant_def update_tenant_project_id_def update_site_def delete_site_def upsert_desired_state_def store_ca_cert_def
        store_cert_def revoke_cert_def intro!: p q clock_keeps)
qed

lemma held_relI:
  "(\<And>s r s'. run_state m s = (r, s') \<Longrightarrow> clock (dm_world s) \<le> clock (dm_world s') \<and> w_states (dm_world s') = w_states (dm_world s)) \<Longrightarrow>
     state_io_rel held_rel m"
  unfolding state_io_rel_def by (metis backoff_same prod.collapse)

interpretation held: busy_rel cfg "held_rel :: 'd daemon \<Rightarrow> 'd daemon \<Rightarrow> bool" for cfg :: "'d server_cfg"
proof -
  have w: "state_io_rel held_rel (on_store f :: ('d, store_error + unit) act)" if "api_write f" for f
    by (rule held_relI) (use api_write_now[OF that] in \<open>auto dest!: daemon_on_store; metis order_refl snd_conv\<close>)
  show "busy_rel cfg held_rel"
  proof (unfold_locales, goal_cases)
    case (4 f)
    then show ?case by (rule w[OF row_write_api])
  next
    case (5 ev)
    then show ?case by (auto simp: state_io_rel_def emit_event_def intro: backoff_same)
  next
    case (6 tid)
    then show ?case by (rule held_relI) (auto simp: render_tsdb_def Let_def dest: render_now split: prod.splits)
  next
    case (7 sid)
    then show ?case by (rule held_relI) (auto simp: render_site_files_def Let_def dest: render_now split: prod.splits)
  next
    case (8 project path)
    then show ?case
      by (rule held_relI) (auto simp: compose_restart_def dest: run_compose_clock run_compose_fields split: prod.splits)
  next
    case (14 f)
    then show ?case by (rule w)
  next
    case (15 s st)
    then show ?case
      using onward.R_trust_site[of "dm_world s" "sc_env cfg" st]
      by (auto intro: backoff_same[OF _ onward.R_trust_site same_states.R_trust_site])
  next
    case (16 s p)
    then show ?case by (simp add: backoff_touch)
  next
    case (17 d s x w)
    then show ?case
      by (auto dest: onward.R_decide intro: backoff_same[OF _ onward.R_decide same_states.R_decide])
  next
    case (18 d cf s r w)
    then show ?case
      by (auto dest: onward.R_act intro: backoff_same[OF _ onward.R_act same_states.R_act])
  next
    case (19 s d)
    then show ?case
      using onward.R_applied[of "dm_world s" d]
      by (auto intro: backoff_same[OF _ onward.R_applied same_states.R_applied])
  next
    case (20 s d r)
    then show ?case by (simp add: backoff_book)
  qed (auto intro: backoff_same)
qed

text \<open>
  C20. No project is held back longer than the ladder says.  In every state of every interleaving a
  project without a retry time has no failures to its record; one with a retry time has failed at
  least once, and it may be tried again after at most the delay of the ladder for its number of
  failures (half a minute, one, five, and from the fourth failure on thirty minutes), so whatever
  happened, half an hour later it may be tried.
\<close>

theorem backoff_never_blocks_longer:
  assumes "busy_reachable cfg b" "w_states (dm_world (bz_daemon b)) p = Some ps"
  shows "case ps_next_retry ps of
      None \<Rightarrow> ps_failure_count ps = 0
    | Some t \<Rightarrow> \<exists>n. ps_failure_count ps = int n + 1 \<and>
        t \<le> clock (dm_world (bz_daemon b)) + [30 * second, 1 * minute, 5 * minute, 30 * minute] ! min n 3 \<and>
        \<not> in_backoff ps (clock (dm_world (bz_daemon b)) + 30 * minute)"
proof -
  obtain t d where r: "(busy_step cfg)\<^sup>*\<^sup>* (idle (initial_daemon t d)) b"
    using assms(1) by (auto simp: busy_reachable_def)
  have "backoff_ok (dm_world (initial_daemon t d))" by (simp add: backoff_ok_def initial_daemon_def)
  then have h: "held_ok (clock (dm_world (bz_daemon b))) ps"
    using held.R_busy_steps[OF r] assms(2) by (simp add: backoff_ok_def)
  have l: "backoff_delay (int n + 1) = [30 * second, 1 * minute, 5 * minute, 30 * minute] ! min n 3" for n
  proof -
    consider "n = 0" | "n = 1" | "n = 2" | "3 \<le> n" by linarith
    then show ?thesis by cases (simp_all add: backoff_delay_cases min_def)
  qed
  show ?thesis
  proof (cases "ps_next_retry ps")
    case (Some t)
    obtain n where n: "ps_failure_count ps = int n + 1"
      using h Some by (auto simp: held_ok_def intro: that[of "nat (ps_failure_count ps - 1)"])
    have "t \<le> clock (dm_world (bz_daemon b)) + backoff_delay (int n + 1)"
      using h Some n by (simp add: held_ok_def)
    moreover have "backoff_delay (int n + 1) \<le> 30 * minute" by (simp add: backoff_delay_cases second_def minute_def)
    ultimately show ?thesis using Some n unfolding l[symmetric] by (auto simp: in_backoff_def intro!: exI[of _ n])
  qed (use h in \<open>simp add: held_ok_def\<close>)
qed

section \<open>Which commands a tick may issue\<close>

text \<open>The commands that start or stop containers, and those among them for one project.\<close>

definition converging :: "string list \<Rightarrow> bool" where
  "converging cmd \<longleftrightarrow> cmd ! 5 = ''up'' \<or> cmd ! 5 = ''down''"

definition commands_for :: "string \<Rightarrow> 'd busy \<Rightarrow> string list list" where
  "commands_for p b = filter (\<lambda>cmd. cmd ! 2 = p \<and> converging cmd) (w_trace (dm_world (bz_daemon b)))"

lemma command_parts [simp]: "compose_cmd p file (a # args) ! 5 = a" "compose_cmd p file args ! 2 = p"
  by (simp_all add: compose_cmd_def)

lemma converging_restart [simp]: "\<not> converging (compose_cmd p file (''restart'' # args))"
  by (simp add: converging_def)

text \<open>Requests, deletions and the check of the certificates restart brokers at most.\<close>

abbreviation restarts :: "'d daemon \<Rightarrow> 'd daemon \<Rightarrow> bool" where
  "restarts s s' \<equiv> \<exists>cs. w_trace (dm_world s') = w_trace (dm_world s) @ cs \<and> (\<forall>cmd \<in> set cs. \<not> converging cmd)"

lemma restartsI:
  "(\<And>s r s'. run_state m s = (r, s') \<Longrightarrow> restarts s s') \<Longrightarrow> state_io_rel restarts m"
  unfolding state_io_rel_def by (metis prod.collapse)

lemma same_trace_restarts: "w_trace (dm_world s') = w_trace (dm_world s) \<Longrightarrow> restarts s s'"
  by simp

interpretation calm: request_rel cfg "restarts :: 'd daemon \<Rightarrow> 'd daemon \<Rightarrow> bool" for cfg :: "'d server_cfg"
proof (unfold_locales, goal_cases)
  case (2 s s1 s2)
  then show ?case by fastforce
next
  case (4 f)
  then show ?case by (intro restartsI same_trace_restarts) (auto dest: daemon_on_store)
next
  case (5 ev)
  then show ?case by (rule restartsI) (auto simp: emit_event_def)
next
  case (6 tid)
  then show ?case by (intro restartsI same_trace_restarts) (auto simp: render_tsdb_def Let_def split: prod.splits)
next
  case (7 sid)
  then show ?case by (intro restartsI same_trace_restarts) (auto simp: render_site_files_def Let_def split: prod.splits)
next
  case (8 project path)
  then show ?case by (rule restartsI) (auto simp: compose_restart_def dest!: run_compose_fields split: prod.splits)
next
  case (14 f)
  then show ?case by (intro restartsI same_trace_restarts) (auto dest: daemon_on_store)
qed simp_all

lemma trust_site_restarts:
  "\<exists>cs. w_trace (trust_site env s w) = w_trace w @ cs \<and> (\<forall>cmd \<in> set cs. \<not> converging cmd)"
proof (cases "s_status s = ''active''")
  case True
  obtain rt w1 where 1: "on_db (get_tenant (s_tenant_id s)) w = (rt, w1)" by fastforce
  obtain ra w2 where 2: "on_db (get_ca_cert (s_id s)) w1 = (ra, w2)" by fastforce
  have "w_trace w2 = w_trace w" "w_trace w1 = w_trace w" using on_db_result[OF 1] on_db_result[OF 2] by auto
  then show ?thesis using True 1 2
    by (auto simp: trust_site_def Let_def split: sum.splits prod.splits option.splits dest!: run_compose_fields)
qed (simp add: trust_site_def)

lemma audit_world [simp]:
  "w_docker (audit ev w) = w_docker w" "w_states (audit ev w) = w_states w" "w_trace (audit ev w) = w_trace w"
  by (simp_all add: audit_def on_db_def split: prod.split)

lemma act_trace:
  assumes "act env d file w = (r, w')"
  shows "w_trace w' = w_trace w \<or> (\<exists>cmd. right_command d file cmd \<and> w_trace w' = w_trace w @ [cmd])"
    and "d_state d = ''running'' \<Longrightarrow> w_trace w' = w_trace w @ [compose_cmd (d_project_id d) file up_args]"
  using assms by (auto simp: act_def right_command_def up_args_def split: if_splits dest!: run_compose_fields)

lemma applied_trace [simp]: "w_trace (applied d w) = w_trace w"
  by (auto simp: applied_def)

lemma conclude_trace [simp]: "w_trace (conclude env d r w) = w_trace w"
  by (simp add: conclude_def)

lemma decide_trace: "decide env d w = (x, w') \<Longrightarrow> w_trace w' = w_trace w"
  by (auto simp: decide_def split: if_splits prod.splits bool.splits dest: needs_up_fields)

section \<open>The rows in flight\<close>

definition rows_in_flight :: "(bool \<times> tick_phase) list \<Rightarrow> desired_state_row set" where
  "rows_in_flight ticks = (\<Union>t \<in> set ticks. set (phase_rows (snd t)))"

definition wanted :: "string \<Rightarrow> 'd busy \<Rightarrow> bool" where
  "wanted p b \<longleftrightarrow> p \<in> d_project_id ` set (db_desired (reg (bz_daemon b)))"

lemma rows_begin:
  assumes "tick_begin env w = (ph, w')"
  shows "rows_in_flight (started l ph ticks) \<subseteq> rows_in_flight ticks \<union> set (db_desired (w_db w))"
  using assms
  by (auto simp: tick_begin_def started_def rows_in_flight_def on_db_def list_desired_states_def sql_query_def
      dest!: sql_point_field split: prod.splits option.splits if_splits)

lemma rows_drop: "rows_in_flight (drop_nth i ticks) \<subseteq> rows_in_flight ticks"
  by (auto simp: rows_in_flight_def drop_nth_def dest: in_set_takeD in_set_dropD)

lemma rows_replace:
  assumes "set (phase_rows p) \<subseteq> set (phase_rows (snd (ticks ! i)))" "i < length ticks"
  shows "rows_in_flight (ticks[i := (l, p)]) \<subseteq> rows_in_flight ticks"
proof -
  have "rows_in_flight (ticks[i := (l, p)]) \<subseteq> (\<Union>t \<in> insert (l, p) (set ticks). set (phase_rows (snd t)))"
    unfolding rows_in_flight_def by (intro UN_mono set_update_subset_insert order_refl)
  also have "\<dots> \<subseteq> rows_in_flight ticks"
    using assms by (auto simp: rows_in_flight_def intro!: bexI[of _ "ticks ! i"])
  finally show ?thesis .
qed

lemma phase_rows_move: "tick_move env ph w = (Some ph', w') \<Longrightarrow> set (phase_rows ph') \<subseteq> set (phase_rows ph)"
  by (cases "(env, ph, w)" rule: tick_move.cases) (auto split: prod.splits option.splits if_splits)

lemma rows_move:
  "i < length ticks \<Longrightarrow> tick_move env (snd (ticks ! i)) w = (ph, w') \<Longrightarrow> rows_in_flight (moved i ph ticks) \<subseteq> rows_in_flight ticks"
  by (cases ph) (simp_all add: moved_def rows_drop rows_replace phase_rows_move)

text \<open>What one step adds to the commands, and to the rows in flight.\<close>

lemma move_commands:
  assumes "tick_move env ph w = (ph', w')"
  shows "\<exists>cs. w_trace w' = w_trace w @ cs \<and>
    (\<forall>cmd \<in> set cs. converging cmd \<longrightarrow> (\<exists>d \<in> set (phase_rows ph). right_command d (compose_file env d) cmd))"
proof (cases "(env, ph, w)" rule: tick_move.cases)
  case (2 env s sites ds w)
  then show ?thesis using assms trust_site_restarts[of env s w] by fastforce
next
  case (4 env d ds w)
  then have "w_trace w' = w_trace w"
    using assms by (auto split: if_splits prod.splits option.splits dest: decide_trace)
  then show ?thesis using 4 by simp
next
  case (5 env d ds w)
  then show ?thesis using assms act_trace(1)[of env d "compose_file env d" w] by (fastforce split: prod.splits)
qed (use assms in \<open>auto split: prod.splits option.splits dest!: on_db_result\<close>)

lemma step_commands:
  "busy_step cfg b b' \<Longrightarrow> \<exists>cs. w_trace (dm_world (bz_daemon b')) = w_trace (dm_world (bz_daemon b)) @ cs \<and>
     (\<forall>cmd \<in> set cs. converging cmd \<longrightarrow>
        (\<exists>d \<in> rows_in_flight (bz_ticks b). right_command d (compose_file (sc_env cfg) d) cmd))"
proof (induction rule: busy_step.induct)
  case (Unix b req)
  then show ?case using calm.resp_handle[of cfg req] by (fastforce simp: state_io_rel_def)
next
  case (Tcp b hdr req)
  then show ?case using calm.resp_tcp[of cfg hdr req] by (fastforce simp: state_io_rel_def)
next
  case (Mark tid purge b pid s)
  then show ?case using calm.resp_delete_parts(1)[of cfg tid purge] by (fastforce simp: state_io_rel_def)
next
  case (Finish i b tid purge pid resp s)
  then show ?case using calm.resp_delete_parts(2)[of tid purge pid] by (fastforce simp: state_io_rel_def)
next
  case (Move i b ph w)
  have "\<exists>d \<in> rows_in_flight (bz_ticks b). right_command d (compose_file (sc_env cfg) d) cmd"
    if "\<exists>d \<in> set (phase_rows (snd (bz_ticks b ! i))). right_command d (compose_file (sc_env cfg) d) cmd" for cmd
    using that Move(1) unfolding rows_in_flight_def by (meson UN_I nth_mem)
  then show ?case using move_commands[OF Move(2)] by simp blast
next
  case (World b s)
  then show ?case by (auto elim!: world_step.cases)
qed (auto simp: tick_begin_def split: prod.splits option.splits dest!: on_db_result)

lemma step_rows:
  "busy_step cfg b b' \<Longrightarrow> rows_in_flight (bz_ticks b') \<subseteq> rows_in_flight (bz_ticks b) \<union> set (db_desired (reg (bz_daemon b)))"
proof (induction rule: busy_step.induct)
  case (Ticker b ph w)
  then show ?case using rows_begin by simp
next
  case (Trigger b ph w)
  then show ?case using rows_begin by simp
next
  case (Move i b ph w)
  then show ?case using rows_move[OF Move] by auto
qed auto

text \<open>A step over which a project has no row in the registry.\<close>

definition step_without :: "'d server_cfg \<Rightarrow> string \<Rightarrow> 'd busy \<Rightarrow> 'd busy \<Rightarrow> bool" where
  "step_without cfg p b b' \<longleftrightarrow> busy_step cfg b b' \<and> \<not> wanted p b'"

lemma step_commands_for:
  assumes "busy_step cfg b b'" "p \<notin> d_project_id ` rows_in_flight (bz_ticks b)"
  shows "commands_for p b' = commands_for p b"
proof -
  obtain cs where cs: "w_trace (dm_world (bz_daemon b')) = w_trace (dm_world (bz_daemon b)) @ cs"
    "\<forall>cmd \<in> set cs. converging cmd \<longrightarrow> (\<exists>d \<in> rows_in_flight (bz_ticks b). right_command d (compose_file (sc_env cfg) d) cmd)"
    using step_commands[OF assms(1)] by blast
  have "cmd ! 2 \<noteq> p" if "cmd \<in> set cs" "converging cmd" for cmd
    using cs(2) that assms(2) by (auto simp: right_command_def up_args_def)
  then have "filter (\<lambda>cmd. cmd ! 2 = p \<and> converging cmd) cs = []" by (auto simp: filter_empty_conv)
  then show ?thesis by (simp add: commands_for_def cs(1))
qed

lemma forgotten_project:
  assumes "(step_without cfg p)\<^sup>*\<^sup>* b b'" "\<not> wanted p b" "p \<notin> d_project_id ` rows_in_flight (bz_ticks b)"
  shows "commands_for p b' = commands_for p b \<and> p \<notin> d_project_id ` rows_in_flight (bz_ticks b') \<and> \<not> wanted p b'"
  using assms(1)
proof (induction rule: rtranclp_induct)
  case base
  then show ?case using assms(2,3) by simp
next
  case (step c c')
  then show ?case
    using step_commands_for[of cfg c c' p] step_rows[of cfg c c'] by (auto simp: step_without_def wanted_def)
qed

lemma audit_desired [simp]: "db_desired (w_db (audit ev w)) = db_desired (w_db w)"
  by (auto simp: audit_def on_db_def emit_def sql_exec_def sql_point_def insert_event_def
      split: prod.splits sum.splits option.splits list.splits)

lemma finish_desired:
  assumes "run_state (delete_tenant_finish tid True pid) s = (resp, s')" "rs_status resp = 204"
  shows "db_desired (reg s') = filter (\<lambda>d. d_tenant_id d \<noteq> tid \<and> d_project_id d \<noteq> tid @ ''-tsdb'') (db_desired (reg s))"
proof -
  obtain r db where d: "delete_tenant tid True (reg s) = (r, db)" by fastforce
  have "\<exists>u. r = Inr u \<and> db_desired (reg s') = db_desired db"
    using assms d by (cases r)
      (auto simp: delete_tenant_finish_def on_store_def on_db_def emit_event_def State_Monad.bind_def State_Monad.return_def
        write_err_def write_json_def split: prod.splits)
  then show ?thesis
    using purge_tenant_effect[of tid "reg s"] d
    by (auto simp: same_data_def without_tenant_def without_sites_def Let_def dest: arg_cong[of _ _ db_desired])
qed

text \<open>
  C19. A purge can leave the containers running for good.  The deletion of a tenant starts a
  background run of the reconciler and then deletes the rows that ask for the removal; if it is
  through before a tick has read them (no row of the project is in flight), then whatever happens
  afterwards, as long as nobody asks for a project of that name again, no tick ever issues an
  \<^verbatim>\<open>up\<close> or a \<^verbatim>\<open>down\<close> for it.
\<close>

theorem purge_abandons_containers:
  assumes "i < length (bz_deletes b)" "bz_deletes b ! i = (tid, True, pid)"
    and "run_state (delete_tenant_finish tid True pid) (bz_daemon b) = (resp, s)" "rs_status resp = 204"
    and "\<forall>d \<in> set (db_desired (reg (bz_daemon b))). d_project_id d = p \<longrightarrow> d_tenant_id d = tid"
    and "p \<notin> d_project_id ` rows_in_flight (bz_ticks b)"
    and "(step_without cfg p)\<^sup>*\<^sup>* (b\<lparr>bz_daemon := s, bz_deletes := drop_nth i (bz_deletes b)\<rparr>) b'"
  shows "busy_step cfg b (b\<lparr>bz_daemon := s, bz_deletes := drop_nth i (bz_deletes b)\<rparr>) \<and> commands_for p b' = commands_for p b"
proof -
  let ?b1 = "b\<lparr>bz_daemon := s, bz_deletes := drop_nth i (bz_deletes b)\<rparr>"
  have s: "busy_step cfg b ?b1" by (rule busy_step.Finish[OF assms(1-3)])
  have "\<not> wanted p ?b1" using finish_desired[OF assms(3,4)] assms(5) by (auto simp: wanted_def)
  then show ?thesis using forgotten_project[OF assms(7)] step_commands_for[OF s assms(6)] s assms(6) by simp
qed

text \<open>The deletion is through before any tick; the containers of the tenant's database stay.\<close>

theorem purge_abandons_containers_witness:
  "\<exists>b b'. bz_deletes b = [(''tnt_a'', True, '''')] \<and> map d_state (db_desired (reg (bz_daemon b))) = [''removed''] \<and>
     (busy_step example_cfg)\<^sup>*\<^sup>* b b' \<and> bz_deletes b' = [] \<and> w_last_tick (dm_world (bz_daemon b')) \<noteq> None \<and>
     commands_for ''tnt_a-tsdb'' b' = [] \<and> w_docker (dm_world (bz_daemon b')) = [''tnt_a-tsdb'']"
proof -
  let ?R = "step_without example_cfg ''tnt_a-tsdb''"
  let ?s0 = "set_world (initial_daemon 0 [''tnt_a-tsdb'']) ((dm_world (initial_daemon 0 [''tnt_a-tsdb'']))
    \<lparr>w_db := (empty_db 0)\<lparr>db_desired := [desired_row ''tnt_a-tsdb'' ''tnt_a'' '''' ''removed'']\<rparr>\<rparr>)"
  define b where "b = \<lparr>bz_daemon = ?s0, bz_ticks = [], bz_deletes = [(''tnt_a'', True, '''')]\<rparr>"
  obtain resp s where f: "run_state (delete_tenant_finish ''tnt_a'' True '''') ?s0 = (resp, s)" by fastforce
  obtain db where d: "delete_tenant ''tnt_a'' True (reg ?s0) = (Inr (), db)"
    using purge_tenant_quiet[of "reg ?s0" "''tnt_a''"] by (cases "delete_tenant ''tnt_a'' True (reg ?s0)") (auto simp: empty_db_def)
  have r: "rs_status resp = 204" "w_docker (dm_world s) = [''tnt_a-tsdb'']"
    using f d by (auto simp: delete_tenant_finish_def on_store_def on_db_def emit_event_def State_Monad.bind_def
        State_Monad.return_def write_json_def initial_daemon_def split: prod.splits)
  have ds: "db_desired (reg s) = []" using finish_desired[OF f r(1)] by (simp add: desired_row_def)
  define b1 where "b1 = \<lparr>bz_daemon = s, bz_ticks = [], bz_deletes = []\<rparr>"
  define w where "w = (dm_world s)\<lparr>w_db := (reg s)\<lparr>db_faults := []\<rparr>, w_fs := (w_fs (dm_world s))\<lparr>fs_faults := []\<rparr>\<rparr>"
  define b2 where "b2 = \<lparr>bz_daemon = set_world s w, bz_ticks = [], bz_deletes = []\<rparr>"
  define b3 where "b3 = \<lparr>bz_daemon = set_world s w, bz_ticks = [(True, Projects [])], bz_deletes = []\<rparr>"
  define b4 where "b4 = \<lparr>bz_daemon = set_world s (w\<lparr>w_last_tick := Some (db_now (w_db w))\<rparr>), bz_ticks = [], bz_deletes = []\<rparr>"
  note defs = b1_def b2_def b3_def b4_def w_def step_without_def wanted_def ds set_world_def
  have k: "env_master_key (sc_env example_cfg) = ''''" by (simp add: example_cfg_def example_env_def)
  have "tick_begin (sc_env example_cfg) w = (Some (Projects []), w)"
    by (simp add: tick_begin_def on_db_def list_desired_states_def sql_query_def sql_point_def k w_def ds)
  note begin_step = busy_step.Ticker[where b = b2 and ph = "Some (Projects [])" and w = w and cfg = example_cfg]
  have "?R b1 b2"
    using busy_step.World[OF world_step.Fails[of "bz_daemon b1" "[]" "[]"], of example_cfg] by (simp add: defs)
  moreover have "?R b2 b3"
    using begin_step \<open>tick_begin (sc_env example_cfg) w = (Some (Projects []), w)\<close> by (simp add: defs started_def)
  moreover have "?R b3 b4"
    using busy_step.Move[of 0 b3 example_cfg None] by (simp add: defs moved_def drop_nth_def)
  ultimately have run: "?R\<^sup>*\<^sup>* b1 b4" by (meson converse_rtranclp_into_rtranclp rtranclp.rtrancl_refl)
  have e: "b\<lparr>bz_daemon := s, bz_deletes := drop_nth 0 (bz_deletes b)\<rparr> = b1" by (simp add: b_def b1_def drop_nth_def)
  have o: "\<forall>d \<in> set (db_desired (reg (bz_daemon b))). d_project_id d = ''tnt_a-tsdb'' \<longrightarrow> d_tenant_id d = ''tnt_a''"
    by (simp add: b_def desired_row_def)
  have p: "busy_step example_cfg b b1 \<and> commands_for ''tnt_a-tsdb'' b4 = commands_for ''tnt_a-tsdb'' b"
    by (rule purge_abandons_containers[where i = 0 and b = b and s = s and resp = resp, unfolded e, OF _ _ _ r(1) o _ run])
      (use f in \<open>simp_all add: b_def rows_in_flight_def\<close>)
  have "(busy_step example_cfg)\<^sup>*\<^sup>* b1 b4"
    using run by (rule mono_rtranclp[rule_format, rotated]) (simp add: step_without_def)
  then have "(busy_step example_cfg)\<^sup>*\<^sup>* b b4" using p by (meson converse_rtranclp_into_rtranclp)
  moreover have "commands_for ''tnt_a-tsdb'' b = []" by (simp add: commands_for_def b_def initial_daemon_def)
  ultimately show ?thesis
    using p r(2) by (intro exI[of _ b] exI[of _ b4]) (simp add: b_def b4_def w_def desired_row_def)
qed

section \<open>A stop that a tick in flight undoes\<close>

abbreviation desired_of :: "string \<Rightarrow> 'd daemon \<Rightarrow> string option" where
  "desired_of p s \<equiv> map_option d_state (lookup d_project_id p (db_desired (reg s)))"

text \<open>What a stop changes: the row of the project, a run to start, and the audit log.\<close>

lemma stop_site_run:
  assumes "run_state (handle_stop_site cfg tid sid) s = (resp, s')" "rs_status resp = 202" "db_faults (reg s) = []"
  shows "db_faults (reg s') = []" "db_hashes (reg s') = db_hashes (reg s)" "clock (dm_world s') = clock (dm_world s)"
    "w_docker (dm_world s') = w_docker (dm_world s)" "w_states (dm_world s') = w_states (dm_world s)"
    "w_trace (dm_world s') = w_trace (dm_world s)" "desired_of (tid @ ''-'' @ sid) s' = Some ''stopped''"
proof -
  let ?p = "tid @ ''-'' @ sid"
  obtain r s1 where g: "run_state (on_store (get_site sid)) s = (r, s1)" by fastforce
  have s1: "s1 = s" using g assms(3) by (auto simp: on_store_def on_db_def get_site_def quiet set_world_def split: option.splits)
  obtain s2 where u: "run_state (set_desired ?p tid sid ''stopped'') s = ((), s2)" by (metis prod.collapse old.unit.exhaust)
  have q: "db_faults (reg s2) = []" "db_hashes (reg s2) = db_hashes (reg s)" "clock (dm_world s2) = clock (dm_world s)"
    "w_docker (dm_world s2) = w_docker (dm_world s)" "w_states (dm_world s2) = w_states (dm_world s)"
    "w_trace (dm_world s2) = w_trace (dm_world s)"
    "desired_of ?p s2 = Some ''stopped''"
    using u assms(3) by (auto simp: set_desired_run lookup_upsert desired_row_def split: option.split)
  obtain s3 where v: "run_state (trigger_recon cfg) s2 = ((), s3)" by (metis prod.collapse old.unit.exhaust)
  have w3: "dm_world s3 = dm_world s2" using v by (auto simp: trigger_recon_def split: if_splits)
  obtain pid s4 where p: "run_state (tenant_project_id tid) s3 = (pid, s4)" by fastforce
  have w4: "dm_world s4 = dm_world s2"
    using p q(1) w3 by (auto simp: tenant_project_id_def on_store_def on_db_def get_tenant_def quiet State_Monad.return_def
        State_Monad.bind_def split: if_splits option.splits)
  have "dm_world s' = audit (new_event kind_site_stop tid sid '''' True pid) (dm_world s4)"
    using assms(1,2) g p
    by (cases r)
      (auto simp: handle_stop_site_def site_lifecycle_def found_def not_found_or_500_def emit_event_def s1 u[simplified] v
        State_Monad.bind_def State_Monad.return_def write_err_def split: if_splits)
  then show "db_faults (reg s') = []" "db_hashes (reg s') = db_hashes (reg s)" "clock (dm_world s') = clock (dm_world s)"
    "w_docker (dm_world s') = w_docker (dm_world s)" "w_states (dm_world s') = w_states (dm_world s)"
    "w_trace (dm_world s') = w_trace (dm_world s)" "desired_of (tid @ ''-'' @ sid) s' = Some ''stopped''"
    using q w4 audit_quiet[of "dm_world s4"] by simp_all
qed

text \<open>A row that says \<^verbatim>\<open>running\<close> is acted upon as it was read, whatever the registry says now.\<close>

lemma settled_same:
  "w_docker w' = w_docker w \<Longrightarrow> db_hashes (w_db w') = db_hashes (w_db w) \<Longrightarrow> settled env d w' = settled env d w"
  by (simp add: settled_def containers_of_def split: sum.split)

lemma decide_up:
  assumes "env_sdk env" "d_state d = ''running''" "db_faults (w_db w) = []" "\<not> settled env d w"
  shows "decide env d (touch p w) = (None, touch p w)"
  using assms needs_up_settled[of env "touch p w" d] settled_same[of "touch p w" w] by (simp add: decide_def)

text \<open>The command of a row that is due is issued, and the registry is not written.\<close>

lemma acting_up:
  assumes "snd (bz_ticks b ! i) = Acting d ds" "i < length (bz_ticks b)" "d_state d = ''running''"
  shows "\<exists>b'. busy_step cfg b b' \<and> db_desired (reg (bz_daemon b')) = db_desired (reg (bz_daemon b)) \<and>
    w_trace (dm_world (bz_daemon b')) =
      w_trace (dm_world (bz_daemon b)) @ [compose_cmd (d_project_id d) (compose_file (sc_env cfg) d) up_args]"
proof -
  obtain r w where a: "act (sc_env cfg) d (compose_file (sc_env cfg) d) (dm_world (bz_daemon b)) = (r, w)" by fastforce
  have "tick_move (sc_env cfg) (snd (bz_ticks b ! i)) (dm_world (bz_daemon b)) = (Some (Concluding d r ds), w)"
    using a assms(1) by simp
  from busy_step.Move[OF assms(2) this] show ?thesis
    using act_trace(2)[OF a assms(3)] tables_kept.R_act[OF a] by (fastforce simp: client_tables_def)
qed

text \<open>
  C18. A tick in flight can undo a stop.  When a tick has read the row of a site that is to run, and
  has decided to bring it up or is about to turn to it and would decide so, and the site is stopped in
  the meantime, then the stop is answered with success and recorded, and the tick still runs
  \<^verbatim>\<open>up\<close>; the registry keeps saying \<^verbatim>\<open>stopped\<close>, so the containers run against the desired state
  until the next tick has read it.
\<close>

theorem tick_in_flight_undoes_stop:
  assumes "run_state (handle_stop_site cfg tid sid) (bz_daemon b) = (resp, s)" "rs_status resp = 202"
    and "db_faults (reg (bz_daemon b)) = []" "i < length (bz_ticks b)"
    and "d_project_id d = tid @ ''-'' @ sid" "d_state d = ''running''"
    and "snd (bz_ticks b ! i) = Acting d ds \<or>
      snd (bz_ticks b ! i) = Projects (d # ds) \<and> env_sdk (sc_env cfg) \<and>
      \<not> in_backoff (state_of (dm_world (bz_daemon b)) (d_project_id d)) (clock (dm_world (bz_daemon b))) \<and>
      \<not> settled (sc_env cfg) d (dm_world (bz_daemon b))"
  shows "\<exists>b'. busy_step cfg b (b\<lparr>bz_daemon := s\<rparr>) \<and> desired_of (d_project_id d) s = Some ''stopped'' \<and>
    (busy_step cfg)\<^sup>*\<^sup>* (b\<lparr>bz_daemon := s\<rparr>) b' \<and> desired_of (d_project_id d) (bz_daemon b') = Some ''stopped'' \<and>
    w_trace (dm_world (bz_daemon b')) =
      w_trace (dm_world s) @ [compose_cmd (d_project_id d) (compose_file (sc_env cfg) d) up_args]"
proof -
  note s = stop_site_run[OF assms(1-3)]
  let ?b1 = "b\<lparr>bz_daemon := s\<rparr>"
  have 1: "busy_step cfg b ?b1" using busy_step.Unix[of cfg b "StopSite tid sid"] assms(1) by simp
  obtain b2 where 2: "(busy_step cfg)\<^sup>*\<^sup>* ?b1 b2" "snd (bz_ticks b2 ! i) = Acting d ds" "i < length (bz_ticks b2)"
    "db_desired (reg (bz_daemon b2)) = db_desired (reg s)" "w_trace (dm_world (bz_daemon b2)) = w_trace (dm_world s)"
    using assms(7)
  proof (elim disjE conjE)
    assume "snd (bz_ticks b ! i) = Acting d ds"
    then show thesis by (intro that[of ?b1]) (simp_all add: assms(4))
  next
    assume p: "snd (bz_ticks b ! i) = Projects (d # ds)" "env_sdk (sc_env cfg)"
      "\<not> in_backoff (state_of (dm_world (bz_daemon b)) (d_project_id d)) (clock (dm_world (bz_daemon b)))"
      "\<not> settled (sc_env cfg) d (dm_world (bz_daemon b))"
    let ?w = "touch (d_project_id d) (dm_world s)"
    let ?b2 = "?b1\<lparr>bz_daemon := set_world s ?w, bz_ticks := moved i (Some (Acting d ds)) (bz_ticks b)\<rparr>"
    have "decide (sc_env cfg) d ?w = (None, ?w)"
      using p(2,4) assms(6) s settled_same[OF s(4,2)] by (intro decide_up) simp_all
    then have "tick_move (sc_env cfg) (snd (bz_ticks ?b1 ! i)) (dm_world (bz_daemon ?b1)) = (Some (Acting d ds), ?w)"
      using p(1,3) s(3,5) by (simp add: state_of_def)
    then have "busy_step cfg ?b1 ?b2" using busy_step.Move[of i ?b1 cfg "Some (Acting d ds)" ?w] assms(4) by simp
    then show thesis using assms(4) by (intro that[of ?b2]) (simp_all add: moved_def r_into_rtranclp)
  qed
  obtain b3 where 3: "busy_step cfg b2 b3" "db_desired (reg (bz_daemon b3)) = db_desired (reg (bz_daemon b2))"
    "w_trace (dm_world (bz_daemon b3)) =
       w_trace (dm_world (bz_daemon b2)) @ [compose_cmd (d_project_id d) (compose_file (sc_env cfg) d) up_args]"
    using acting_up[OF 2(2,3) assms(6)] by blast
  have "(busy_step cfg)\<^sup>*\<^sup>* ?b1 b3" using 2(1) 3(1) by (rule rtranclp.rtrancl_into_rtrancl)
  then show ?thesis using 1 2 3 s(7) assms(5) by (intro exI[of _ b3]) simp
qed

text \<open>Docker refuses every command: the project of an apply has failed once and held_rel half a minute.\<close>

definition refusing_cfg :: "string list server_cfg" where
  "refusing_cfg = example_cfg\<lparr>sc_env := example_env\<lparr>env_docker := (\<lambda>cmd ps. ((Some ''exit status 1'', 0), ps))\<rparr>\<rparr>"

theorem backoff_never_blocks_longer_witness:
  "\<exists>b t. busy_reachable refusing_cfg b \<and>
     w_states (dm_world (bz_daemon b)) ''p'' = Some \<lparr>ps_failure_count = 1, ps_next_retry = Some t\<rparr> \<and>
     t \<le> clock (dm_world (bz_daemon b)) + 30 * second"
proof -
  let ?env = "sc_env refusing_cfg" and ?s0 = "initial_daemon 0 ([] :: string list)"
  let ?d = "(desired_row ''p'' '''' '''' ''running'')\<lparr>d_updated_at := stamp (empty_db 0)\<rparr>"
  have e: "env_sdk ?env" "env_master_key ?env = ''''" "env_list ?env = env_list example_env"
    "env_docker ?env = (\<lambda>cmd ps. ((Some ''exit status 1'', 0), ps))"
    by (simp_all add: refusing_cfg_def example_env_def)
  define w1 where "w1 = (dm_world ?s0)\<lparr>w_db := (empty_db 0)\<lparr>db_desired := [?d]\<rparr>\<rparr>"
  define b1 where "b1 = \<lparr>bz_daemon = set_world (?s0\<lparr>dm_pending := 1\<rparr>) w1, bz_ticks = [], bz_deletes = []\<rparr>"
  define b2 where "b2 = b1\<lparr>bz_ticks := [(True, Projects [?d])]\<rparr>"
  define w2 where "w2 = snd (act ?env ?d (compose_file ?env ?d) (touch ''p'' w1))"
  define r2 where "r2 = fst (act ?env ?d (compose_file ?env ?d) (touch ''p'' w1))"
  define b3 where "b3 = b2\<lparr>bz_daemon := set_world (bz_daemon b2) (touch ''p'' w1), bz_ticks := [(True, Acting ?d [])]\<rparr>"
  define b4 where "b4 = b2\<lparr>bz_daemon := set_world (bz_daemon b2) w2, bz_ticks := [(True, Concluding ?d r2 [])]\<rparr>"
  define b5 where "b5 = b2\<lparr>bz_daemon := set_world (bz_daemon b2) (conclude ?env ?d r2 w2), bz_ticks := [(True, Projects [])]\<rparr>"
  have q: "db_faults (reg ?s0) = []" "sc_recon refusing_cfg" by (simp_all add: initial_daemon_def empty_db_def refusing_cfg_def example_cfg_def)
  have "run_state (handle_apply refusing_cfg ''p'' '''' None) ?s0 = (write_json 202 (SelectorBody ''p''), bz_daemon b1)"
    using q by (simp add: handle_apply_def set_desired_run[OF q(1)] trigger_recon_def State_Monad.bind_def State_Monad.return_def b1_def w1_def)
      (simp add: set_world_def initial_daemon_def upsert_def has_key_iff empty_db_def)
  then have 1: "busy_step refusing_cfg (idle ?s0) b1"
    using busy_step.Unix[of refusing_cfg "idle ?s0" "Apply ''p'' '''' None"] by (simp add: b1_def idle_def)
  have "tick_begin ?env w1 = (Some (Projects [?d]), w1)"
    by (simp add: tick_begin_def on_db_def list_desired_states_def sql_query_def sql_point_def e w1_def empty_db_def)
  then have 2: "busy_step refusing_cfg b1 b2"
    using busy_step.Ticker[of b1 refusing_cfg "Some (Projects [?d])" w1] by (simp add: b1_def b2_def started_def set_world_def)
  have p: "d_project_id ?d = ''p''" "d_state ?d = ''running''" "d_site_id ?d = ''''" by (simp_all add: desired_row_def)
  have ps: "state_of w1 ''p'' = \<lparr>ps_failure_count = 0, ps_next_retry = None\<rparr>" by (simp add: state_of_def w1_def initial_daemon_def)
  have "\<not> settled ?env ?d w1"
    by (simp add: settled_def containers_of_def list_by_project_def e(3) p(1), simp add: example_env_def w1_def initial_daemon_def)
  then have "decide ?env ?d (touch ''p'' w1) = (None, touch ''p'' w1)"
    using e(1) p(2) by (intro decide_up) (simp_all add: w1_def empty_db_def)
  then have 3: "busy_step refusing_cfg b2 b3"
    using busy_step.Move[of 0 b2 refusing_cfg "Some (Acting ?d [])" "touch ''p'' w1"]
    by (simp add: b1_def b2_def b3_def moved_def p(1) ps in_backoff_def)
  have a: "act ?env ?d (compose_file ?env ?d) (touch ''p'' w1) = (r2, w2)" by (simp add: r2_def w2_def)
  have 4: "busy_step refusing_cfg b3 b4"
    using busy_step.Move[of 0 b3 refusing_cfg "Some (Concluding ?d r2 [])" w2]
    by (simp add: b1_def b2_def b3_def b4_def moved_def set_world_def a)
  have 5: "busy_step refusing_cfg b4 b5"
    using busy_step.Move[of 0 b4 refusing_cfg "Some (Projects [])" "conclude ?env ?d r2 w2"]
    by (simp add: b1_def b2_def b4_def b5_def moved_def set_world_def)
  have r: "busy_reachable refusing_cfg b5"
    unfolding busy_reachable_def using 1 2 3 4 5 by (meson converse_rtranclp_into_rtranclp rtranclp.rtrancl_refl)
  obtain x where x: "r2 = Some x"
    using a p by (auto simp: act_def run_compose_def e(4) Let_def)
  have "state_of w2 ''p'' = state_of w1 ''p''" using same_states.R_act[OF a] by (simp add: state_of_def)
  then have s: "w_states (dm_world (bz_daemon b5)) ''p'' = Some \<lparr>ps_failure_count = 1, ps_next_retry = Some (clock w2 + backoff_delay 1)\<rparr>"
    by (simp add: b5_def conclude_def x p(1) next_state_def ps)
  show ?thesis using backoff_never_blocks_longer[OF r s] r s by fastforce
qed

text \<open>The loop's tick has read that the site is to run; the operator stops it; the tick starts it.\<close>

theorem tick_in_flight_undoes_stop_witness:
  "\<exists>b b' :: string list busy. (busy_step example_cfg)\<^sup>*\<^sup>* b b' \<and> desired_of ''tnt_a-ste_a'' (bz_daemon b') = Some ''stopped'' \<and>
     w_trace (dm_world (bz_daemon b)) = [] \<and>
     w_trace (dm_world (bz_daemon b')) = [compose_cmd ''tnt_a-ste_a''
       (path_join [''/data'', ''tenants'', ''tnt_a'', ''sites'', ''ste_a'', ''docker-compose.yml'']) up_args]"
proof -
  let ?d = "desired_row ''tnt_a-ste_a'' ''tnt_a'' ''ste_a'' ''running''"
  define s0 where "s0 = set_world (initial_daemon 0 ([] :: string list))
    ((dm_world (initial_daemon 0 []))\<lparr>w_db := crowded_db\<lparr>db_desired := [?d]\<rparr>\<rparr>)"
  define b where "b = \<lparr>bz_daemon = s0, bz_ticks = [(True, Projects [?d])], bz_deletes = []\<rparr>"
  have f: "db_faults (reg s0) = []" by (simp add: s0_def crowded_db_def empty_db_def)
  obtain resp s where run: "run_state (handle_stop_site example_cfg ''tnt_a'' ''ste_a'') s0 = (resp, s)" by fastforce
  have g: "run_state (on_store (get_site ''ste_a'')) s0 = (Inr (crowded_site ''ste_a''), s0)"
    by (simp add: on_store_def on_db_def get_site_def quiet f, simp add: s0_def crowded_db_def lookup_def crowded_site_def set_world_def)
  have r: "rs_status resp = 202"
    using run g by (auto simp: handle_stop_site_def site_lifecycle_def found_def State_Monad.bind_def State_Monad.return_def
        split: prod.splits)
  have u: "\<not> settled (sc_env example_cfg) ?d (dm_world s0)"
    by (simp add: settled_def containers_of_def list_by_project_def, simp add: example_cfg_def example_env_def s0_def initial_daemon_def)
  have n: "\<not> in_backoff (state_of (dm_world s0) (d_project_id ?d)) (clock (dm_world s0))"
    by (simp add: in_backoff_def state_of_def s0_def initial_daemon_def)
  have e: "env_sdk (sc_env example_cfg)" "env_data_dir (sc_env example_cfg) = ''/data''" by (simp_all add: example_cfg_def example_env_def)
  have t: "w_trace (dm_world s) = []"
    using stop_site_run(6)[OF run r f] by (simp add: s0_def initial_daemon_def)
  obtain b' where "busy_step example_cfg b (b\<lparr>bz_daemon := s\<rparr>)" "(busy_step example_cfg)\<^sup>*\<^sup>* (b\<lparr>bz_daemon := s\<rparr>) b'"
    "desired_of (d_project_id ?d) (bz_daemon b') = Some ''stopped''"
    "w_trace (dm_world (bz_daemon b')) = w_trace (dm_world s) @ [compose_cmd (d_project_id ?d) (compose_file (sc_env example_cfg) ?d) up_args]"
    using tick_in_flight_undoes_stop[of example_cfg "''tnt_a''" "''ste_a''" b resp s 0 ?d "[]"] run r f u n e
    by (auto simp: b_def desired_row_def)
  then show ?thesis using t e(2)
    by (intro exI[of _ b] exI[of _ b'])
      (auto simp: desired_row_def compose_file_def b_def s0_def initial_daemon_def intro: converse_rtranclp_into_rtranclp)
qed

end
