(* ===== verification/Process.thy ===== *)
theory Process
  imports Admin Concurrent
begin

text \<open>
  The daemon as a process: the checks of \<^verbatim>\<open>runDaemon\<close> (\<^verbatim>\<open>cmd/controlai/main.go\<close>) before it starts,
  its three threads (the listeners \<^verbatim>\<open>ServeUnix\<close> and \<^verbatim>\<open>ServeTCP\<close> of \<^verbatim>\<open>internal/daemon/server.go\<close>, the loop
  \<^verbatim>\<open>Run\<close> of \<^verbatim>\<open>internal/recon/reconciler.go\<close>) with the ticks they have in flight, the signals, and how
  it ends.  A request is routed and handled in one step, the deletion of a tenant in one or in two.
  What the operating system answers to a listen or reports when serving ends is left to the steps;
  the answers of the multiplexer to requests that find no route are an argument.
\<close>

section \<open>Before the daemon starts\<close>



text \<open>
  The wiring of the components: without a Docker client (\<open>sdk\<close> false) the health check says so and
  the convergence poll fails; \<open>base\<close> holds the parameters of the environment.
\<close>

record start_flags =
  fl_socket :: string
  fl_tcp_addr :: string
  fl_tls_cert :: string
  fl_tls_key :: string
  fl_data_dir :: string
  fl_dev :: bool

definition wire ::
  "start_flags \<Rightarrow> string \<Rightarrow> bool \<Rightarrow> ('d \<Rightarrow> bool) \<Rightarrow> (instant \<Rightarrow> string + (string \<times> string) list) \<Rightarrow> 'd server_cfg \<Rightarrow> 'd server_cfg"
where
  "wire fl key sdk ping poll base =
     base\<lparr>sc_env := (sc_env base)\<lparr>env_sdk := sdk, env_data_dir := fl_data_dir fl, env_master_key := key\<rparr>,
          sc_dev_mode := fl_dev fl,
          sc_recon := True,
          sc_docker_reachable := Some (\<lambda>d. sdk \<and> ping d),
          sc_poll := Some (\<lambda>t. if sdk then poll t else Inl ''docker unavailable'')\<rparr>"

section \<open>Serving\<close>

definition serve :: "mux \<Rightarrow> (http_request \<Rightarrow> response) \<Rightarrow> 'd server_cfg \<Rightarrow> http_request \<Rightarrow> ('d, response) act" where
  "serve mux miss cfg r = (case dispatch mux r of None \<Rightarrow> return (miss r) | Some req \<Rightarrow> handle cfg req)"

definition serve_tcp_request ::
  "mux \<Rightarrow> (http_request \<Rightarrow> response) \<Rightarrow> 'd server_cfg \<Rightarrow> string \<Rightarrow> http_request \<Rightarrow> ('d, response) act"
where
  "serve_tcp_request mux miss cfg hdr r = token_auth cfg hdr (serve mux miss cfg r)"

datatype serve_error = ListenFailed string string | KeyPairFailed | ServeFailed string

datatype listener = Closed | Listening | Ended "serve_error option"

definition failed :: "listener \<Rightarrow> bool" where
  "failed l = (case l of Ended (Some e) \<Rightarrow> True | _ \<Rightarrow> False)"

text \<open>The outcome of \<^verbatim>\<open>net.Listen\<close> is an error or \<^term>\<open>None\<close>; a stale socket file is removed before.\<close>

definition listen_unix :: "start_flags \<Rightarrow> string option \<Rightarrow> listener" where
  "listen_unix fl r = (case r of None \<Rightarrow> Listening | Some e \<Rightarrow> Ended (Some (ListenFailed (fl_socket fl) e)))"

text \<open>The key is only read when the certificate could be read.\<close>

definition load_pair :: "string \<Rightarrow> string \<Rightarrow> fs \<Rightarrow> cert option \<times> fs" where
  "load_pair cert key s =
     (case os_read_file cert s of
        (Inl _, s1) \<Rightarrow> (None, s1)
      | (Inr a, s1) \<Rightarrow>
          (case os_read_file key s1 of
             (Inl _, s2) \<Rightarrow> (None, s2)
           | (Inr b, s2) \<Rightarrow> (x509_key_pair a b, s2)))"

definition listen_tcp :: "start_flags \<Rightarrow> fs \<Rightarrow> string option \<Rightarrow> listener \<times> fs" where
  "listen_tcp fl s r =
     (if fl_tcp_addr fl = '''' then (Ended None, s)
      else case load_pair (fl_tls_cert fl) (fl_tls_key fl) s of
        (None, s1) \<Rightarrow> (Ended (Some KeyPairFailed), s1)
      | (Some c, s1) \<Rightarrow>
          (case r of None \<Rightarrow> Listening | Some e \<Rightarrow> Ended (Some (ListenFailed (fl_tcp_addr fl) e)), s1))"

text \<open>\<^verbatim>\<open>Serve\<close> ends with \<^verbatim>\<open>ErrServerClosed\<close> (\<^term>\<open>None\<close>) after a shutdown, or with another error.\<close>

definition served :: "string option \<Rightarrow> listener" where
  "served r = Ended (map_option ServeFailed r)"

section \<open>The loop of the reconciler\<close>

definition tick_period :: "duration \<Rightarrow> duration" where
  "tick_period p = (if p \<le> 0 then 30 * second else p)"

datatype loop_event = TickerFires | CtxDone

text \<open>One round of the select: the tick that begins, the world, and whether the loop goes on.\<close>

definition loop_round :: "'d env \<Rightarrow> loop_event \<Rightarrow> 'd world \<Rightarrow> tick_phase option \<times> 'd world \<times> bool" where
  "loop_round env ev w =
     (case ev of CtxDone \<Rightarrow> (None, w, False) | TickerFires \<Rightarrow> (case tick_begin env w of (ph, w1) \<Rightarrow> (ph, w1, True)))"

text \<open>The loop waits in its select whenever no tick of its own is in flight.\<close>

definition in_select :: "'d busy \<Rightarrow> bool" where
  "in_select b \<longleftrightarrow> (\<forall>t \<in> set (bz_ticks b). \<not> fst t)"

section \<open>The process\<close>

record 'd process =
  pr_busy :: "'d busy"
  pr_unix :: listener
  pr_tcp :: listener
  pr_loop :: bool
  pr_cancelled :: bool
  pr_signalled :: bool
  pr_running :: bool

definition start_process :: "db \<Rightarrow> fs \<Rightarrow> 'd \<Rightarrow> 'd process" where
  "start_process db s d =
     \<lparr>pr_busy = idle \<lparr>dm_world = \<lparr>w_db = db, w_fs = s, w_docker = d, w_states = Map.empty, w_trace = [], w_last_tick = None\<rparr>,
        dm_pending = 0, dm_systemctl = []\<rparr>,
      pr_unix = Closed, pr_tcp = Closed, pr_loop = True, pr_cancelled = False, pr_signalled = False, pr_running = True\<rparr>"

abbreviation pr_daemon :: "'d process \<Rightarrow> 'd daemon" where
  "pr_daemon p \<equiv> bz_daemon (pr_busy p)"

definition set_daemon :: "'d process \<Rightarrow> 'd daemon \<Rightarrow> 'd process" where
  "set_daemon p s = p\<lparr>pr_busy := (pr_busy p)\<lparr>bz_daemon := s\<rparr>\<rparr>"

inductive process_step ::
  "mux \<Rightarrow> (http_request \<Rightarrow> response) \<Rightarrow> 'd server_cfg \<Rightarrow> start_flags \<Rightarrow> 'd process \<Rightarrow> 'd process \<Rightarrow> bool"
  for mux miss cfg fl
where
  ListenUnix: "pr_running p \<Longrightarrow> pr_unix p = Closed \<Longrightarrow> l = listen_unix fl r \<Longrightarrow>
    process_step mux miss cfg fl p (p\<lparr>pr_unix := l, pr_cancelled := pr_cancelled p \<or> failed l\<rparr>)"
| ListenTcp: "pr_running p \<Longrightarrow> pr_tcp p = Closed \<Longrightarrow> fl_tcp_addr fl \<noteq> '''' \<Longrightarrow>
    listen_tcp fl (w_fs (dm_world (pr_daemon p))) r = (l, f) \<Longrightarrow>
    process_step mux miss cfg fl p
      ((set_daemon p (set_world (pr_daemon p) ((dm_world (pr_daemon p))\<lparr>w_fs := f\<rparr>)))\<lparr>pr_tcp := l\<rparr>)"
| UnixRequest: "pr_running p \<Longrightarrow> pr_unix p = Listening \<Longrightarrow>
    process_step mux miss cfg fl p (set_daemon p (snd (run_state (serve mux miss cfg rq) (pr_daemon p))))"
| TcpRequest: "pr_running p \<Longrightarrow> pr_tcp p = Listening \<Longrightarrow>
    process_step mux miss cfg fl p (set_daemon p (snd (run_state (serve_tcp_request mux miss cfg hdr rq) (pr_daemon p))))"
| DeleteBegins: "pr_running p \<Longrightarrow> pr_unix p = Listening \<Longrightarrow> dispatch mux rq = Some (DeleteTenant tid purge) \<Longrightarrow>
    run_state (delete_tenant_mark cfg tid (purge = ''true'')) (pr_daemon p) = (pid, s) \<Longrightarrow>
    process_step mux miss cfg fl p (p\<lparr>pr_busy := (pr_busy p)\<lparr>bz_daemon := s,
      bz_deletes := bz_deletes (pr_busy p) @ [(tid, purge = ''true'', pid)]\<rparr>\<rparr>)"
| DeleteBeginsTcp: "pr_running p \<Longrightarrow> pr_tcp p = Listening \<Longrightarrow> dispatch mux rq = Some (DeleteTenant tid purge) \<Longrightarrow>
    has_prefix hdr ''Bearer '' \<Longrightarrow>
    run_state (on_store (lookup_token (env_sha (sc_env cfg)) (trim_prefix hdr ''Bearer ''))) (pr_daemon p) = (Inr k, s0) \<Longrightarrow>
    run_state (delete_tenant_mark cfg tid (purge = ''true'')) s0 = (pid, s) \<Longrightarrow>
    process_step mux miss cfg fl p (p\<lparr>pr_busy := (pr_busy p)\<lparr>bz_daemon := s,
      bz_deletes := bz_deletes (pr_busy p) @ [(tid, purge = ''true'', pid)]\<rparr>\<rparr>)"
| DeleteEnds: "pr_running p \<Longrightarrow> i < length (bz_deletes (pr_busy p)) \<Longrightarrow> bz_deletes (pr_busy p) ! i = (tid, purge, pid) \<Longrightarrow>
    run_state (delete_tenant_finish tid purge pid) (pr_daemon p) = (resp, s) \<Longrightarrow>
    process_step mux miss cfg fl p (p\<lparr>pr_busy := (pr_busy p)\<lparr>bz_daemon := s, bz_deletes := drop_nth i (bz_deletes (pr_busy p))\<rparr>\<rparr>)"
| UnixServed: "pr_running p \<Longrightarrow> pr_unix p = Listening \<Longrightarrow> (r = None \<longrightarrow> pr_cancelled p) \<Longrightarrow> l = served r \<Longrightarrow>
    process_step mux miss cfg fl p (p\<lparr>pr_unix := l, pr_cancelled := pr_cancelled p \<or> failed l\<rparr>)"
| TcpServed: "pr_running p \<Longrightarrow> pr_tcp p = Listening \<Longrightarrow> (r = None \<longrightarrow> pr_cancelled p) \<Longrightarrow>
    process_step mux miss cfg fl p (p\<lparr>pr_tcp := served r\<rparr>)"
| Loop: "pr_running p \<Longrightarrow> pr_loop p \<Longrightarrow> in_select (pr_busy p) \<Longrightarrow> (ev = CtxDone \<longrightarrow> pr_cancelled p) \<Longrightarrow>
    loop_round (sc_env cfg) ev (dm_world (pr_daemon p)) = (ph, w, on) \<Longrightarrow>
    process_step mux miss cfg fl p (p\<lparr>pr_busy := (pr_busy p)\<lparr>bz_daemon := set_world (pr_daemon p) w,
      bz_ticks := started True ph (bz_ticks (pr_busy p))\<rparr>, pr_loop := on\<rparr>)"
| Triggered: "pr_running p \<Longrightarrow> 0 < dm_pending (pr_daemon p) \<Longrightarrow>
    tick_begin (sc_env cfg) (dm_world (pr_daemon p)) = (ph, w) \<Longrightarrow>
    process_step mux miss cfg fl p (p\<lparr>pr_busy := (pr_busy p)\<lparr>
      bz_daemon := set_world ((pr_daemon p)\<lparr>dm_pending := dm_pending (pr_daemon p) - 1\<rparr>) w,
      bz_ticks := started False ph (bz_ticks (pr_busy p))\<rparr>\<rparr>)"
| TickMoves: "pr_running p \<Longrightarrow> i < length (bz_ticks (pr_busy p)) \<Longrightarrow>
    tick_move (sc_env cfg) (snd (bz_ticks (pr_busy p) ! i)) (dm_world (pr_daemon p)) = (ph, w) \<Longrightarrow>
    process_step mux miss cfg fl p (p\<lparr>pr_busy := (pr_busy p)\<lparr>bz_daemon := set_world (pr_daemon p) w,
      bz_ticks := moved i ph (bz_ticks (pr_busy p))\<rparr>\<rparr>)"
| World: "pr_running p \<Longrightarrow> world_step (pr_daemon p) s \<Longrightarrow> process_step mux miss cfg fl p (set_daemon p s)"
| Signal: "pr_running p \<Longrightarrow> process_step mux miss cfg fl p (p\<lparr>pr_signalled := True, pr_cancelled := True\<rparr>)"
| Return: "pr_running p \<Longrightarrow> pr_cancelled p \<Longrightarrow> process_step mux miss cfg fl p (p\<lparr>pr_running := False\<rparr>)"

lemma set_daemon_fields [simp]:
  "pr_busy (set_daemon p s) = (pr_busy p)\<lparr>bz_daemon := s\<rparr>" "pr_unix (set_daemon p s) = pr_unix p"
  "pr_tcp (set_daemon p s) = pr_tcp p" "pr_loop (set_daemon p s) = pr_loop p"
  "pr_cancelled (set_daemon p s) = pr_cancelled p" "pr_signalled (set_daemon p s) = pr_signalled p"
  "pr_running (set_daemon p s) = pr_running p"
  by (simp_all add: set_daemon_def)

text \<open>
  A command of the command line whose transport is the socket of a running daemon.  The client gives
  up after a minute; its clock has started before the handler's, so at a tie it has given up.
\<close>

definition client_timeout :: duration where
  "client_timeout = 60 * second"

definition cli_run ::
  "mux \<Rightarrow> (http_request \<Rightarrow> response) \<Rightarrow> 'd server_cfg \<Rightarrow> command \<Rightarrow> 'd daemon \<Rightarrow> cli_error option \<times> 'd daemon"
where
  "cli_run mux miss cfg c s =
     (case cli_request c of
        Inl e \<Rightarrow> (Some e, s)
      | Inr r \<Rightarrow> (case run_state (serve mux miss cfg r) s of
          (resp, s') \<Rightarrow>
            (cli_call (\<lambda>_. if clock (dm_world s') - clock (dm_world s) \<ge> client_timeout
                then Inl ''Client.Timeout exceeded while awaiting headers'' else Inr resp) c, s')))"

section \<open>The start\<close>








section \<open>The process is the daemon of the API\<close>

lemma run_token_auth_return:
  "snd (run_state (token_auth cfg hdr (return x)) s) = s \<or>
     (\<exists>fs gs. snd (run_state (token_auth cfg hdr (return x)) s) =
        set_world s ((dm_world s)\<lparr>w_db := (w_db (dm_world s))\<lparr>db_faults := fs\<rparr>, w_fs := (w_fs (dm_world s))\<lparr>fs_faults := gs\<rparr>\<rparr>))"
proof (cases "has_prefix hdr ''Bearer ''")
  case True
  obtain r s1 where o: "run_state (on_store (lookup_token (env_sha (sc_env cfg)) (trim_prefix hdr ''Bearer ''))) s = (r, s1)"
    by fastforce
  obtain db where db: "lookup_token (env_sha (sc_env cfg)) (trim_prefix hdr ''Bearer '') (w_db (dm_world s)) = (r, db)"
      "s1 = set_world s ((dm_world s)\<lparr>w_db := db\<rparr>)"
    using daemon_on_store[OF o] by auto
  obtain fs where "db = (w_db (dm_world s))\<lparr>db_faults := fs\<rparr>" using lookup_token_state[OF db(1)] by blast
  then have "s1 = set_world s ((dm_world s)\<lparr>w_db := (w_db (dm_world s))\<lparr>db_faults := fs\<rparr>,
      w_fs := (w_fs (dm_world s))\<lparr>fs_faults := fs_faults (w_fs (dm_world s))\<rparr>\<rparr>)"
    using db(2) by simp
  moreover have "snd (run_state (token_auth cfg hdr (return x)) s) = s1"
    using True o by (simp add: token_auth_def State_Monad.bind_def State_Monad.return_def split: sum.split)
  ultimately show ?thesis by blast
qed (simp add: token_auth_def State_Monad.return_def)

lemma serve_busy: "(busy_step cfg)\<^sup>*\<^sup>* b (b\<lparr>bz_daemon := snd (run_state (serve mux miss cfg r) (bz_daemon b))\<rparr>)"
  using busy_step.Unix[of cfg b] by (cases "dispatch mux r") (auto simp: serve_def State_Monad.return_def intro: r_into_rtranclp)

lemma serve_tcp_busy:
  "(busy_step cfg)\<^sup>*\<^sup>* b (b\<lparr>bz_daemon := snd (run_state (serve_tcp_request mux miss cfg hdr r) (bz_daemon b))\<rparr>)"
proof (cases "dispatch mux r")
  case None
  then show ?thesis
    using run_token_auth_return[of cfg hdr "miss r" "bz_daemon b"] busy_step.World[OF world_step.Fails[of "bz_daemon b"], of cfg]
    by (auto simp: serve_tcp_request_def serve_def)
next
  case (Some req)
  then show ?thesis
    using busy_step.Tcp[of cfg b hdr req] by (simp add: serve_tcp_request_def serve_def tcp_handler_def r_into_rtranclp)
qed

lemma token_read_busy:
  assumes "run_state (on_store (lookup_token sha raw)) (bz_daemon b) = (r, s)"
  shows "busy_step cfg b (b\<lparr>bz_daemon := s\<rparr>)"
proof -
  let ?s = "bz_daemon b"
  obtain db where db: "lookup_token sha raw (w_db (dm_world ?s)) = (r, db)" "s = set_world ?s ((dm_world ?s)\<lparr>w_db := db\<rparr>)"
    using daemon_on_store[OF assms] by auto
  obtain fs where "db = (w_db (dm_world ?s))\<lparr>db_faults := fs\<rparr>" using lookup_token_state[OF db(1)] by blast
  then show ?thesis
    using db(2) busy_step.World[OF world_step.Fails[where s = ?s and fs = fs and gs = "fs_faults (w_fs (dm_world ?s))"], of cfg] by simp
qed

lemma load_pair_reads: "load_pair cert key s = (r, s') \<Longrightarrow> s' = s\<lparr>fs_faults := fs_faults s'\<rparr>"
  by (auto simp: load_pair_def split: prod.splits sum.splits dest!: read_file_cases)

lemma listen_tcp_reads: "listen_tcp fl s r = (l, s') \<Longrightarrow> s' = s\<lparr>fs_faults := fs_faults s'\<rparr>"
  by (auto simp: listen_tcp_def split: if_splits prod.splits option.splits dest: load_pair_reads)

lemma process_step_busy:
  "process_step mux miss cfg fl p p' \<Longrightarrow> (busy_step cfg)\<^sup>*\<^sup>* (pr_busy p) (pr_busy p')"
proof (induction rule: process_step.induct)
  case (ListenTcp p r l f)
  let ?s = "pr_daemon p"
  have "(dm_world ?s)\<lparr>w_fs := f\<rparr> = (dm_world ?s)\<lparr>w_db := (w_db (dm_world ?s))\<lparr>db_faults := db_faults (w_db (dm_world ?s))\<rparr>,
      w_fs := (w_fs (dm_world ?s))\<lparr>fs_faults := fs_faults f\<rparr>\<rparr>"
    using listen_tcp_reads[OF ListenTcp(4)] by simp
  then show ?case
    using busy_step.World[OF world_step.Fails[where s = ?s and fs = "db_faults (w_db (dm_world ?s))" and gs = "fs_faults f"], of cfg] by (simp add: r_into_rtranclp)
next
  case (UnixRequest p rq)
  then show ?case using serve_busy by simp
next
  case (TcpRequest p hdr rq)
  then show ?case using serve_tcp_busy by simp
next
  case (DeleteBegins p rq tid purge pid s)
  then show ?case using busy_step.Mark[OF DeleteBegins(4)] by (simp add: r_into_rtranclp)
next
  case (DeleteBeginsTcp p rq tid purge hdr k s0 pid s)
  have "busy_step cfg (pr_busy p) ((pr_busy p)\<lparr>bz_daemon := s0\<rparr>)" by (rule token_read_busy[OF DeleteBeginsTcp(5)])
  moreover have "busy_step cfg ((pr_busy p)\<lparr>bz_daemon := s0\<rparr>) ((pr_busy p)\<lparr>bz_daemon := s,
      bz_deletes := bz_deletes (pr_busy p) @ [(tid, purge = ''true'', pid)]\<rparr>)"
    using busy_step.Mark[of cfg tid "purge = ''true''" "(pr_busy p)\<lparr>bz_daemon := s0\<rparr>" pid s] DeleteBeginsTcp(6) by simp
  ultimately show ?case by (simp add: converse_rtranclp_into_rtranclp r_into_rtranclp)
next
  case (DeleteEnds p i tid purge pid resp s)
  then show ?case using busy_step.Finish[OF DeleteEnds(2-4)] by (simp add: r_into_rtranclp)
next
  case (Loop p ev ph w on)
  show ?case
  proof (cases ev)
    case CtxDone
    then show ?thesis using Loop(5) by (auto simp: loop_round_def set_world_def started_def)
  next
    case TickerFires
    then show ?thesis using Loop(3,5) busy_step.Ticker[of "pr_busy p" cfg ph w]
      by (auto simp: loop_round_def in_select_def split: prod.splits intro!: r_into_rtranclp)
  qed
next
  case (Triggered p ph w)
  then show ?case using busy_step.Trigger[OF Triggered(2,3)] by (simp add: r_into_rtranclp)
next
  case (TickMoves p i ph w)
  then show ?case using busy_step.Move[OF TickMoves(2,3)] by (simp add: r_into_rtranclp)
next
  case (World p s)
  then show ?case using busy_step.World by (auto intro: r_into_rtranclp)
qed auto

lemma process_steps_busy:
  "(process_step mux miss cfg fl)\<^sup>*\<^sup>* p p' \<Longrightarrow> (busy_step cfg)\<^sup>*\<^sup>* (pr_busy p) (pr_busy p')"
proof (induction rule: rtranclp_induct)
  case (step p' p'')
  show ?case by (rule rtranclp_trans[OF step(3) process_step_busy[OF step(2)]])
qed simp

text \<open>
  Whatever the listeners, the loop, the signals and the clients do, every run of the process is a run
  of the daemon with work in flight; so a registry that is consistent when it starts stays so.
\<close>

lemma process_refines_daemon:
  assumes "(process_step mux miss cfg fl)\<^sup>*\<^sup>* (start_process db s d) p"
  shows "(busy_step cfg)\<^sup>*\<^sup>* (pr_busy (start_process db s d)) (pr_busy p)"
    "db_inv db \<Longrightarrow> db_inv (w_db (dm_world (pr_daemon p)))"
  using process_steps_busy[OF assms] registry_busy.R_busy_steps[OF process_steps_busy[OF assms]]
  by (simp_all add: start_process_def)

section \<open>How the process ends\<close>

definition process_inv :: "start_flags \<Rightarrow> 'd process \<Rightarrow> bool" where
  "process_inv fl p \<longleftrightarrow>
     (pr_cancelled p \<longleftrightarrow> pr_signalled p \<or> failed (pr_unix p)) \<and>
     (\<not> pr_running p \<longrightarrow> pr_cancelled p) \<and> (\<not> pr_loop p \<longrightarrow> pr_cancelled p) \<and>
     (pr_unix p = Ended None \<or> pr_tcp p = Ended None \<longrightarrow> pr_cancelled p) \<and>
     (fl_tcp_addr fl = '''' \<longrightarrow> pr_tcp p = Closed)"

lemma failed_simps [simp]: "\<not> failed Closed" "\<not> failed Listening" "\<not> failed (Ended None)" "failed (Ended (Some e))"
  by (simp_all add: failed_def)

lemma process_inv_step: "process_step mux miss cfg fl p p' \<Longrightarrow> process_inv fl p \<Longrightarrow> process_inv fl p'"
  by (induction rule: process_step.induct)
    (auto simp: process_inv_def listen_unix_def listen_tcp_def served_def loop_round_def split: option.splits loop_event.splits prod.splits)

lemma process_inv_reachable:
  "(process_step mux miss cfg fl)\<^sup>*\<^sup>* (start_process db s d) p \<Longrightarrow> process_inv fl p"
proof (induction rule: rtranclp_induct)
  case base
  show ?case by (simp add: process_inv_def start_process_def)
next
  case (step p p')
  show ?case by (rule process_inv_step[OF step(2,3)])
qed

text \<open>
  The daemon keeps running until it is told to stop or its socket fails: nothing else ends it
  (a failing TCP listener does not), the loop of the reconciler does not stop earlier either, without
  an address there is no TCP listener, and once it is cancelled it can end at once.
\<close>

lemma daemon_ends_for_a_reason:
  assumes "(process_step mux miss cfg fl)\<^sup>*\<^sup>* (start_process db s d) p"
  shows "(pr_running p \<and> pr_loop p \<or> pr_signalled p \<or> failed (pr_unix p)) \<and>
    (fl_tcp_addr fl = '''' \<longrightarrow> pr_tcp p = Closed) \<and>
    (pr_running p \<and> (pr_signalled p \<or> failed (pr_unix p)) \<longrightarrow> (\<exists>p'. process_step mux miss cfg fl p p' \<and> \<not> pr_running p'))"
proof -
  have i: "process_inv fl p" by (rule process_inv_reachable[OF assms])
  have "process_step mux miss cfg fl p (p\<lparr>pr_running := False\<rparr>)" if "pr_running p" "pr_signalled p \<or> failed (pr_unix p)"
    using that i by (intro process_step.Return) (auto simp: process_inv_def)
  then have "pr_running p \<and> (pr_signalled p \<or> failed (pr_unix p)) \<longrightarrow> (\<exists>p'. process_step mux miss cfg fl p p' \<and> \<not> pr_running p')"
    by (metis process.select_convs(7) process.surjective process.update_convs(7))
  then show ?thesis using i by (auto simp: process_inv_def)
qed

text \<open>The port of the TCP listener is taken: the process goes on without it.\<close>

lemma daemon_ends_for_a_reason_witness:
  "\<forall>(cfg :: unit server_cfg) miss. \<exists>p.
     (process_step first_fit miss cfg
        \<lparr>fl_socket = ''/run/c.sock'', fl_tcp_addr = '':8443'', fl_tls_cert = ''c'', fl_tls_key = ''k'', fl_data_dir = ''/d'', fl_dev = True\<rparr>)\<^sup>*\<^sup>*
       (start_process (empty_db 0) \<lparr>fs_files = Map.empty, fs_faults = []\<rparr> ()) p \<and>
     failed (pr_tcp p) \<and> pr_running p \<and> pr_loop p"
proof (intro allI)
  fix cfg :: "unit server_cfg" and miss
  let ?fl = "\<lparr>fl_socket = ''/run/c.sock'', fl_tcp_addr = '':8443'', fl_tls_cert = ''c'', fl_tls_key = ''k'', fl_data_dir = ''/d'', fl_dev = True\<rparr>"
  let ?p0 = "start_process (empty_db 0) \<lparr>fs_files = Map.empty, fs_faults = []\<rparr> ()"
  define p1 where "p1 = (set_daemon ?p0 (set_world (pr_daemon ?p0) ((dm_world (pr_daemon ?p0))\<lparr>w_fs := \<lparr>fs_files = Map.empty, fs_faults = []\<rparr>\<rparr>)))
    \<lparr>pr_tcp := Ended (Some KeyPairFailed)\<rparr>"
  have "process_step first_fit miss cfg ?fl ?p0 p1"
    unfolding p1_def
    by (rule process_step.ListenTcp)
      (simp_all add: start_process_def listen_tcp_def load_pair_def os_read_file_def pop_io_fault_def)
  then have r: "(process_step first_fit miss cfg ?fl)\<^sup>*\<^sup>* ?p0 p1" by blast
  have "failed (pr_tcp p1)" "\<not> pr_signalled p1" "\<not> failed (pr_unix p1)"
    by (simp_all add: p1_def start_process_def)
  with daemon_ends_for_a_reason[OF r] r show "\<exists>p. (process_step first_fit miss cfg ?fl)\<^sup>*\<^sup>* ?p0 p \<and> failed (pr_tcp p) \<and> pr_running p \<and> pr_loop p"
    by blast
qed

section \<open>Who can change the registry\<close>







section \<open>From the command line to the handler\<close>

text \<open>
  C34. A command does what it says: when the command is named as it is called (the two commands for
  certificates are not) and its identifiers have no special characters, running it against
  the socket of the daemon has exactly the effect of the handler of the request the command stands
  for (the parameters, flags and fields arrive unchanged).  The command fails exactly when the
  handler answers with a status from 400 on, or takes a minute or longer: then the command reports the
  daemon as unavailable, although the handler has had its effect.
\<close>

theorem cli_drives_handler:
  assumes "serves mux" "reachable_command c" "meaning c = Some req"
  shows "cli_run mux miss cfg c s =
    (case run_state (handle cfg req) s of
       (resp, s') \<Rightarrow>
         (if clock (dm_world s') - clock (dm_world s) \<ge> 60 * second
          then Some (DaemonUnavailable ''Client.Timeout exceeded while awaiting headers'')
          else if rs_status resp \<ge> 400 then Some (HttpStatus (rs_status resp)) else None, s'))"
proof -
  obtain r where "cli_request c = Inr r" "dispatch mux r = Some req"
    using multiplexer.cli_reaches_handler[OF _ assms(3)] assms(1) by (auto simp: multiplexer_serves)
  then show ?thesis by (auto simp: cli_run_def cli_call_def serve_def client_timeout_def split: prod.split)
qed

theorem cli_drives_handler_witness:
  "\<forall>(cfg :: unit server_cfg) miss s. cli_run first_fit miss cfg (SiteCmd (SiteRm ''tnt_a'' ''ste_x'' True)) s =
    (case run_state (handle_delete_site cfg ''tnt_a'' ''ste_x'' True) s of
       (resp, s') \<Rightarrow>
         (if clock (dm_world s') - clock (dm_world s) \<ge> 60 * second
          then Some (DaemonUnavailable ''Client.Timeout exceeded while awaiting headers'')
          else if rs_status resp \<ge> 400 then Some (HttpStatus (rs_status resp)) else None, s'))"
proof (intro allI)
  fix cfg :: "unit server_cfg" and miss s
  have "meaning (SiteCmd (SiteRm ''tnt_a'' ''ste_x'' True)) = Some (DeleteSite ''tnt_a'' ''ste_x'' ''true'')"
    by (simp add: plain_id_def is_lower_def is_digit_def)
  from cli_drives_handler[OF first_fit_serves reachable_site this, of miss cfg s]
  show "cli_run first_fit miss cfg (SiteCmd (SiteRm ''tnt_a'' ''ste_x'' True)) s =
    (case run_state (handle_delete_site cfg ''tnt_a'' ''ste_x'' True) s of
       (resp, s') \<Rightarrow>
         (if clock (dm_world s') - clock (dm_world s) \<ge> 60 * second
          then Some (DaemonUnavailable ''Client.Timeout exceeded while awaiting headers'')
          else if rs_status resp \<ge> 400 then Some (HttpStatus (rs_status resp)) else None, s'))" by simp
qed

end
