(* ===== verification/Spec2Isabelle.thy ===== *)
theory Spec2Isabelle
  imports Prelude GoTime Config Capacity Crypto FileSys Pki AuditLog Table Store StoreInv
    Render Provision Runner Reconciler ReconcilerInv Admission Backup Server ServerInv ServerProps
    Ingest Migrate Router Cli Schema Upgrade Admin Concurrent Interleaving Process
begin

text \<open>
  A model of the controlai control plane, a daemon that provisions MQTT brokers and time series
  databases for tenants and their sites with Docker Compose.

  \<^bold>\<open>The parts and how they interact.\<close>  Clients call the REST API (\<^verbatim>\<open>internal/daemon\<close>) on a local
  socket or, with a token, over TLS.  The handlers validate (\<^verbatim>\<open>internal/config\<close>), ask for
  admission (\<^verbatim>\<open>internal/capacity\<close>), write rows to the registry (\<^verbatim>\<open>internal/store/sqlite\<close>), generate
  a certificate authority per site (\<^verbatim>\<open>internal/pki\<close>), render the files of a compose project
  (\<^verbatim>\<open>internal/render\<close>), emit audit events (\<^verbatim>\<open>internal/audit\<close>) and start the reconciler.  The
  reconciler (\<^verbatim>\<open>internal/recon\<close>) compares the desired states of the registry with the containers
  that Docker reports and runs \<^verbatim>\<open>docker compose\<close> through the runner (\<^verbatim>\<open>internal/runner\<close>); it also
  keeps the certificates of all sites fresh.  The program (\<^verbatim>\<open>cmd/controlai\<close>) starts the daemon after
  its checks, and its other commands are clients of the API or work on the registry and the files
  themselves.  Beside the daemon there are the backups (\<^verbatim>\<open>internal/backup\<close>), the migration of
  documents (\<^verbatim>\<open>internal/migrate/yaml\<close>) and the ingest service (\<^verbatim>\<open>services/ingest\<close>) that runs in
  every site.

  \<^bold>\<open>Theories.\<close>
  \<^item> \<open>Prelude\<close>, \<open>GoTime\<close>, \<open>Crypto\<close>, \<open>FileSys\<close>, \<open>Table\<close>: what the program uses of the language and
    its standard library: strings and numbers, anchored regular expressions, instants and calendar
    dates, symbolic certificates and sealed boxes, files with failures, and lists of rows.
  \<^item> \<open>Config\<close> and \<open>Capacity\<close>: the documents with their validators; the profile table, the prediction
    (with the rounding of the binary64 product) and the reader of the memory size.
  \<^item> \<open>Pki\<close>: authorities, leaf and server certificates, the rotation test and the trust files.
  \<^item> \<open>AuditLog\<close>, \<open>Store\<close>, \<open>StoreInv\<close>: events and their emitter as a locale; every operation of the
    registry as a function on a record of its tables, with the constraints of the schema and
    transactions; the invariant of the registry and what each operation does.
  \<^item> \<open>Render\<close> and \<open>Provision\<close>: the walk over the templates, atomic writes, credentials, the combined
    hash, and the two pipelines that render a project and record it.
  \<^item> \<open>Runner\<close>: command lines and parsers, and the locking around compose calls as a step relation.
  \<^item> \<open>Reconciler\<close> and \<open>ReconcilerInv\<close>: one tick over projects and sites; relations that every tick
    respects.
  \<^item> \<open>Admission\<close>, \<open>Server\<close>, \<open>ServerInv\<close>, \<open>ServerProps\<close>: responses, validation and admission; every
    handler as an action of the state monad; the daemon as a step relation over requests,
    reconciler runs, time and failures; what all its steps keep; what single requests promise.
  \<^item> \<open>Backup\<close>, \<open>Migrate\<close>, \<open>Ingest\<close>: dumps and their pruning; migrations of documents; the ring
    buffer with its concurrent flushes as a step relation.
  \<^item> \<open>Router\<close>, \<open>Cli\<close>: the route table of \<open>buildRouter\<close> with the decoding of paths, queries and bodies
    (the multiplexer is a parameter with the contract \<open>serves\<close>); the requests that the commands of the
    command line put together, and the request of the API each command stands for.
  \<^item> \<open>Concurrent\<close>, \<open>Interleaving\<close>: the daemon with work in flight.  A tick (\<open>tick_begin\<close>, \<open>tick_move\<close>)
    reads the desired rows and then takes one step for each site and up to three for each project, to
    decide, to run the command and to record the outcome (\<open>decide\<close>, \<open>act\<close>, \<open>conclude\<close>); the deletion
    of a tenant has two parts, and several ticks, deletions and the requests interleave
    (\<open>busy_step\<close>); undisturbed ticks are those of \<open>Reconciler\<close>.  Then what every interleaving keeps, and what some
    interleavings do to a single project.
  \<^item> \<open>Schema\<close>, \<open>Upgrade\<close>: \<open>sqlite.Open\<close> with its migrations, on a file of tables, columns, rows and
    indexes; the reading of the tenants from such a file, which gives the rows \<open>Store\<close> works on.
  \<^item> \<open>Admin\<close>: the commands that do not call the API (tokens, migration, backups, authority, shared proxy
    with its port check, installation), and the logger.
  \<^item> \<open>Process\<close>: the checks before the daemon starts, and the process with its listeners, the loop of the
    reconciler, the ticks and deletions in flight, signals and its end, as a step relation; a command
    with its time limit at one end of the socket and the handler at the other.

  \<^bold>\<open>State and effects.\<close>  A database is a record of tables (\<open>db\<close>), a file system a map from paths to
  contents (\<open>fs\<close>).  Both carry the outcomes that the environment has in store for the calls to come,
  so that a theorem about all states is a theorem about all patterns of failure.  The world of the
  reconciler (\<open>world\<close>) adds Docker, the backoff states and the trace of the commands; the daemon
  (\<open>daemon\<close>) adds the background runs that were triggered.  Errors are values of sum types with one
  constructor per error of the code.

  \<^bold>\<open>What the lemmas show.\<close>
  \<^item> Capacity: the prediction is the reference sum and fails exactly for unknown combinations, which
    validated sites never have; admission, however, does not count the sites that exist.
  \<^item> Certificates: a rotation is stable for 3600 days, over any sequence of later calls, and
    leaves a pair that matches and verifies; three situations in which the files do not become right.
  \<^item> Registry: the invariant of keys, references and numbering in every reachable state; round trips,
    exact listings, purge as an atomic removal, the life of a token.
  \<^item> Rendering: atomic writes, disjoint file names, the combined hash as a fingerprint.
  \<^item> Runner: exclusion per project and in all, and progress, in every interleaving.
  \<^item> Reconciler: the right command and no other, up exactly on drift, convergence after a
    successful up, isolation of projects from each other's failures.  In every interleaving the
    backoff is bounded by the ladder and commands are issued only for rows that a tick has read; but
    a tick in flight can undo a stop, and a purge that is faster than the tick it has started abandons
    the containers.
  \<^item> API: exact creation, the guard of the TCP transport, and identifiers, tags and combinations of
    the documented form in every state of every interleaving; answers in bounded time.
  \<^item> Backups and migrations: nothing old is lost before the new is complete: an archive is only
    replaced after every stage of the dump has succeeded; the dry run is exact.
  \<^item> Ingest: no row is lost or doubled in any interleaving while the service runs, the buffer size from
    which rows are stuck, and the shutdown that loses a batch.
  \<^item> Command line and process: a command that its words name has exactly the effect of the handler it
    is meant for, and fails on an error status or after a minute; the commands for certificates are not
    called as they are documented; the start checks the key, the schema and the documents; opening the
    registry resumes after any interruption, loses nothing and keeps the tenants of an older file; every
    run of the process is a run of the daemon with work in flight, and it is guarded: who can change its
    tables, when its loop works and why it ends; the port check is bounded; a migration is audited; the
    service is enabled last.

  \<^bold>\<open>Interfaces\<close> are locales: the audit emitter, predicates that statements keep (\<open>db_predicate\<close>,
  \<open>written_predicate\<close>, \<open>provision_predicate\<close>), relations that a tick respects (\<open>world_rel\<close>,
  \<open>tick_rel\<close>), that every request respects (\<open>daemon_frame\<close>, \<open>request_rel\<close>) and that every step
  respects (\<open>daemon_rel\<close>, \<open>busy_rel\<close>), and the multiplexer of the router (\<open>multiplexer\<close>,
  inside which every command is shown to find its handler).  Each is interpreted on the model.

  \<^bold>\<open>Bounds and loops.\<close>  There is no fuel: loops over data are structural recursions, and the loops
  over versions (\<open>apply_migrations\<close>) and over time (\<open>poll_loop\<close>, \<open>ports_loop\<close>) have termination
  proofs; they end because every look, or the delay after it, takes some time and the deadline is
  finite.  Numbers that Go
  keeps in 64 bits and that cannot leave that range are integers; where they can (\<open>atoi\<close>, the
  memory size, the flush interval) the range is part of the definition.

  \<^bold>\<open>Parameters.\<close>  The template engine, SHA-256, fingerprints and randomness, Docker, the YAML, CBOR
  and JSON libraries, the MQTT client, gzip and the dump process are arguments of the definitions
  that use them, and what is asked of them is said where it is used (\<open>reads_version_back\<close> of the YAML
  library, \<open>serves\<close> of the multiplexer); so are the shell, the ports and the end of serving as the operating system reports it.

  \<^bold>\<open>Not modelled.\<close>  The parsing of arguments and the printing of the command line, the text of log
  records, chi's matching, its middleware apart from the time limit, JSON syntax, the TLS handshake,
  the texts of the templates, and the storage engine: the migrations of \<open>Schema\<close> work on the columns of
  the file, the operations of \<open>Store\<close> on rows that have them.  A request is one step, except that the
  deletion of a tenant is split at the point where it starts the reconciler; a tick is
  split as \<open>Concurrent\<close> says, its calls to the registry within one of its steps are not split
  further, and the unsynchronised access of two ticks to the map of backoff records within such a
  step is outside the model.
\<close>

end
